(* ===== verification/Prelude.thy ===== *)
theory Prelude
  imports Main "HOL-Library.Word" "HOL-Library.Sublist" "HOL-Library.List_Lexorder"
    "HOL-Library.Char_ord" "HOL-Library.Multiset"
begin

text \<open>
  Shared base of the development: names for the machine integers of the program, the
  outcome of a Rust call that may panic, read-write locks with their poison flag, and the
  parts of the Rust standard library the sources use on strings and integers
  (\<open>str::parse\<close>, \<open>from_str_radix\<close>, \<open>format!\<close>, \<open>replace\<close>, \<open>trim_start_matches\<close>, byte
  slicing, \<open>saturating_sub\<close>), with the generic lemmas the components share.
  A Rust \<open>String\<close> or byte vector is a \<^typ>\<open>string\<close>: the list of its UTF-8 bytes.
\<close>

section \<open>Collections of facts\<close>

named_theorems pool_simps \<open>how the pool operations act on ids\<close>
named_theorems kv_simps \<open>what a lookup returns after a database operation\<close>
named_theorems sub_simps \<open>how the subscription tables change\<close>

section \<open>Machine integers\<close>

type_synonym u16 = "16 word"
type_synonym u32 = "32 word"
type_synonym u64 = "64 word"
type_synonym u128 = "128 word"
type_synonym usize = "64 word"

definition saturating_sub :: "'a::len word \<Rightarrow> 'a word \<Rightarrow> 'a word" where
  "saturating_sub a b = (if b \<le> a then a - b else 0)"

definition saturating_add :: "'a::len word \<Rightarrow> 'a word \<Rightarrow> 'a word" where
  "saturating_add a b = (if unat a + unat b < 2 ^ LENGTH('a) then a + b else - 1)"

definition saturating_mul :: "'a::len word \<Rightarrow> 'a word \<Rightarrow> 'a word" where
  "saturating_mul a b = (if unat a * unat b < 2 ^ LENGTH('a) then a * b else - 1)"

lemma unat_word_max: "unat (- 1 :: 'a::len word) = 2 ^ LENGTH('a) - 1"
  by (simp add: unsigned_minus_1_eq_mask mask_eq_exp_minus_1)

lemma unat_saturating_sub: "unat (saturating_sub a b) = unat a - unat b"
  by (auto simp: saturating_sub_def unat_sub word_le_nat_alt)

lemma unat_saturating_add:
  "unat (saturating_add a b) = min (unat a + unat b) (2 ^ LENGTH('a) - 1)"
  for a b :: "'a::len word"
  by (auto simp: saturating_add_def unat_word_ariths unat_word_max min_def)

lemma unat_saturating_mul:
  "unat (saturating_mul a b) = min (unat a * unat b) (2 ^ LENGTH('a) - 1)"
  for a b :: "'a::len word"
proof (cases "unat a * unat b < 2 ^ LENGTH('a)")
  case True
  then have "unat a * unat b \<le> 2 ^ LENGTH('a) - 1" by linarith
  with True show ?thesis by (simp add: saturating_mul_def unat_word_ariths min_absorb1)
next
  case False
  then have "2 ^ LENGTH('a) - 1 \<le> unat a * unat b" by linarith
  with False show ?thesis
    by (simp only: saturating_mul_def unat_word_max if_False min_absorb2)
qed

lemma unat_Suc_less:
  assumes "a < b" shows "unat (a + 1 :: 'a::len word) = Suc (unat a)"
proof -
  have "unat b < 2 ^ LENGTH('a)" by (rule unsigned_less)
  moreover from assms have "unat a < unat b" by (simp add: word_less_nat_alt)
  ultimately have "Suc (unat a) < 2 ^ LENGTH('a)" by linarith
  then show ?thesis by (simp add: unat_word_ariths)
qed

section \<open>Outcomes of calls\<close>

text \<open>A call returns or panics; a fallible call that returns gives a sum, \<open>Inl\<close> the error.\<close>

datatype 'a outcome = Ret 'a | Panic

primrec obind :: "'a outcome \<Rightarrow> ('a \<Rightarrow> 'b outcome) \<Rightarrow> 'b outcome" where
  "obind (Ret x) f = f x"
| "obind Panic f = Panic"

lemma obind_Ret_iff: "obind m f = Ret y \<longleftrightarrow> (\<exists>x. m = Ret x \<and> f x = Ret y)"
  by (cases m) auto

lemma obind_assoc: "obind (obind m f) g = obind m (\<lambda>x. obind (f x) g)"
  by (cases m) auto

text \<open>\<open>RwLock\<close>: a panic while the write guard is held poisons the lock.\<close>

record 'a rwlock =
  contents :: 'a
  poisoned :: bool

definition new_lock :: "'a \<Rightarrow> 'a rwlock" where
  "new_lock x = \<lparr>contents = x, poisoned = False\<rparr>"

section \<open>Searching and removing in lists\<close>

fun position :: "('a \<Rightarrow> bool) \<Rightarrow> 'a list \<Rightarrow> nat option" where
  "position P [] = None"
| "position P (x # xs) = (if P x then Some 0 else map_option Suc (position P xs))"

definition remove_at :: "nat \<Rightarrow> 'a list \<Rightarrow> 'a list" where
  "remove_at i xs = take i xs @ drop (Suc i) xs"

text \<open>\<open>iter_mut().find(p)\<close> followed by an update of what was found.\<close>

fun update_first :: "('a \<Rightarrow> bool) \<Rightarrow> ('a \<Rightarrow> 'a) \<Rightarrow> 'a list \<Rightarrow> 'a list" where
  "update_first P f [] = []"
| "update_first P f (x # xs) = (if P x then f x # xs else x # update_first P f xs)"

lemma position_Some:
  "position P xs = Some i \<Longrightarrow> i < length xs \<and> P (xs ! i) \<and> (\<forall>j<i. \<not> P (xs ! j))"
proof (induction xs arbitrary: i)
  case (Cons x xs)
  show ?case
  proof (cases "P x")
    case False
    with Cons.prems obtain k where k: "position P xs = Some k" "i = Suc k" by auto
    from Cons.IH [OF k(1)] False k(2) show ?thesis by (auto simp: less_Suc_eq_0_disj nth_Cons')
  qed (use Cons.prems in auto)
qed simp

lemma position_None: "position P xs = None \<longleftrightarrow> (\<forall>x\<in>set xs. \<not> P x)"
  by (induction xs) auto

lemma find_None: "find P xs = None \<longleftrightarrow> (\<forall>x\<in>set xs. \<not> P x)"
  by (induction xs) auto

lemma find_Some: "find P xs = Some x \<Longrightarrow> x \<in> set xs \<and> P x"
  by (induction xs) (auto split: if_splits)

lemma length_update_first [simp]: "length (update_first P f xs) = length xs"
  by (induction xs) auto

lemma update_first_id: "\<forall>x\<in>set xs. \<not> P x \<Longrightarrow> update_first P f xs = xs"
  by (induction xs) auto

lemma map_update_first: "(\<And>x. P x \<Longrightarrow> g (f x) = g x) \<Longrightarrow> map g (update_first P f xs) = map g xs"
  by (induction xs) auto

lemma set_update_first: "set (update_first P f xs) \<subseteq> set xs \<union> f ` {x \<in> set xs. P x}"
  by (induction xs) auto

lemma update_first_nth:
  "i < length xs \<Longrightarrow> P (xs ! i) \<Longrightarrow> \<forall>j<i. \<not> P (xs ! j) \<Longrightarrow>
   update_first P f xs = xs[i := f (xs ! i)]"
proof (induction xs arbitrary: i)
  case (Cons x xs)
  then show ?case by (cases i) fastforce+
qed simp

lemma mset_remove_at: "i < length xs \<Longrightarrow> mset xs = add_mset (xs ! i) (mset (remove_at i xs))"
proof -
  assume i: "i < length xs"
  have "mset xs = mset (take i xs @ xs ! i # drop (Suc i) xs)"
    by (simp only: id_take_nth_drop [OF i, symmetric])
  then show ?thesis by (simp add: remove_at_def)
qed

lemma length_remove_at: "i < length xs \<Longrightarrow> length (remove_at i xs) = length xs - 1"
  by (simp add: remove_at_def)

lemma map_remove_at: "map f (remove_at i xs) = remove_at i (map f xs)"
  by (simp add: remove_at_def take_map drop_map)

section \<open>Strings\<close>

text \<open>\<open>s.replace(c, "")\<close> for a one-character pattern.\<close>

definition remove_char :: "char \<Rightarrow> string \<Rightarrow> string" where
  "remove_char c s = filter (\<lambda>x. x \<noteq> c) s"

text \<open>\<open>trim_start_matches\<close> drops every leading copy of the pattern.\<close>

function trim_start_matches :: "string \<Rightarrow> string \<Rightarrow> string" where
  "trim_start_matches p s =
     (if p \<noteq> [] \<and> prefix p s then trim_start_matches p (drop (length p) s) else s)"
  by pat_completeness auto
termination
  by (relation "measure (\<lambda>(p, s). length s)") (auto simp: prefix_def)

declare trim_start_matches.simps [simp del]

text \<open>\<open>trim_matches(c)\<close> for a one-character pattern.\<close>

definition trim_char :: "char \<Rightarrow> string \<Rightarrow> string" where
  "trim_char c s = rev (dropWhile (\<lambda>x. x = c) (rev (dropWhile (\<lambda>x. x = c) s)))"

text \<open>\<open>&s[n..]\<close> panics when \<open>n\<close> is past the end or inside a character (a UTF-8
  continuation byte has the form \<open>10xxxxxx\<close>).\<close>

definition is_char_boundary :: "string \<Rightarrow> nat \<Rightarrow> bool" where
  "is_char_boundary s n \<longleftrightarrow> n = 0 \<or> n = length s \<or>
     (n < length s \<and> \<not> (128 \<le> (of_char (s ! n) :: nat) \<and> (of_char (s ! n) :: nat) < 192))"

definition slice_from :: "nat \<Rightarrow> string \<Rightarrow> string outcome" where
  "slice_from n s = (if is_char_boundary s n then Ret (drop n s) else Panic)"

section \<open>Parsing and printing integers\<close>

definition digit_val :: "nat \<Rightarrow> char \<Rightarrow> nat option" where
  "digit_val b c =
     (let n = of_char c;
          d = (if 48 \<le> n \<and> n \<le> 57 then n - 48
               else if 97 \<le> n \<and> n \<le> 122 then n - 87
               else if 65 \<le> n \<and> n \<le> 90 then n - 55
               else b)
      in if d < b then Some d else None)"

fun digits_val :: "nat \<Rightarrow> nat \<Rightarrow> string \<Rightarrow> nat option" where
  "digits_val b acc [] = Some acc"
| "digits_val b acc (c # cs) =
     (case digit_val b c of None \<Rightarrow> None | Some d \<Rightarrow> digits_val b (acc * b + d) cs)"

text \<open>\<open>from_str_radix\<close> on an unsigned type: one leading \<open>+\<close> is allowed before at least one
  digit, and a value that does not fit is an error.\<close>

definition from_str_radix :: "nat \<Rightarrow> string \<Rightarrow> 'a::len word option" where
  "from_str_radix b s =
     (case s of
        [] \<Rightarrow> None
      | c # cs \<Rightarrow>
          (case digits_val b 0 (if c = CHR ''+'' \<and> cs \<noteq> [] then cs else s) of
             None \<Rightarrow> None
           | Some n \<Rightarrow> if n < 2 ^ LENGTH('a) then Some (of_nat n) else None))"

definition parse_uint :: "string \<Rightarrow> 'a::len word option" where
  "parse_uint s = from_str_radix 10 s"

definition digit_char :: "nat \<Rightarrow> char" where
  "digit_char d = char_of (if d < 10 then 48 + d else 87 + d)"

function to_digits :: "nat \<Rightarrow> nat \<Rightarrow> string" where
  "to_digits b n =
     (if b < 2 \<or> n < b then [digit_char n] else to_digits b (n div b) @ [digit_char (n mod b)])"
  by pat_completeness auto
termination
  by (relation "measure snd") (auto intro: div_less_dividend)

declare to_digits.simps [simp del]

text \<open>\<open>format!("{}", n)\<close> and \<open>format!("{:x}", n)\<close>.\<close>

definition show_dec :: "'a::len word \<Rightarrow> string" where
  "show_dec n = to_digits 10 (unat n)"

definition show_hex :: "'a::len word \<Rightarrow> string" where
  "show_hex n = to_digits 16 (unat n)"

lemma digit_val_digit_char: "d < b \<Longrightarrow> b \<le> 36 \<Longrightarrow> digit_val b (digit_char d) = Some d"
  by (auto simp: digit_val_def digit_char_def Let_def)

lemma digits_val_append:
  "digits_val b acc (xs @ ys) =
     (case digits_val b acc xs of None \<Rightarrow> None | Some n \<Rightarrow> digits_val b n ys)"
  by (induction xs arbitrary: acc) (auto split: option.splits)

lemma digits_val_to_digits:
  assumes "2 \<le> b" "b \<le> 36"
  shows "digits_val b 0 (to_digits b n) = Some n"
proof (induction n rule: less_induct)
  case (less n)
  show ?case
  proof (cases "n < b")
    case True
    with assms show ?thesis by (simp add: to_digits.simps [of b n] digit_val_digit_char)
  next
    case False
    with assms have "n div b < n" by (simp add: div_less_dividend)
    from less [OF this] False assms show ?thesis
      by (simp add: to_digits.simps [of b n] digits_val_append digit_val_digit_char)
  qed
qed

lemma to_digits_nonempty: "to_digits b n \<noteq> []"
  by (subst to_digits.simps) simp

lemma digit_char_alnum:
  "d < 36 \<Longrightarrow> of_char (digit_char d) \<in> {48..57} \<union> {97..122 :: nat}"
  by (auto simp: digit_char_def)

lemma set_to_digits:
  assumes "2 \<le> b" "b \<le> 36"
  shows "set (to_digits b n) \<subseteq> digit_char ` {..<b}"
proof (induction n rule: less_induct)
  case (less n)
  show ?case
  proof (cases "n < b")
    case False
    with assms have "n div b < n" by (simp add: div_less_dividend)
    from less [OF this] False assms show ?thesis by (subst to_digits.simps) auto
  qed (use assms in \<open>subst to_digits.simps, auto\<close>)
qed

lemma to_digits_chars:
  assumes "2 \<le> b" "b \<le> 36" "c \<in> set (to_digits b n)"
  shows "of_char c \<in> {48..57} \<union> {97..122 :: nat}"
proof -
  from assms set_to_digits obtain d where "c = digit_char d" "d < b" by blast
  with assms show ?thesis using digit_char_alnum [of d] by simp
qed

lemma from_str_radix_to_digits:
  assumes "2 \<le> b" "b \<le> 36"
  shows "from_str_radix b (to_digits b (unat n)) = Some (n :: 'a::len word)"
proof -
  obtain c cs where c: "to_digits b (unat n) = c # cs"
    using to_digits_nonempty by (meson neq_Nil_conv)
  with to_digits_chars [OF assms, of c "unat n"] have "c \<noteq> CHR ''+''" by auto
  with c digits_val_to_digits [OF assms, of "unat n"] show ?thesis
    by (simp add: from_str_radix_def)
qed

lemma parse_show_dec: "parse_uint (show_dec n) = Some n"
  by (simp add: parse_uint_def show_dec_def from_str_radix_to_digits)

end
