(* ===== verification/F64.thy ===== *)
theory F64
  imports Complex_Main "HOL-Library.Log_Nat" Prelude
begin

text \<open>
  Rust's \<open>f64\<close>: IEEE-754 binary64 values as rationals with two infinities and \<open>NaN\<close> (the
  sign of zero is not kept, no operation of the program observes it). Every operation is
  the exact one followed by rounding to nearest, ties to even. Only what the sources use
  is here: \<open>as f64\<close>, \<open>+\<close>, \<open>*\<close>, \<open>/\<close>, \<open>iter().sum()\<close>, the saturating casts \<open>as u64\<close> /
  \<open>as u32\<close> / \<open>as usize\<close> and \<open>partial_cmp\<close>.
\<close>

datatype f64 = NaN | PosInf | NegInf | Fin rat

definition pow2 :: "int \<Rightarrow> rat" where
  "pow2 e = (if 0 \<le> e then 2 ^ nat e else 1 / 2 ^ nat (- e))"

text \<open>The exponent of a positive rational: the greatest \<open>e\<close> with \<open>2^e \<le> x\<close>.\<close>

definition exponent :: "rat \<Rightarrow> int" where
  "exponent x =
     (let (n, d) = quotient_of x; k = bitlen n - bitlen d
      in if pow2 k \<le> x then k else k - 1)"

definition round_half_even :: "rat \<Rightarrow> int" where
  "round_half_even x =
     (let k = \<lfloor>x\<rfloor>; r = x - of_int k
      in if r < 1 / 2 then k else if 1 / 2 < r then k + 1 else if even k then k else k + 1)"

text \<open>Rounding: 53 bits of significand, least exponent \<open>-1074\<close>, overflow to infinity.\<close>

definition round_f64 :: "rat \<Rightarrow> f64" where
  "round_f64 x =
     (if x = 0 then Fin 0
      else
        let u = max (exponent \<bar>x\<bar> - 52) (- 1074);
            y = of_int (round_half_even (\<bar>x\<bar> / pow2 u)) * pow2 u
        in if pow2 1024 \<le> y then (if 0 < x then PosInf else NegInf)
           else Fin (if 0 < x then y else - y))"

definition f64_of_nat :: "nat \<Rightarrow> f64" where
  "f64_of_nat n = round_f64 (of_nat n)"

fun f64_add :: "f64 \<Rightarrow> f64 \<Rightarrow> f64" where
  "f64_add NaN y = NaN"
| "f64_add x NaN = NaN"
| "f64_add PosInf NegInf = NaN"
| "f64_add NegInf PosInf = NaN"
| "f64_add PosInf y = PosInf"
| "f64_add NegInf y = NegInf"
| "f64_add (Fin a) PosInf = PosInf"
| "f64_add (Fin a) NegInf = NegInf"
| "f64_add (Fin a) (Fin b) = round_f64 (a + b)"

fun f64_div :: "f64 \<Rightarrow> f64 \<Rightarrow> f64" where
  "f64_div NaN y = NaN"
| "f64_div x NaN = NaN"
| "f64_div (Fin a) (Fin b) =
     (if b \<noteq> 0 then round_f64 (a / b)
      else if a = 0 then NaN else if 0 < a then PosInf else NegInf)"
| "f64_div PosInf (Fin b) = (if b < 0 then NegInf else PosInf)"
| "f64_div NegInf (Fin b) = (if b < 0 then PosInf else NegInf)"
| "f64_div (Fin a) y = Fin 0"
| "f64_div x y = NaN"

fun f64_mul_fin :: "f64 \<Rightarrow> rat \<Rightarrow> f64" where
  \<comment> \<open>product with a finite nonzero positive literal\<close>
  "f64_mul_fin (Fin a) b = round_f64 (a * b)"
| "f64_mul_fin x b = x"

definition f64_sum :: "f64 list \<Rightarrow> f64" where
  "f64_sum xs = foldl f64_add (Fin 0) xs"

text \<open>Float to unsigned casts truncate towards zero and saturate; \<open>NaN\<close> becomes \<open>0\<close>.\<close>

fun f64_to_uint :: "f64 \<Rightarrow> 'a::len word" where
  "f64_to_uint NaN = 0"
| "f64_to_uint PosInf = - 1"
| "f64_to_uint NegInf = 0"
| "f64_to_uint (Fin a) =
     (if a < 1 then 0
      else if 2 ^ LENGTH('a) \<le> \<lfloor>a\<rfloor> then - 1
      else of_int \<lfloor>a\<rfloor>)"

datatype ordering = Less | Equal | Greater

fun f64_partial_cmp :: "f64 \<Rightarrow> f64 \<Rightarrow> ordering option" where
  "f64_partial_cmp NaN y = None"
| "f64_partial_cmp x NaN = None"
| "f64_partial_cmp (Fin a) (Fin b) =
     Some (if a < b then Less else if a = b then Equal else Greater)"
| "f64_partial_cmp PosInf y = Some (if y = PosInf then Equal else Greater)"
| "f64_partial_cmp NegInf y = Some (if y = NegInf then Equal else Less)"
| "f64_partial_cmp (Fin a) y = Some (if y = PosInf then Less else Greater)"

definition f64_le :: "f64 \<Rightarrow> f64 \<Rightarrow> bool" where
  "f64_le x y \<longleftrightarrow> f64_partial_cmp x y \<in> {Some Less, Some Equal}"

lemma f64_le_refl: "x \<noteq> NaN \<Longrightarrow> f64_le x x"
  by (cases x) (auto simp: f64_le_def)

lemma f64_le_trans: "f64_le x y \<Longrightarrow> f64_le y z \<Longrightarrow> f64_le x z"
  by (cases x; cases y; cases z) (auto simp: f64_le_def split: if_splits)

lemma f64_le_total: "x \<noteq> NaN \<Longrightarrow> y \<noteq> NaN \<Longrightarrow> f64_le x y \<or> f64_le y x"
  by (cases x; cases y) (auto simp: f64_le_def)

lemma partial_cmp_NaN: "f64_partial_cmp x y = None \<longleftrightarrow> x = NaN \<or> y = NaN"
  by (cases x; cases y) auto

subsection \<open>Integers up to \<open>2^53\<close> are exact\<close>

lemma pow2_pos: "0 < pow2 e"
  by (simp add: pow2_def)

lemma round_half_even_of_int [simp]: "round_half_even (of_int k) = k"
  by (simp add: round_half_even_def Let_def)

lemma exponent_of_nat: "0 < n \<Longrightarrow> n < 2 ^ k \<Longrightarrow> exponent (of_nat n) < int k"
proof -
  assume n: "0 < n" "n < 2 ^ k"
  have q: "quotient_of (of_nat n) = (int n, 1)"
    using quotient_of_int [of "int n"] by simp
  have b: "bitlen (int n) \<le> int k"
    using n bitlen_le_iff_power [of "int n" k] by simp
  have "bitlen 1 = 1" by code_simp
  with b show ?thesis by (simp add: exponent_def q Let_def)
qed

lemma f64_of_nat_exact:
  assumes "n < 2 ^ 53"
  shows "f64_of_nat n = Fin (of_nat n)"
proof (cases "n = 0")
  case False
  define u where "u = max (exponent (of_nat n) - 52) (- 1074)"
  from False assms exponent_of_nat [of n 53] have u: "u \<le> 0" by (simp add: u_def)
  define m where "m = int n * 2 ^ nat (- u)"
  have eq: "of_nat n / pow2 u = of_int m"
    using u by (cases "u = 0") (auto simp: pow2_def m_def)
  then have "of_int m * pow2 u = of_nat n"
    using pow2_pos [of u] by (simp add: nonzero_divide_eq_eq)
  then have "of_int (round_half_even (of_nat n / pow2 u)) * pow2 u = of_nat n"
    by (simp only: eq round_half_even_of_int)
  moreover have "(of_nat n :: rat) < pow2 1024"
  proof -
    have "(of_nat n :: rat) < of_nat (2 ^ 53)" using assms of_nat_less_iff by blast
    also have "\<dots> \<le> pow2 1024" by (simp add: pow2_def)
    finally show ?thesis .
  qed
  ultimately show ?thesis
    using False by (simp add: f64_of_nat_def round_f64_def u_def Let_def)
qed (simp add: f64_of_nat_def round_f64_def)

end
