(* ===== verification/DbConfig.thy ===== *)
theory DbConfig
  imports F64
begin

text \<open>
  \<open>src/src/config/types/sled_config.rs\<close> and \<open>src/src/config/types/rocksdb_config.rs\<close>: the
  database tables of the configuration file, and how they are applied to the options of the
  two libraries. \<open>sled::Config\<close> is the record of the options the program sets, its default an
  argument. \<open>rocksdb::Options\<close> can only be written, so it is the list of the calls made on its
  default, in order; whether the library accepts a path (\<open>DBPath::new\<close>) is an argument.
\<close>

section \<open>sled\<close>

record sled_config_repr =
  sr_enable :: "bool option"
  sr_path :: "string option"
  sr_cache_capacity_bytes :: "usize option"
  sr_entry_cache_percent :: "8 word option"
  sr_flush_every_ms :: "usize option"
  sr_zstd_compression_level :: "int option"

definition sled_config_repr_default :: sled_config_repr where
  "sled_config_repr_default =
     \<lparr>sr_enable = None, sr_path = None, sr_cache_capacity_bytes = None, sr_entry_cache_percent = None,
      sr_flush_every_ms = None, sr_zstd_compression_level = None\<rparr>"

record sled_config =
  sc_path :: string
  sc_cache_capacity_bytes :: usize
  sc_entry_cache_percent :: "8 word"
  sc_flush_every_ms :: "usize option"
  sc_zstd_compression_level :: int

text \<open>\<open>if let Some(x) = field { opts = opts.set(x) }\<close>.\<close>

definition opt_set :: "('a \<Rightarrow> 'o \<Rightarrow> 'o) \<Rightarrow> 'a option \<Rightarrow> 'o \<Rightarrow> 'o" where
  "opt_set f v opts = (case v of Some x \<Rightarrow> f x opts | None \<Rightarrow> opts)"

definition sled_config_of :: "sled_config \<Rightarrow> sled_config_repr \<Rightarrow> sled_config" where
  "sled_config_of dflt repr =
     (let o1 = opt_set (\<lambda>x opts. opts\<lparr>sc_path := x\<rparr>) (sr_path repr) dflt;
          o2 = opt_set (\<lambda>x opts. opts\<lparr>sc_cache_capacity_bytes := x\<rparr>) (sr_cache_capacity_bytes repr) o1;
          o3 = opt_set (\<lambda>x opts. opts\<lparr>sc_entry_cache_percent := x\<rparr>) (sr_entry_cache_percent repr) o2;
          o4 = opt_set (\<lambda>x opts. opts\<lparr>sc_flush_every_ms := Some x\<rparr>) (sr_flush_every_ms repr) o3
      in opt_set (\<lambda>x opts. opts\<lparr>sc_zstd_compression_level := x\<rparr>) (sr_zstd_compression_level repr) o4)"

lemma sled_config_fields:
  "sc_path (sled_config_of d r) = (case sr_path r of Some x \<Rightarrow> x | None \<Rightarrow> sc_path d)"
  "sc_flush_every_ms (sled_config_of d r) =
     (case sr_flush_every_ms r of Some x \<Rightarrow> Some x | None \<Rightarrow> sc_flush_every_ms d)"
  "sled_config_of d sled_config_repr_default = d"
  by (simp_all add: sled_config_of_def opt_set_def sled_config_repr_default_def Let_def split: option.splits)

section \<open>RocksDB\<close>

record db_path_repr =
  dp_path :: string
  dp_target_size :: u64

datatype compression = NoCompression | Snappy | Zlib | Bz2 | Lz4 | Lz4hc | Zstd

definition into_compression_type :: "string \<Rightarrow> compression outcome" where
  "into_compression_type s =
     (if s = ''none'' then Ret NoCompression
      else if s = ''snappy'' then Ret Snappy
      else if s = ''zlib'' then Ret Zlib
      else if s = ''bz2'' then Ret Bz2
      else if s = ''lz4'' then Ret Lz4
      else if s = ''lz4hc'' then Ret Lz4hc
      else if s = ''zstd'' then Ret Zstd
      else Panic)"

text \<open>\<open>to_lowercase\<close> on ASCII letters; the names compared have no others, and no other letter
  becomes one of theirs but the Kelvin sign, which is not among them.\<close>

definition lower :: "string \<Rightarrow> string" where
  "lower s = map (\<lambda>c. let n = (of_char c :: nat) in if 65 \<le> n \<and> n \<le> 90 then char_of (n + 32) else c) s"

record rocksdb_options_repr =
  rr_enable :: "bool option"
  rr_create_if_missing :: "bool option"
  rr_create_missing_column_families :: "bool option"
  rr_error_if_exists :: "bool option"
  rr_paranoid_checks :: "bool option"
  rr_db_paths :: "(db_path_repr list) option"
  rr_db_log_dir :: "string option"
  rr_wal_dir :: "string option"
  rr_increase_parallelism :: "int option"
  rr_optimize_level_style_compaction :: "usize option"
  rr_optimize_universal_style_compaction :: "usize option"
  rr_optimize_for_point_lookup :: "u64 option"
  rr_max_open_files :: "int option"
  rr_max_file_opening_threads :: "int option"
  rr_max_background_jobs :: "int option"
  rr_write_buffer_size :: "usize option"
  rr_max_write_buffer_number :: "int option"
  rr_min_write_buffer_number :: "int option"
  rr_target_file_size_base :: "u64 option"
  rr_max_bytes_for_level_base :: "u64 option"
  rr_max_bytes_for_level_multiplier :: "f64 option"
  rr_level_zero_file_num_compaction_trigger :: "int option"
  rr_level_zero_slowdown_writes_trigger :: "int option"
  rr_level_zero_stop_writes_trigger :: "int option"
  rr_disable_auto_compactions :: "bool option"
  rr_use_fsync :: "bool option"
  rr_bytes_per_sync :: "u64 option"
  rr_wal_bytes_per_sync :: "u64 option"
  rr_compression_type :: "string option"
  rr_bottommost_compression_type :: "string option"

datatype rocksdb_setting =
    OptCreateIfMissing bool
  | OptCreateMissingColumnFamilies bool
  | OptErrorIfExists bool
  | OptParanoidChecks bool
  | OptDbPaths "(string \<times> u64) list"
  | OptDbLogDir string
  | OptWalDir string
  | OptIncreaseParallelism int
  | OptOptimizeLevelStyleCompaction usize
  | OptOptimizeUniversalStyleCompaction usize
  | OptOptimizeForPointLookup u64
  | OptMaxOpenFiles int
  | OptMaxFileOpeningThreads int
  | OptMaxBackgroundJobs int
  | OptWriteBufferSize usize
  | OptMaxWriteBufferNumber int
  | OptMinWriteBufferNumber int
  | OptTargetFileSizeBase u64
  | OptMaxBytesForLevelBase u64
  | OptMaxBytesForLevelMultiplier f64
  | OptLevelZeroFileNumCompactionTrigger int
  | OptLevelZeroSlowdownWritesTrigger int
  | OptLevelZeroStopWritesTrigger int
  | OptDisableAutoCompactions bool
  | OptUseFsync bool
  | OptBytesPerSync u64
  | OptWalBytesPerSync u64
  | OptCompressionType compression
  | OptBottommostCompressionType compression

text \<open>One optional call, and the calls in order; the first panic ends the conversion.\<close>

definition setting :: "('a \<Rightarrow> rocksdb_setting) \<Rightarrow> 'a option \<Rightarrow> rocksdb_setting list" where
  "setting f v = (case v of Some x \<Rightarrow> [f x] | None \<Rightarrow> [])"

definition set_compression :: "(compression \<Rightarrow> rocksdb_setting) \<Rightarrow> string option \<Rightarrow> rocksdb_setting list outcome" where
  "set_compression f v =
     (case v of
        None \<Rightarrow> Ret []
      | Some s \<Rightarrow> obind (into_compression_type (lower s)) (\<lambda>c. Ret [f c]))"

definition set_db_paths :: "(string \<Rightarrow> u64 \<Rightarrow> bool) \<Rightarrow> db_path_repr list option \<Rightarrow> rocksdb_setting list outcome" where
  "set_db_paths E v =
     (case v of
        None \<Rightarrow> Ret []
      | Some ps \<Rightarrow>
          (if list_all (\<lambda>p. E (dp_path p) (dp_target_size p)) ps
           then Ret [OptDbPaths (map (\<lambda>p. (dp_path p, dp_target_size p)) ps)]
           else Panic))"

fun all_settings :: "rocksdb_setting list outcome list \<Rightarrow> rocksdb_setting list outcome" where
  "all_settings [] = Ret []"
| "all_settings (x # xs) = obind x (\<lambda>a. obind (all_settings xs) (\<lambda>b. Ret (a @ b)))"

text \<open>\<open>E path size\<close> tells whether \<open>DBPath::new\<close> accepts a path.\<close>

definition rocksdb_options_of :: "(string \<Rightarrow> u64 \<Rightarrow> bool) \<Rightarrow> rocksdb_options_repr \<Rightarrow> rocksdb_setting list outcome" where
  "rocksdb_options_of E repr =
     all_settings
       [Ret (setting OptCreateIfMissing (rr_create_if_missing repr)),
        Ret (setting OptCreateMissingColumnFamilies (rr_create_missing_column_families repr)),
        Ret (setting OptErrorIfExists (rr_error_if_exists repr)),
        Ret (setting OptParanoidChecks (rr_paranoid_checks repr)),
        set_db_paths E (rr_db_paths repr),
        Ret (setting OptDbLogDir (rr_db_log_dir repr)),
        Ret (setting OptWalDir (rr_wal_dir repr)),
        Ret (setting OptIncreaseParallelism (rr_increase_parallelism repr)),
        Ret (setting OptOptimizeLevelStyleCompaction (rr_optimize_level_style_compaction repr)),
        Ret (setting OptOptimizeUniversalStyleCompaction (rr_optimize_universal_style_compaction repr)),
        Ret (setting OptOptimizeForPointLookup (rr_optimize_for_point_lookup repr)),
        Ret (setting OptMaxOpenFiles (rr_max_open_files repr)),
        Ret (setting OptMaxFileOpeningThreads (rr_max_file_opening_threads repr)),
        Ret (setting OptMaxBackgroundJobs (rr_max_background_jobs repr)),
        Ret (setting OptWriteBufferSize (rr_write_buffer_size repr)),
        Ret (setting OptMaxWriteBufferNumber (rr_max_write_buffer_number repr)),
        Ret (setting OptMinWriteBufferNumber (rr_min_write_buffer_number repr)),
        Ret (setting OptTargetFileSizeBase (rr_target_file_size_base repr)),
        Ret (setting OptMaxBytesForLevelBase (rr_max_bytes_for_level_base repr)),
        Ret (setting OptMaxBytesForLevelMultiplier (rr_max_bytes_for_level_multiplier repr)),
        Ret (setting OptLevelZeroFileNumCompactionTrigger (rr_level_zero_file_num_compaction_trigger repr)),
        Ret (setting OptLevelZeroSlowdownWritesTrigger (rr_level_zero_slowdown_writes_trigger repr)),
        Ret (setting OptLevelZeroStopWritesTrigger (rr_level_zero_stop_writes_trigger repr)),
        Ret (setting OptDisableAutoCompactions (rr_disable_auto_compactions repr)),
        Ret (setting OptUseFsync (rr_use_fsync repr)),
        Ret (setting OptBytesPerSync (rr_bytes_per_sync repr)),
        Ret (setting OptWalBytesPerSync (rr_wal_bytes_per_sync repr)),
        set_compression OptCompressionType (rr_compression_type repr),
        set_compression OptBottommostCompressionType (rr_bottommost_compression_type repr)]"

lemma all_settings_Panic: "all_settings xs = Panic \<longleftrightarrow> Panic \<in> set xs"
proof (induction xs)
  case (Cons x xs)
  then show ?case by (cases x; cases "all_settings xs") auto
qed simp

end
