(* ===== verification/FloatText.thy ===== *)
theory FloatText
  imports DbConfig
begin

text \<open>
  Rust's decimal text of an \<open>f64\<close>: \<open>str::parse::<f64>\<close> and the plain \<open>Display\<close>, which prints the
  shortest decimal that is read back as the same number and never uses an exponent. The
  admin methods read a moving average length from a request and print it in the answer.
\<close>

section \<open>Reading\<close>

definition is_dec_digit :: "char \<Rightarrow> bool" where
  "is_dec_digit c \<longleftrightarrow> 48 \<le> (of_char c :: nat) \<and> (of_char c :: nat) \<le> 57"

definition dec_value :: "string \<Rightarrow> nat" where
  "dec_value ds = foldl (\<lambda>a c. 10 * a + (of_char c - 48)) 0 ds"

definition pow10 :: "int \<Rightarrow> rat" where
  "pow10 e = (if 0 \<le> e then 10 ^ nat e else 1 / 10 ^ nat (- e))"

text \<open>An optional sign.\<close>

fun split_sign :: "string \<Rightarrow> bool \<times> string" where
  "split_sign [] = (False, [])"
| "split_sign (c # cs) =
     (if c = CHR ''-'' then (True, cs) else if c = CHR ''+'' then (False, cs) else (False, c # cs))"

text \<open>The exponent, which needs a digit.\<close>

definition parse_exponent :: "string \<Rightarrow> int option" where
  "parse_exponent s =
     (case s of
        [] \<Rightarrow> Some 0
      | c # cs \<Rightarrow>
          (if c \<noteq> CHR ''e'' \<and> c \<noteq> CHR ''E'' then None
           else case split_sign cs of (neg, ds) \<Rightarrow>
             (if ds \<noteq> [] \<and> list_all is_dec_digit ds
              then Some (if neg then - int (dec_value ds) else int (dec_value ds))
              else None)))"

text \<open>Digits, a point and digits, at least one of them; then the exponent.\<close>

definition parse_decimal :: "string \<Rightarrow> rat option" where
  "parse_decimal s =
     (let ints = takeWhile is_dec_digit s; r1 = dropWhile is_dec_digit s;
          (fracs, r2) =
            (case r1 of
               [] \<Rightarrow> ([], [])
             | c # cs \<Rightarrow>
                 (if c = CHR ''.'' then (takeWhile is_dec_digit cs, dropWhile is_dec_digit cs) else ([], r1)))
      in if ints @ fracs = [] then None
         else map_option (\<lambda>e. of_nat (dec_value (ints @ fracs)) * pow10 (e - int (length fracs)))
                (parse_exponent r2))"

definition parse_f64 :: "string \<Rightarrow> f64 option" where
  "parse_f64 s =
     (case split_sign s of (neg, t) \<Rightarrow>
        (if lower t = ''inf'' \<or> lower t = ''infinity'' then Some (if neg then NegInf else PosInf)
         else if lower t = ''nan'' then Some NaN
         else map_option (\<lambda>q. round_f64 (if neg then - q else q)) (parse_decimal t)))"

section \<open>Printing\<close>

text \<open>The greatest \<open>e\<close> with \<open>10^e \<le> x\<close>, for a positive finite number (none is below \<open>10^-324\<close>).\<close>

definition dec_exponent :: "rat \<Rightarrow> int" where
  "dec_exponent x =
     (if 1 \<le> x then int (length (to_digits 10 (nat \<lfloor>x\<rfloor>))) - 1
      else (case find (\<lambda>m. 1 \<le> x * 10 ^ m) [1..<325] of Some m \<Rightarrow> - int m | None \<Rightarrow> - 324))"

text \<open>The decimal with \<open>n\<close> significant digits that is read back as \<open>x\<close> and is nearest to it.\<close>

definition decimal_with :: "rat \<Rightarrow> nat \<Rightarrow> (nat \<times> int) option" where
  "decimal_with x n =
     (let p = dec_exponent x - int n + 1; y = x / pow10 p; lo = nat \<lfloor>y\<rfloor>;
          good = (\<lambda>q. round_f64 (of_nat q * pow10 p) = Fin x)
      in if good lo \<and> (\<not> good (lo + 1) \<or> y - of_nat lo < of_nat (lo + 1) - y) then Some (lo, p)
         else if good (lo + 1) then Some (lo + 1, p) else None)"

text \<open>Seventeen digits always suffice for a number of 53 bits.\<close>

fun first_Some :: "('a \<Rightarrow> 'b option) \<Rightarrow> 'a list \<Rightarrow> 'b option" where
  "first_Some f [] = None"
| "first_Some f (x # xs) = (case f x of Some y \<Rightarrow> Some y | None \<Rightarrow> first_Some f xs)"

definition shortest_decimal :: "rat \<Rightarrow> (nat \<times> int) option" where
  "shortest_decimal x = first_Some (decimal_with x) [1..<18]"

definition show_decimal :: "nat \<Rightarrow> int \<Rightarrow> string" where
  "show_decimal q p =
     (if 0 \<le> p then to_digits 10 q @ replicate (nat p) (CHR ''0'')
      else
        let k = nat (- p); frac = to_digits 10 (q mod 10 ^ k)
        in to_digits 10 (q div 10 ^ k) @ ''.'' @ replicate (k - length frac) (CHR ''0'') @ frac)"

fun show_f64 :: "f64 \<Rightarrow> string" where
  "show_f64 NaN = ''NaN''"
| "show_f64 PosInf = ''inf''"
| "show_f64 NegInf = ''-inf''"
| "show_f64 (Fin x) =
     (if x = 0 then ''0''
      else
        (if x < 0 then ''-'' else []) @
        (case shortest_decimal \<bar>x\<bar> of
           Some (q, p) \<Rightarrow> show_decimal q p
         | None \<Rightarrow> []))"

end
