(* ===== verification/Json.thy ===== *)
theory Json
  imports F64
begin

text \<open>
  The JSON values the program handles. \<open>serde_json::Value\<close> is an enumeration of six cases; an
  object is a map kept in key order. The accessors have their documented meaning: \<open>v["k"]\<close>
  and \<open>v[i]\<close> read \<open>Null\<close> where nothing is there, assignment through \<open>v["k"]\<close> inserts into
  an object, turns \<open>Null\<close> into an object and panics on every other value, assignment through
  \<open>v[i]\<close> panics outside an array. The text formats (\<open>to_string\<close>, \<open>simd_json::to_vec\<close>, \<open>simd_json::from_str\<close>,
  \<open>serde_json::from_str\<close>) are not part of the repository: they are the fields of the record
  \<open>serde\<close>, an argument of every operation that prints or parses; a parser that fails gives
  the text of its error.
\<close>

datatype json_number = PosInt u64 | NegInt int | Float f64

datatype json =
    JNull
  | JBool bool
  | JNum json_number
  | JStr string
  | JArr "json list"
  | JObj "(string \<times> json) list"

record serde =
  to_text :: "json \<Rightarrow> string"
  simd_to_vec :: "json \<Rightarrow> string"
  simd_parse :: "string \<Rightarrow> string + json"
  serde_parse :: "string \<Rightarrow> string + json"

section \<open>Objects\<close>

fun obj_put :: "string \<Rightarrow> json \<Rightarrow> (string \<times> json) list \<Rightarrow> (string \<times> json) list" where
  "obj_put k v [] = [(k, v)]"
| "obj_put k v ((k', v') # kvs) =
     (if k = k' then (k, v) # kvs
      else if k < k' then (k, v) # (k', v') # kvs
      else (k', v') # obj_put k v kvs)"

definition obj_of :: "(string \<times> json) list \<Rightarrow> json" where
  \<comment> \<open>the value of a \<open>json!({ .. })\<close> literal: later entries win\<close>
  "obj_of kvs = JObj (foldl (\<lambda>m (k, v). obj_put k v m) [] kvs)"

lemma map_of_obj_put: "map_of (obj_put k v m) = (map_of m)(k \<mapsto> v)"
  by (induction m) (auto simp: fun_upd_twist)

lemma obj_put_keys: "fst ` set (obj_put k v m) = insert k (fst ` set m)"
  using map_of_obj_put [of k v m] by (metis dom_fun_upd dom_map_of_conv_image_fst option.distinct(1))

lemma obj_put_sorted:
  "sorted_wrt (<) (map fst m) \<Longrightarrow> sorted_wrt (<) (map fst (obj_put k v m))"
proof (induction m)
  case (Cons kv m)
  obtain k' v' where kv: "kv = (k', v')" by (cases kv)
  show ?case
  proof (cases "k' < k")
    case True
    with Cons obj_put_keys [of k v m] show ?thesis
      by (auto simp: kv dest: less_not_sym)
  next
    case False
    then consider "k = k'" | "k < k'" by (meson linorder_neqE)
    then show ?thesis using Cons.prems by cases (auto simp: kv)
  qed
qed simp

lemma obj_put_same:
  "sorted_wrt (<) (map fst m) \<Longrightarrow> map_of m k = Some v \<Longrightarrow> obj_put k v m = m"
proof (induction m)
  case (Cons kv m)
  obtain k' v' where kv: "kv = (k', v')" by (cases kv)
  show ?case
  proof (cases "k = k'")
    case False
    with Cons.prems kv have m: "map_of m k = Some v" by simp
    then have "k \<in> fst ` set m" using map_of_SomeD by force
    with Cons.prems(1) kv have "k' < k" by auto
    with False m Cons kv show ?thesis by (auto dest: less_not_sym)
  qed (use Cons.prems kv in auto)
qed simp

section \<open>Accessors\<close>

fun json_get :: "string \<Rightarrow> json \<Rightarrow> json option" where
  "json_get k (JObj m) = map_of m k"
| "json_get k _ = None"

definition jindex :: "json \<Rightarrow> string \<Rightarrow> json" where
  "jindex v k = (case json_get k v of Some x \<Rightarrow> x | None \<Rightarrow> JNull)"

fun jnth :: "json \<Rightarrow> nat \<Rightarrow> json" where
  "jnth (JArr xs) i = (if i < length xs then xs ! i else JNull)"
| "jnth _ i = JNull"

fun jset :: "string \<Rightarrow> json \<Rightarrow> json \<Rightarrow> json outcome" where
  "jset k x (JObj m) = Ret (JObj (obj_put k x m))"
| "jset k x JNull = Ret (JObj [(k, x)])"
| "jset k x _ = Panic"

fun jset_nth :: "nat \<Rightarrow> json \<Rightarrow> json \<Rightarrow> json outcome" where
  "jset_nth i x (JArr xs) = (if i < length xs then Ret (JArr (xs[i := x])) else Panic)"
| "jset_nth i x _ = Panic"

text \<open>\<open>v[k].take()\<close>: the old value, with \<open>Null\<close> left in its place.\<close>

definition jtake :: "string \<Rightarrow> json \<Rightarrow> (json \<times> json) outcome" where
  "jtake k v = obind (jset k JNull v) (\<lambda>v'. Ret (jindex v k, v'))"

fun as_str :: "json \<Rightarrow> string option" where
  "as_str (JStr s) = Some s"
| "as_str _ = None"

fun as_array :: "json \<Rightarrow> json list option" where
  "as_array (JArr xs) = Some xs"
| "as_array _ = None"

fun as_bool :: "json \<Rightarrow> bool option" where
  "as_bool (JBool b) = Some b"
| "as_bool _ = None"

fun as_u64 :: "json \<Rightarrow> u64 option" where
  "as_u64 (JNum (PosInt n)) = Some n"
| "as_u64 _ = None"

fun is_object :: "json \<Rightarrow> bool" where
  "is_object (JObj m) = True"
| "is_object _ = False"

fun is_null :: "json \<Rightarrow> bool" where
  "is_null JNull = True"
| "is_null _ = False"

lemma as_str_Some: "as_str v = Some s \<longleftrightarrow> v = JStr s"
  by (cases v) auto

lemma as_array_Some: "as_array v = Some xs \<longleftrightarrow> v = JArr xs"
  by (cases v) auto

lemma as_u64_Some: "as_u64 v = Some n \<longleftrightarrow> v = JNum (PosInt n)"
  by (cases v rule: as_u64.cases) auto

lemma is_objectE: "is_object v \<Longrightarrow> (\<And>m. v = JObj m \<Longrightarrow> P) \<Longrightarrow> P"
  by (cases v) auto

lemma jset_object: "is_object v \<Longrightarrow> \<exists>w. jset k x v = Ret w \<and> is_object w"
  by (cases v) auto

lemma jindex_jset: "jset k x v = Ret w \<Longrightarrow> jindex w k' = (if k' = k then x else jindex v k')"
  by (cases v) (auto simp: jindex_def map_of_obj_put)

lemma jset_nth_jnth: "jset_nth i x v = Ret w \<Longrightarrow> jnth w j = (if j = i then x else jnth v j)"
  by (cases v) (auto split: if_splits)

text \<open>Two assignments to one key: the last one counts.\<close>

lemma obj_put_twice: "obj_put k y (obj_put k x m) = obj_put k y m"
  by (induction m) auto

lemma jset_twice: "obind (jset k x v) (jset k y) = jset k y v"
  by (cases v) (auto simp: obj_put_twice)

section \<open>A sample of the text format\<close>

text \<open>A compact printer without escapes, which the concrete examples of the development use
  for \<open>to_text\<close>, and the law about printing that the properties rely on: a string of plain
  characters is printed between quotes.\<close>

fun print_json :: "json \<Rightarrow> string" where
  "print_json JNull = ''null''"
| "print_json (JBool b) = (if b then ''true'' else ''false'')"
| "print_json (JNum (PosInt n)) = show_dec n"
| "print_json (JNum (NegInt i)) = CHR ''-'' # to_digits 10 (nat (- i))"
| "print_json (JNum (Float x)) = ''0.0''"
| "print_json (JStr s) = CHR 0x22 # s @ [CHR 0x22]"
| "print_json (JArr xs) = CHR ''['' # concat (map (\<lambda>x. print_json x @ '','') xs) @ '']''"
| "print_json (JObj kvs) =
     CHR ''{'' # concat (map (\<lambda>(k, v). CHR 0x22 # k @ CHR 0x22 # '':'' @ print_json v @ '','') kvs) @ ''}''"

definition plain_char :: "char \<Rightarrow> bool" where
  "plain_char c \<longleftrightarrow> of_char c \<in> {48..57} \<union> {65..90} \<union> {97..122 :: nat}"

definition quotes_plain :: "serde \<Rightarrow> bool" where
  "quotes_plain S \<longleftrightarrow>
     (\<forall>s. list_all plain_char s \<longrightarrow> to_text S (JStr s) = CHR 0x22 # s @ [CHR 0x22])"

definition sample_serde :: "(string \<times> json) list \<Rightarrow> serde" where
  "sample_serde table =
     \<lparr>to_text = print_json, simd_to_vec = print_json,
      simd_parse = (\<lambda>s. case map_of table s of Some j \<Rightarrow> Inr j | None \<Rightarrow> Inl ''syntax error''),
      serde_parse = (\<lambda>s. case map_of table s of Some j \<Rightarrow> Inr j | None \<Rightarrow> Inl ''syntax error'')\<rparr>"

lemma sample_quotes [simp]: "quotes_plain (sample_serde table)"
  by (simp add: quotes_plain_def sample_serde_def)

lemma plain_no_quote: "list_all plain_char s \<Longrightarrow> remove_char (CHR 0x22) s = s"
  unfolding remove_char_def list_all_iff plain_char_def by (intro filter_True) auto

lemma unquote_plain:
  "quotes_plain S \<Longrightarrow> list_all plain_char s \<Longrightarrow> remove_char (CHR 0x22) (to_text S (JStr s)) = s"
  using plain_no_quote [of s] by (simp add: quotes_plain_def remove_char_def)

lemma plain_to_digits: "2 \<le> b \<Longrightarrow> b \<le> 36 \<Longrightarrow> list_all plain_char (to_digits b n)"
  unfolding list_all_iff plain_char_def using to_digits_chars by blast

end
