(* ===== verification/RpcMethod.thy ===== *)
theory RpcMethod
  imports Json
begin

text \<open>
  \<open>src/src/rpc/method.rs\<close>: the Ethereum RPC methods, the names they have on the wire and the
  index of the parameter that holds the block.
\<close>

datatype eth_rpc_method =
    BlockNumber
  | GetBlockByNumber
  | Syncing
  | GetBalance
  | GetStorageAt
  | GetTransactionCount
  | GetBlockTransactionCountByNumber
  | GetUncleCountByBlockNumber
  | GetCode
  | Call
  | GetTransactionByBlockNumberAndIndex
  | GetUncleByBlockNumberAndIndex
  | Subscribe
  | Unsubscribe
  | Subscription

fun method_str :: "eth_rpc_method \<Rightarrow> string" where
  "method_str BlockNumber = ''eth_blockNumber''"
| "method_str GetBlockByNumber = ''eth_getBlockByNumber''"
| "method_str Syncing = ''eth_syncing''"
| "method_str GetBalance = ''eth_getBalance''"
| "method_str GetStorageAt = ''eth_getStorageAt''"
| "method_str GetTransactionCount = ''eth_getTransactionCount''"
| "method_str GetBlockTransactionCountByNumber = ''eth_getBlockTransactionCountByNumber''"
| "method_str GetUncleCountByBlockNumber = ''eth_getUncleCountByBlockNumber''"
| "method_str GetCode = ''eth_getCode''"
| "method_str Call = ''eth_call''"
| "method_str GetTransactionByBlockNumberAndIndex = ''eth_getTransactionByBlockNumberAndIndex''"
| "method_str GetUncleByBlockNumberAndIndex = ''eth_getUncleByBlockNumberAndIndex''"
| "method_str Subscribe = ''eth_subscribe''"
| "method_str Unsubscribe = ''eth_unsubscribe''"
| "method_str Subscription = ''eth_subscription''"

definition eth_all :: "string list" where
  "eth_all =
     [''eth_blockNumber'', ''eth_getBlockByNumber'', ''eth_syncing'', ''eth_getBalance'',
      ''eth_getStorageAt'', ''eth_getTransactionCount'',
      ''eth_getBlockTransactionCountByNumber'', ''eth_getUncleCountByBlockNumber'',
      ''eth_getCode'', ''eth_call'', ''eth_getTransactionByBlockNumberAndIndex'',
      ''eth_getUncleByBlockNumberAndIndex'', ''eth_subscribe'', ''eth_unsubscribe'',
      ''eth_subscription'']"

text \<open>\<open>TryFrom<Option<&str>>\<close>: the error keeps the rejected value.\<close>

definition method_try_from :: "string option \<Rightarrow> string option + eth_rpc_method" where
  "method_try_from value =
     (if value = Some ''eth_blockNumber'' then Inr BlockNumber
      else if value = Some ''eth_getBlockByNumber'' then Inr GetBlockByNumber
      else if value = Some ''eth_syncing'' then Inr Syncing
      else if value = Some ''eth_getBalance'' then Inr GetBalance
      else if value = Some ''eth_getStorageAt'' then Inr GetStorageAt
      else if value = Some ''eth_getTransactionCount'' then Inr GetTransactionCount
      else if value = Some ''eth_getBlockTransactionCountByNumber''
        then Inr GetBlockTransactionCountByNumber
      else if value = Some ''eth_getUncleCountByBlockNumber'' then Inr GetUncleCountByBlockNumber
      else if value = Some ''eth_getCode'' then Inr GetCode
      else if value = Some ''eth_call'' then Inr Call
      else if value = Some ''eth_getTransactionByBlockNumberAndIndex''
        then Inr GetTransactionByBlockNumberAndIndex
      else if value = Some ''eth_getUncleByBlockNumberAndIndex''
        then Inr GetUncleByBlockNumberAndIndex
      else if value = Some ''eth_subscribe'' then Inr Subscribe
      else if value = Some ''eth_unsubscribe'' then Inr Unsubscribe
      else if value = Some ''eth_subscription'' then Inr Subscription
      else Inl value)"

text \<open>\<open>Deserialize\<close> takes a JSON string and looks it up in the same list of names.\<close>

datatype de_error = NotAString | UnknownVariant string "string list"

definition method_deserialize :: "json \<Rightarrow> de_error + eth_rpc_method" where
  "method_deserialize v =
     (case as_str v of
        None \<Rightarrow> Inl NotAString
      | Some s \<Rightarrow>
          (if s = ''eth_blockNumber'' then Inr BlockNumber
           else if s = ''eth_getBlockByNumber'' then Inr GetBlockByNumber
           else if s = ''eth_syncing'' then Inr Syncing
           else if s = ''eth_getBalance'' then Inr GetBalance
           else if s = ''eth_getStorageAt'' then Inr GetStorageAt
           else if s = ''eth_getTransactionCount'' then Inr GetTransactionCount
           else if s = ''eth_getBlockTransactionCountByNumber''
             then Inr GetBlockTransactionCountByNumber
           else if s = ''eth_getUncleCountByBlockNumber'' then Inr GetUncleCountByBlockNumber
           else if s = ''eth_getCode'' then Inr GetCode
           else if s = ''eth_call'' then Inr Call
           else if s = ''eth_getTransactionByBlockNumberAndIndex''
             then Inr GetTransactionByBlockNumberAndIndex
           else if s = ''eth_getUncleByBlockNumberAndIndex''
             then Inr GetUncleByBlockNumberAndIndex
           else if s = ''eth_subscribe'' then Inr Subscribe
           else if s = ''eth_unsubscribe'' then Inr Unsubscribe
           else if s = ''eth_subscription'' then Inr Subscription
           else Inl (UnknownVariant s eth_all)))"

definition method_serialize :: "eth_rpc_method \<Rightarrow> json" where
  "method_serialize m = JStr (method_str m)"

text \<open>\<open>PartialEq\<close> between a method and a JSON value compares with the name.\<close>

definition json_eq_method :: "json \<Rightarrow> eth_rpc_method \<Rightarrow> bool" where
  "json_eq_method v m \<longleftrightarrow> as_str v = Some (method_str m)"

definition get_position :: "string option \<Rightarrow> nat option" where
  "get_position meth =
     (case method_try_from meth of
        Inr GetBalance \<Rightarrow> Some 1
      | Inr GetTransactionCount \<Rightarrow> Some 1
      | Inr GetCode \<Rightarrow> Some 1
      | Inr Call \<Rightarrow> Some 1
      | Inr GetStorageAt \<Rightarrow> Some 2
      | Inr GetBlockTransactionCountByNumber \<Rightarrow> Some 0
      | Inr GetUncleCountByBlockNumber \<Rightarrow> Some 0
      | Inr GetBlockByNumber \<Rightarrow> Some 0
      | Inr GetTransactionByBlockNumberAndIndex \<Rightarrow> Some 0
      | Inr GetUncleByBlockNumberAndIndex \<Rightarrow> Some 0
      | _ \<Rightarrow> None)"

section \<open>Names and methods\<close>

lemma try_from_str: "method_try_from (Some (method_str m)) = Inr m"
  by (cases m) (simp_all add: method_try_from_def)

lemma str_try_from: "method_try_from v = Inr m \<Longrightarrow> v = Some (method_str m)"
  unfolding method_try_from_def by (auto split: if_splits)

lemma get_position_str:
  "get_position (Some (method_str m)) =
     (case m of GetBalance \<Rightarrow> Some 1 | GetTransactionCount \<Rightarrow> Some 1 | GetCode \<Rightarrow> Some 1
      | Call \<Rightarrow> Some 1 | GetStorageAt \<Rightarrow> Some 2 | GetBlockTransactionCountByNumber \<Rightarrow> Some 0
      | GetUncleCountByBlockNumber \<Rightarrow> Some 0 | GetBlockByNumber \<Rightarrow> Some 0
      | GetTransactionByBlockNumberAndIndex \<Rightarrow> Some 0
      | GetUncleByBlockNumberAndIndex \<Rightarrow> Some 0 | _ \<Rightarrow> None)"
  by (cases m) (simp_all only: get_position_def try_from_str sum.case eth_rpc_method.case)

lemma get_position_Some:
  "get_position v = Some i \<Longrightarrow> \<exists>m. v = Some (method_str m) \<and> i \<le> 2"
proof -
  assume i: "get_position v = Some i"
  then obtain m where m: "method_try_from v = Inr m"
    by (cases "method_try_from v") (simp_all add: get_position_def)
  from i have "i \<le> 2"
    by (auto simp: get_position_def m split: eth_rpc_method.splits)
  with str_try_from [OF m] show ?thesis by blast
qed

lemma deserialize_try_from:
  "method_deserialize v = Inr m \<longleftrightarrow> (\<exists>s. as_str v = Some s \<and> method_try_from (Some s) = Inr m)"
  unfolding method_deserialize_def method_try_from_def
  by (cases "as_str v") simp_all

text \<open>The wire names and the methods are in bijection: a value converts to the method
  \<open>m\<close> exactly when it is the name of \<open>m\<close>, serialising and deserialising give the method
  back, and the list used in error messages holds every name once.\<close>

theorem eth_method_names:
  "(\<forall>v m. method_try_from v = Inr m \<longleftrightarrow> v = Some (method_str m)) \<and>
   (\<forall>m. method_deserialize (method_serialize m) = Inr m) \<and>
   set eth_all = range method_str \<and> distinct eth_all \<and> inj method_str"
proof (intro conjI)
  show "\<forall>v m. method_try_from v = Inr m \<longleftrightarrow> v = Some (method_str m)"
    using try_from_str str_try_from by blast
  show "\<forall>m. method_deserialize (method_serialize m) = Inr m"
    by (simp add: deserialize_try_from method_serialize_def try_from_str)
  show "inj method_str"
    by (metis injI try_from_str sum.inject(2))
  have "x \<in> set eth_all" if "x = method_str m" for x m
    by (cases m) (simp_all add: that eth_all_def)
  moreover have "set eth_all \<subseteq> range method_str"
    unfolding eth_all_def by (auto simp flip: method_str.simps)
  ultimately show "set eth_all = range method_str" by blast
  show "distinct eth_all" by (simp add: eth_all_def)
qed

end
