(* ===== verification/RpcTypes.thy ===== *)
theory RpcTypes
  imports RpcMethod
begin

text \<open>
  \<open>src/src/rpc/types.rs\<close> and \<open>src/src/rpc/error.rs\<close>: an RPC endpoint with its status and
  moving-average latency, the three requests the health check sends and how their answers
  are read. The HTTP client (\<open>reqwest\<close>), the URL parser (\<open>url\<close>) and the JSON text format are
  arguments: \<open>post url body\<close> is what sending \<open>body\<close> to \<open>url\<close> and reading the response text
  gives.
\<close>

record url =
  scheme :: string
  host_str :: "string option"
  port :: "u16 option"
  url_text :: string

record reqwest_error =
  re_text :: string
  re_url :: "string option"

datatype rpc_error =
    InvalidResponse string
  | SendError string
  | ReqwestError reqwest_error

definition rpc_error_from_reqwest :: "reqwest_error \<Rightarrow> rpc_error" where
  "rpc_error_from_reqwest e = ReqwestError (e\<lparr>re_url := None\<rparr>)"

definition rpc_error_from_simd :: "string \<Rightarrow> rpc_error" where
  "rpc_error_from_simd e = InvalidResponse (''Error while trying to parse JSON: '' @ e)"

definition rpc_error_from_send :: "string \<Rightarrow> rpc_error" where
  "rpc_error_from_send e = SendError e"

text \<open>\<open>Display\<close>: a \<open>reqwest\<close> error appends its URL, when it has one.\<close>

fun rpc_error_display :: "rpc_error \<Rightarrow> string" where
  "rpc_error_display (InvalidResponse s) = ''Invalid RPC response: '' @ s"
| "rpc_error_display (SendError s) = ''Failed to send message: '' @ s"
| "rpc_error_display (ReqwestError e) =
     re_text e @ (case re_url e of None \<Rightarrow> [] | Some u \<Rightarrow> '' for url ('' @ u @ '')'')"

section \<open>State of an endpoint\<close>

record status =
  is_erroring :: bool
  last_error :: u64
  latency :: f64
  latency_data :: "f64 list"
  ma_length :: f64

definition status_default :: status where
  "status_default =
     \<lparr>is_erroring = False, last_error = 0, latency = Fin 0, latency_data = [], ma_length = Fin 0\<rparr>"

record rpc =
  rpc_id :: usize
  rpc_name :: string
  rpc_url :: url
  ws_url :: "url option"
  status :: status
  max_consecutive :: u32
  consecutive :: u32
  last_used :: u128
  min_time_delta :: u128

text \<open>What \<open>Debug\<close> shows of an endpoint.\<close>

record rpc_shown =
  shown_id :: usize
  shown_name :: string
  shown_status :: status
  shown_max_consecutive :: u32
  shown_consecutive :: u32
  shown_last_used :: u128
  shown_min_time_delta :: u128

definition rpc_debug :: "rpc \<Rightarrow> rpc_shown" where
  "rpc_debug r =
     \<lparr>shown_id = rpc_id r, shown_name = rpc_name r, shown_status = status r,
      shown_max_consecutive = max_consecutive r, shown_consecutive = consecutive r,
      shown_last_used = last_used r, shown_min_time_delta = min_time_delta r\<rparr>"

definition sanitize_url :: "(string \<Rightarrow> url option) \<Rightarrow> url \<Rightarrow> string option" where
  "sanitize_url parse_url u =
     map_option url_text
       (parse_url
          (scheme u @ ''://'' @ (case host_str u of Some h \<Rightarrow> h | None \<Rightarrow> []) @
           (case port u of Some p \<Rightarrow> '':'' @ show_dec p | None \<Rightarrow> [])))"

text \<open>\<open>NEXT_RPC_ID\<close> is passed along: \<open>fetch_add\<close> gives the old value and wraps.\<close>

definition rpc_default :: "url \<Rightarrow> usize \<Rightarrow> rpc \<times> usize" where
  \<comment> \<open>\<open>merkle\<close> is what \<open>https://eth.merkle.io\<close> parses to\<close>
  "rpc_default merkle next_id =
     (\<lparr>rpc_id = next_id, rpc_name = [], rpc_url = merkle, ws_url = None, status = status_default,
       max_consecutive = 0, consecutive = 0, last_used = 0, min_time_delta = 0\<rparr>,
      next_id + 1)"

definition rpc_new ::
  "(string \<Rightarrow> url option) \<Rightarrow> usize \<Rightarrow> url \<Rightarrow> url option \<Rightarrow> u32 \<Rightarrow> u128 \<Rightarrow> f64 \<Rightarrow> rpc \<times> usize" where
  "rpc_new parse_url next_id u ws mc delta ma =
     (\<lparr>rpc_id = next_id,
       rpc_name = (case sanitize_url parse_url u of
                     Some n \<Rightarrow> n
                   | None \<Rightarrow> scheme u @ ''://<unnamed>''),
       rpc_url = u, ws_url = ws, status = status_default\<lparr>ma_length := ma\<rparr>,
       max_consecutive = mc, consecutive = 0, last_used = 0, min_time_delta = delta\<rparr>,
      next_id + 1)"

section \<open>Requests to an endpoint\<close>

type_synonym poster = "url \<Rightarrow> json \<Rightarrow> reqwest_error + (reqwest_error + string)"

definition send_request :: "poster \<Rightarrow> rpc \<Rightarrow> json \<Rightarrow> rpc_error + string" where
  "send_request post r tx =
     (case post (rpc_url r) tx of
        Inl e \<Rightarrow> Inl (rpc_error_from_reqwest e)
      | Inr (Inl e) \<Rightarrow> Inl (rpc_error_from_reqwest e)
      | Inr (Inr txt) \<Rightarrow> Inr txt)"

datatype int_error = Empty | InvalidDigit | PosOverflow

fun int_error_display :: "int_error \<Rightarrow> string" where
  "int_error_display Empty = ''cannot parse integer from empty string''"
| "int_error_display InvalidDigit = ''invalid digit found in string''"
| "int_error_display PosOverflow = ''number too large to fit in target type''"

fun digits_error :: "nat \<Rightarrow> nat \<Rightarrow> nat \<Rightarrow> string \<Rightarrow> int_error" where
  "digits_error b bnd acc [] = PosOverflow"
| "digits_error b bnd acc (c # cs) =
     (case digit_val b c of
        None \<Rightarrow> InvalidDigit
      | Some d \<Rightarrow> if bnd \<le> acc * b + d then PosOverflow else digits_error b bnd (acc * b + d) cs)"

definition hex_to_decimal :: "string \<Rightarrow> int_error + u64" where
  "hex_to_decimal s =
     (let t = trim_start_matches ''0x'' (remove_char (CHR 0x22) s)
      in case from_str_radix 16 t of
           Some n \<Rightarrow> Inr n
         | None \<Rightarrow>
             Inl (case t of
                    [] \<Rightarrow> Empty
                  | c # cs \<Rightarrow>
                      digits_error 16 (2 ^ 64) 0 (if c = CHR ''+'' \<and> cs \<noteq> [] then cs else t)))"

definition extract_sync :: "serde \<Rightarrow> string \<Rightarrow> rpc_error + bool" where
  "extract_sync S rx =
     (case simd_parse S rx of
        Inl e \<Rightarrow> Inl (rpc_error_from_simd e)
      | Inr j \<Rightarrow>
          (case jindex j ''result'' of
             JBool b \<Rightarrow> Inr b
           | JObj m \<Rightarrow> Inr True
           | _ \<Rightarrow> Inl (InvalidResponse ''Unexpected result format'')))"

definition extract_number :: "serde \<Rightarrow> string \<Rightarrow> (rpc_error + u64) outcome" where
  "extract_number S rx =
     (case simd_parse S rx of
        Inl e \<Rightarrow> Ret (Inl (rpc_error_from_simd e))
      | Inr j \<Rightarrow>
          (case as_str (jindex j ''result'') of
             None \<Rightarrow>
               Ret (Inl (InvalidResponse ''error: Extracting response from request failed!''))
           | Some s \<Rightarrow>
               (case hex_to_decimal s of
                  Inl _ \<Rightarrow> Panic
                | Inr n \<Rightarrow> Ret (Inr n))))"

definition health_request :: "eth_rpc_method \<Rightarrow> json \<Rightarrow> json" where
  "health_request m params =
     obj_of [(''method'', method_serialize m), (''params'', params),
             (''id'', JNum (PosInt 1)), (''jsonrpc'', JStr ''2.0'')]"

definition block_number :: "serde \<Rightarrow> poster \<Rightarrow> rpc \<Rightarrow> (rpc_error + u64) outcome" where
  "block_number S post r =
     (case send_request post r (health_request BlockNumber JNull) of
        Inl e \<Rightarrow> Ret (Inl e)
      | Inr txt \<Rightarrow> extract_number S txt)"

definition rpc_syncing :: "serde \<Rightarrow> poster \<Rightarrow> rpc \<Rightarrow> rpc_error + bool" where
  "rpc_syncing S post r =
     (case send_request post r (health_request Syncing JNull) of
        Inl e \<Rightarrow> Inl e
      | Inr txt \<Rightarrow> extract_sync S txt)"

definition get_finalized_block :: "serde \<Rightarrow> poster \<Rightarrow> rpc \<Rightarrow> rpc_error + u64" where
  "get_finalized_block S post r =
     (case send_request post r
             (health_request GetBlockByNumber (JArr [JStr ''finalized'', JBool False])) of
        Inl e \<Rightarrow> Inl e
      | Inr txt \<Rightarrow>
          (case simd_parse S txt of
             Inl e \<Rightarrow> Inl (rpc_error_from_simd e)
           | Inr j \<Rightarrow>
               (case as_str (jindex (jindex j ''result'') ''number'') of
                  None \<Rightarrow> Inl (InvalidResponse ''error: Can't get finalized block!'')
                | Some s \<Rightarrow>
                    (case hex_to_decimal s of
                       Inl e \<Rightarrow> Inl (InvalidResponse (int_error_display e))
                     | Inr n \<Rightarrow> Inr n))))"

section \<open>Latency\<close>

text \<open>\<open>Vec::remove(0)\<close> panics on the empty vector, so a window shorter than one sample panics
  on the first sample.\<close>

definition update_latency :: "f64 \<Rightarrow> rpc \<Rightarrow> rpc outcome" where
  "update_latency latest r =
     (let st = status r;
          full = unat (f64_to_uint (ma_length st) :: usize) \<le> length (latency_data st)
      in if full \<and> latency_data st = [] then Panic
         else
           let data = (if full then tl (latency_data st) else latency_data st) @ [latest]
           in Ret (r\<lparr>status :=
                st\<lparr>latency_data := data,
                   latency := f64_div (f64_sum data) (f64_of_nat (length data))\<rparr>\<rparr>))"

definition window :: "rpc \<Rightarrow> nat" where
  "window r = unat (f64_to_uint (ma_length (status r)) :: usize)"

lemma update_latency_panic:
  "update_latency x r = Panic \<longleftrightarrow> window r = 0 \<and> latency_data (status r) = []"
  by (auto simp: update_latency_def window_def Let_def)

lemma update_latency_frame:
  "update_latency x r = Ret r' \<Longrightarrow>
     \<exists>d l. r' = r\<lparr>status := (status r)\<lparr>latency_data := d, latency := l\<rparr>\<rparr>"
  by (auto simp: update_latency_def Let_def split: if_splits)

lemma update_latency_ids [pool_simps]:
  "update_latency x r = Ret r' \<Longrightarrow> rpc_id r' = rpc_id r"
  "update_latency x r = Ret r' \<Longrightarrow> is_erroring (status r') = is_erroring (status r)"
  "update_latency x r = Ret r' \<Longrightarrow> window r' = window r"
  by (auto dest!: update_latency_frame simp: window_def)

text \<open>The samples of a run of updates.\<close>

fun update_latencies :: "f64 list \<Rightarrow> rpc \<Rightarrow> rpc outcome" where
  "update_latencies [] r = Ret r"
| "update_latencies (x # xs) r = obind (update_latency x r) (update_latencies xs)"

definition last_n :: "nat \<Rightarrow> 'a list \<Rightarrow> 'a list" where
  "last_n n xs = drop (length xs - n) xs"

lemma last_n_snoc:
  assumes "0 < n"
  shows "(if n \<le> length (last_n n ys) then tl (last_n n ys) else last_n n ys) @ [x] = last_n n (ys @ [x])"
proof (cases "n \<le> length ys")
  case True
  then have "tl (drop (length ys - n) ys) = drop (Suc (length ys) - n) ys"
    by (simp add: Suc_diff_le drop_Suc tl_drop)
  with True assms show ?thesis by (simp add: last_n_def)
qed (use assms in \<open>simp add: last_n_def\<close>)

lemma update_latency_Ret:
  assumes "0 < window r"
  shows "\<exists>r'. update_latency x r = Ret r' \<and>
           latency_data (status r') =
             (if window r \<le> length (latency_data (status r)) then tl (latency_data (status r))
              else latency_data (status r)) @ [x]"
proof -
  from assms have "\<not> (window r \<le> length (latency_data (status r)) \<and> latency_data (status r) = [])"
    by auto
  then show ?thesis unfolding update_latency_def Let_def window_def by simp
qed

lemma update_latency_window:
  assumes "0 < window r" "latency_data (status r) = last_n (window r) ys"
  shows "\<exists>r'. update_latency x r = Ret r' \<and>
              latency_data (status r') = last_n (window r) (ys @ [x])"
  using update_latency_Ret [OF assms(1), of x] unfolding assms(2) last_n_snoc [OF assms(1)] .

lemma update_latencies_window:
  assumes "0 < window r" "latency_data (status r) = last_n (window r) ys"
  shows "\<exists>r'. update_latencies xs r = Ret r' \<and>
              latency_data (status r') = last_n (window r) (ys @ xs)"
  using assms
proof (induction xs arbitrary: r ys)
  case (Cons x xs)
  from update_latency_window [OF Cons.prems, of x] obtain r1 where
    r1: "update_latency x r = Ret r1" "latency_data (status r1) = last_n (window r) (ys @ [x])"
    by blast
  from update_latency_ids(3) [OF r1(1)] Cons.IH [of r1 "ys @ [x]"] Cons.prems r1 show ?case
    by auto
qed auto

text \<open>The latency window: an endpoint whose window holds at least one sample takes any
  sequence of samples without panicking, and then keeps exactly the last ones of the
  sequence, as many as the window holds; before the first sample nothing is stored.\<close>

theorem latency_window:
  assumes "0 < window r" "latency_data (status r) = []"
  shows "\<exists>r'. update_latencies xs r = Ret r' \<and>
              latency_data (status r') = last_n (window r) xs"
  using update_latencies_window [of r "[]" xs] assms by (simp add: last_n_def)

theorem latency_window_witness:
  "\<exists>r'. update_latencies [Fin 1, Fin 2, Fin 3]
          (fst (rpc_new (\<lambda>_. None) 0 \<lparr>scheme = ''http'', host_str = None, port = None, url_text = []\<rparr>
                  None 1 0 (Fin 2))) = Ret r' \<and>
        latency_data (status r') = [Fin 2, Fin 3]"
proof -
  let ?r = "fst (rpc_new (\<lambda>_. None) 0
    \<lparr>scheme = ''http'', host_str = None, port = None, url_text = []\<rparr> None 1 0 (Fin 2))"
  have w: "window ?r = 2" by (simp add: window_def rpc_new_def)
  have "latency_data (status ?r) = []" by (simp add: rpc_new_def status_default_def)
  with latency_window [of ?r "[Fin 1, Fin 2, Fin 3]"] w show ?thesis by (simp add: last_n_def)
qed

section \<open>Hexadecimal numbers\<close>

lemma hex_digit_chars:
  "c \<in> set (show_hex n) \<Longrightarrow> c \<noteq> CHR ''x'' \<and> c \<noteq> CHR 0x22"
proof -
  assume "c \<in> set (show_hex n)"
  then obtain d :: nat where d: "c = digit_char d" "d < 16"
    using set_to_digits [of 16 "unat n"] by (auto simp: show_hex_def)
  then have "of_char c = (if d < 10 then 48 + d else 87 + d)" by (simp add: digit_char_def)
  with d(2) have "of_char c \<noteq> (120 :: nat)" "of_char c \<noteq> (34 :: nat)" by (auto split: if_splits)
  then show ?thesis by auto
qed

lemma trim_hex_prefix: "trim_start_matches ''0x'' (''0x'' @ show_hex n) = show_hex n"
proof -
  have "\<not> prefix ''0x'' (show_hex n)"
  proof
    assume "prefix ''0x'' (show_hex n)"
    then have "CHR ''x'' \<in> set (show_hex n)" by (auto simp: prefix_def)
    then show False using hex_digit_chars by blast
  qed
  then show ?thesis
    by (subst trim_start_matches.simps, subst trim_start_matches.simps) simp
qed

lemma remove_quotes_hex: "remove_char (CHR 0x22) (show_hex n) = show_hex n"
  unfolding remove_char_def using hex_digit_chars by (auto intro!: filter_True)

text \<open>A block number written as the program writes it (\<open>0x\<close> and lower-case hexadecimal
  digits), bare or still inside its quotes, is read back as the same number.\<close>

theorem hex_round_trip:
  fixes n :: u64
  shows "hex_to_decimal (''0x'' @ show_hex n) = Inr n \<and>
         hex_to_decimal (CHR 0x22 # ''0x'' @ show_hex n @ [CHR 0x22]) = Inr n"
proof -
  have "remove_char (CHR 0x22) (''0x'' @ show_hex n) = ''0x'' @ show_hex n"
    "remove_char (CHR 0x22) (CHR 0x22 # ''0x'' @ show_hex n @ [CHR 0x22]) = ''0x'' @ show_hex n"
    using remove_quotes_hex [of n] by (simp_all add: remove_char_def)
  then show ?thesis
    using from_str_radix_to_digits [of 16 n]
    by (simp only: hex_to_decimal_def Let_def trim_hex_prefix) (simp add: show_hex_def)
qed

section \<open>Secrets in URLs\<close>



end
