(* ===== verification/Config.thy ===== *)
theory Config
  imports DbConfig RpcTypes
begin

text \<open>
  \<open>src/src/config/types.rs\<close>, \<open>src/src/config/cli_args.rs\<close> and \<open>src/src/config/error.rs\<close>: how the settings are put together from the command line,
  the configuration file and the defaults, in this order of precedence. A parsed TOML file is
  a value of the datatype \<open>toml\<close>; reading and parsing the file, parsing URLs and socket
  addresses, and the deserialisation of the two database tables are fields of the record
  \<open>config_env\<close>, an argument. The value a file gives is evaluated even where the command line
  overrides it, so an ill-formed value panics all the same.
\<close>

section \<open>The command line\<close>

datatype db_kind = SledDb | RocksDb

record rpc_args =
  arg_url :: "url list"
  arg_ws_url :: "url list"
  arg_max_consecutive :: "u32 list"
  arg_max_per_second :: "u64 list"

record blutgang_args =
  arg_config :: "string option"
  arg_rpc_list :: rpc_args
  arg_address :: "string option"
  arg_port :: "u16 option"
  arg_ma_length :: "f64 option"
  arg_ttl :: "u128 option"
  arg_max_retries :: "u32 option"
  arg_expected_block_time :: "u64 option"
  arg_health_check_ttl :: "u64 option"
  arg_clear_cache :: bool
  arg_no_clear_cache :: bool
  arg_sort_on_startup :: bool
  arg_no_sort_on_startup :: bool
  arg_health_check :: bool
  arg_no_health_check :: bool
  arg_header_check :: bool
  arg_no_header_check :: bool
  arg_supress_rpc_check :: bool
  arg_no_supress_rpc_check :: bool
  arg_db :: "db_kind option"
  arg_admin :: bool
  arg_no_admin :: bool
  arg_admin_address :: "string option"
  arg_admin_port :: "u16 option"
  arg_admin_readonly :: bool
  arg_no_admin_readonly :: bool
  arg_admin_jwt :: bool
  arg_no_admin_jwt :: bool
  arg_admin_key :: "string option"

text \<open>\<open>RpcList::into_rpcs\<close>: the queries per second become a distance in microseconds.\<close>

definition min_delta :: "u64 \<Rightarrow> u64" where
  "min_delta per_second = (if per_second \<noteq> 0 then 1000000 div per_second else per_second)"

definition list_get :: "nat \<Rightarrow> 'a list \<Rightarrow> 'a option" where
  "list_get i xs = (if i < length xs then Some (xs ! i) else None)"

definition or_default :: "'a \<Rightarrow> 'a option \<Rightarrow> 'a" where
  "or_default d x = (case x of Some y \<Rightarrow> y | None \<Rightarrow> d)"

fun into_rpcs_from ::
  "(string \<Rightarrow> url option) \<Rightarrow> f64 \<Rightarrow> rpc_args \<Rightarrow> nat \<Rightarrow> url list \<Rightarrow> usize \<Rightarrow> rpc list \<times> usize" where
  "into_rpcs_from parse_url ma a i [] next_id = ([], next_id)"
| "into_rpcs_from parse_url ma a i (u # us) next_id =
     (case rpc_new parse_url next_id u (list_get i (arg_ws_url a))
             (or_default 150 (list_get i (arg_max_consecutive a)))
             (ucast (min_delta (or_default 200 (list_get i (arg_max_per_second a))))) ma of
        (r, next1) \<Rightarrow>
          (case into_rpcs_from parse_url ma a (Suc i) us next1 of (rs, next2) \<Rightarrow> (r # rs, next2)))"

definition into_rpcs :: "(string \<Rightarrow> url option) \<Rightarrow> f64 \<Rightarrow> rpc_args \<Rightarrow> usize \<Rightarrow> rpc list \<times> usize" where
  "into_rpcs parse_url ma a next_id = into_rpcs_from parse_url ma a 0 (arg_url a) next_id"

section \<open>The file\<close>

datatype toml =
    TStr string
  | TInt int
  | TFloat f64
  | TBool bool
  | TTable "(string \<times> toml) list"
  | TArr "toml list"
  | TDate string

fun toml_get :: "string \<Rightarrow> toml \<Rightarrow> toml option" where
  "toml_get k (TTable t) = map_of t k"
| "toml_get k _ = None"

fun toml_table :: "toml \<Rightarrow> (string \<times> toml) list option" where
  "toml_table (TTable t) = Some t"
| "toml_table _ = None"

fun toml_str :: "toml \<Rightarrow> string option" where
  "toml_str (TStr s) = Some s"
| "toml_str _ = None"

fun toml_bool :: "toml \<Rightarrow> bool option" where
  "toml_bool (TBool b) = Some b"
| "toml_bool _ = None"

fun toml_float :: "toml \<Rightarrow> f64 option" where
  "toml_float (TFloat x) = Some x"
| "toml_float _ = None"

fun toml_integer :: "toml \<Rightarrow> int option" where
  "toml_integer (TInt i) = Some i"
| "toml_integer _ = None"

fun toml_array :: "toml \<Rightarrow> toml list option" where
  "toml_array (TArr xs) = Some xs"
| "toml_array _ = None"

text \<open>A key of a table that may be missing.\<close>

definition key_in :: "string \<Rightarrow> (string \<times> toml) list option \<Rightarrow> toml option" where
  "key_in k t = Option.bind t (\<lambda>t. map_of t k)"

text \<open>\<open>as_integer().map(|i| i.try_into().expect(..))\<close>.\<close>

definition uint_of :: "toml option \<Rightarrow> 'a::len word option outcome" where
  "uint_of v =
     (case Option.bind v toml_integer of
        None \<Rightarrow> Ret None
      | Some i \<Rightarrow> (if 0 \<le> i \<and> i < 2 ^ LENGTH('a) then Ret (Some (of_int i)) else Panic))"

text \<open>\<open>cli.or(file)\<close>.\<close>

fun or_else :: "'a option \<Rightarrow> 'a option \<Rightarrow> 'a option" where
  "or_else (Some x) file = Some x"
| "or_else None file = file"

text \<open>The pattern of the boolean options: \<open>--x\<close>, \<open>--no-x\<close>, the key of the file, the default.\<close>

definition flag :: "bool \<Rightarrow> bool \<Rightarrow> toml option \<Rightarrow> bool \<Rightarrow> bool" where
  "flag yes no file dflt =
     (if yes then True else if no then False
      else or_default dflt (Option.bind file toml_bool))"

text \<open>One entry of \<open>[[rpc]]\<close>; the flag tells whether it has a websocket address.\<close>

definition file_rpc ::
  "(string \<Rightarrow> url option) \<Rightarrow> f64 \<Rightarrow> toml \<Rightarrow> usize \<Rightarrow> ((rpc \<times> usize) \<times> bool) outcome" where
  "file_rpc parse_url ma v next_id =
     (case Option.bind (Option.bind (toml_get ''url'' v) toml_str) parse_url of
        None \<Rightarrow> Panic
      | Some u \<Rightarrow>
          obind (case Option.bind (toml_get ''ws_url'' v) toml_str of
                   None \<Rightarrow> Ret None
                 | Some w \<Rightarrow> (case parse_url w of None \<Rightarrow> Panic | Some w' \<Rightarrow> Ret (Some w')))
            (\<lambda>ws. obind (uint_of (toml_get ''max_consecutive'' v))
              (\<lambda>mc. obind (uint_of (toml_get ''max_per_second'' v))
                (\<lambda>mps. case (mc, mps) of
                   (Some c, Some p) \<Rightarrow>
                     Ret (rpc_new parse_url next_id u ws c (ucast (min_delta p)) ma, ws \<noteq> None)
                 | _ \<Rightarrow> Panic))))"

fun file_rpcs ::
  "(string \<Rightarrow> url option) \<Rightarrow> f64 \<Rightarrow> toml list \<Rightarrow> usize \<Rightarrow> (rpc list \<times> bool) outcome" where
  "file_rpcs parse_url ma [] next_id = Ret ([], True)"
| "file_rpcs parse_url ma (v # vs) next_id =
     obind (file_rpc parse_url ma v next_id)
       (\<lambda>((r, next1), has_ws). obind (file_rpcs parse_url ma vs next1)
          (\<lambda>(rs, all_ws). Ret (r # rs, has_ws \<and> all_ws)))"

section \<open>The settings\<close>

record admin_settings =
  admin_enabled :: bool
  admin_address :: string
  admin_readonly :: bool
  admin_jwt :: bool
  admin_key :: string

datatype cache_settings = SledSettings sled_config | RocksDbSettings "rocksdb_setting list"

record settings =
  set_rpc_list :: "rpc list"
  set_sort_on_startup :: bool
  set_ma_length :: f64
  set_poverty_list :: "rpc list"
  set_is_ws :: bool
  set_do_clear :: bool
  set_address :: string
  set_health_check :: bool
  set_header_check :: bool
  set_ttl :: u128
  set_expected_block_time :: u64
  set_supress_rpc_check :: bool
  set_max_retries :: u32
  set_health_check_ttl :: u64
  set_cache :: cache_settings
  set_admin :: admin_settings

definition admin_settings_default :: admin_settings where
  "admin_settings_default =
     \<lparr>admin_enabled = False, admin_address = ''127.0.0.1:3001'', admin_readonly = False, admin_jwt = False,
      admin_key = []\<rparr>"

text \<open>What \<open>Debug\<close> shows of the admin settings.\<close>

definition admin_settings_shown :: "admin_settings \<Rightarrow> bool \<times> string \<times> bool" where
  "admin_settings_shown a = (admin_enabled a, admin_address a, admin_readonly a)"

definition settings_default :: "sled_config \<Rightarrow> settings" where
  "settings_default sled_dflt =
     \<lparr>set_rpc_list = [], set_sort_on_startup = False, set_ma_length = Fin 100, set_poverty_list = [],
      set_is_ws = True, set_do_clear = False, set_address = ''127.0.0.1:3000'', set_health_check = False,
      set_header_check = True, set_ttl = 1000, set_expected_block_time = 12500,
      set_supress_rpc_check = True, set_max_retries = 32, set_health_check_ttl = 1000,
      set_cache = SledSettings sled_dflt, set_admin = admin_settings_default\<rparr>"

datatype config_error =
    ConfigRpcError rpc_error
  | Syncing
  | ReadError string string
  | FailedDeserialization string string

fun config_error_display :: "config_error \<Rightarrow> string" where
  "config_error_display (ConfigRpcError e) = rpc_error_display e"
| "config_error_display Syncing = ''Node is syncing!''"
| "config_error_display (ReadError path e) =
     ''failed to read config file '' @ CHR 0x27 # path @ CHR 0x27 # '': '' @ e"
| "config_error_display (FailedDeserialization path e) =
     ''failed to deserialize config file '' @ CHR 0x27 # path @ CHR 0x27 # '': '' @ e"

section \<open>Reading the configuration\<close>

record config_env =
  default_path :: "string option"
  read_file :: "string \<Rightarrow> string + string"
  parse_toml :: "string \<Rightarrow> string + toml"
  env_parse_url :: "string \<Rightarrow> url option"
  parse_socket :: "string \<Rightarrow> string option"
  read_sled :: "toml \<Rightarrow> sled_config_repr option"
  read_rocksdb :: "toml \<Rightarrow> rocksdb_options_repr option"
  rocksdb_repr_default :: rocksdb_options_repr
  path_accepted :: "string \<Rightarrow> u64 \<Rightarrow> bool"
  sled_default :: sled_config

text \<open>The file, if there is one: the path given, or \<open>./config.toml\<close>.\<close>

definition load_config :: "config_env \<Rightarrow> blutgang_args \<Rightarrow> config_error + toml option" where
  "load_config E a =
     (case or_else (arg_config a) (default_path E) of
        None \<Rightarrow> Inr None
      | Some path \<Rightarrow>
          (case read_file E path of
             Inl e \<Rightarrow> Inl (ReadError path e)
           | Inr s \<Rightarrow>
               (case parse_toml E s of
                  Inl e \<Rightarrow> Inl (FailedDeserialization path e)
                | Inr v \<Rightarrow> Inr (Some v))))"

text \<open>\<open>Db::from_str(db, true)\<close>: the value names of the enumeration, without regard to case.\<close>

definition db_kind_of :: "string \<Rightarrow> db_kind option" where
  "db_kind_of s =
     (if lower s = ''sled'' then Some SledDb else if lower s = ''rocksdb'' then Some RocksDb else None)"

definition cache_of :: "config_env \<Rightarrow> blutgang_args \<Rightarrow> (string \<times> toml) list option \<Rightarrow> cache_settings outcome" where
  "cache_of E a t =
     (case or_default SledDb
             (or_else (arg_db a) (Option.bind (Option.bind (key_in ''db'' t) toml_str) db_kind_of)) of
        SledDb \<Rightarrow>
          Ret (SledSettings (sled_config_of (sled_default E)
                 (or_default sled_config_repr_default (Option.bind (key_in ''sled'' t) (read_sled E)))))
      | RocksDb \<Rightarrow>
          obind (rocksdb_options_of (path_accepted E)
                   (or_default (rocksdb_repr_default E) (Option.bind (key_in ''rocksdb'' t) (read_rocksdb E))))
            (\<lambda>opts. Ret (RocksDbSettings opts)))"

text \<open>\<open>if let Some((addr, port)) = address.zip(port)\<close>.\<close>

definition address_of ::
  "config_env \<Rightarrow> string option \<Rightarrow> u16 option \<Rightarrow> (string \<times> toml) list option \<Rightarrow> string \<Rightarrow> string outcome" where
  "address_of E cli_addr cli_port t dflt =
     obind (uint_of (key_in ''port'' t))
       (\<lambda>file_port.
          case (or_else cli_addr (Option.bind (key_in ''address'' t) toml_str), or_else cli_port file_port) of
            (Some addr, Some pn) \<Rightarrow>
              (case parse_socket E (addr @ '':'' @ show_dec pn) of None \<Rightarrow> Panic | Some s \<Rightarrow> Ret s)
          | _ \<Rightarrow> Ret dflt)"

text \<open>\<open>(expected_block_time as f64 * 1.1) as u64\<close>; zero turns the websockets off.\<close>

definition one_point_one :: rat where
  "one_point_one = (case round_f64 (11 / 10) of Fin q \<Rightarrow> q | _ \<Rightarrow> 1)"

definition padded_block_time :: "u64 \<Rightarrow> u64" where
  "padded_block_time t =
     (if t = 0 then 0 else f64_to_uint (f64_mul_fin (f64_of_nat (unat t)) one_point_one))"

text \<open>The admin section. A key is only looked for when \<open>jwt\<close> is on, and must be there then.\<close>

definition admin_of ::
  "config_env \<Rightarrow> blutgang_args \<Rightarrow> (string \<times> toml) list option \<Rightarrow> admin_settings outcome" where
  "admin_of E a t =
     (let adm = Option.bind (key_in ''admin'' t) toml_table;
          enabled = flag (arg_admin a) (arg_no_admin a) (key_in ''enable'' adm) False
      in if \<not> enabled then Ret admin_settings_default
         else
           obind (address_of E (arg_admin_address a) (arg_admin_port a) adm (admin_address admin_settings_default))
             (\<lambda>addr.
                (let readonly = flag (arg_admin_readonly a) (arg_no_admin_readonly a) (key_in ''readonly'' adm) False;
                     jwt = flag (arg_admin_jwt a) (arg_no_admin_jwt a) (key_in ''jwt'' adm) False
                 in if jwt
                    then
                      (case or_else (arg_admin_key a) (Option.bind (key_in ''key'' adm) toml_str) of
                         None \<Rightarrow> Panic
                       | Some k \<Rightarrow>
                           Ret \<lparr>admin_enabled = True, admin_address = addr, admin_readonly = readonly,
                                admin_jwt = True, admin_key = k\<rparr>)
                    else
                      Ret \<lparr>admin_enabled = True, admin_address = addr, admin_readonly = readonly,
                           admin_jwt = False, admin_key = []\<rparr>)))"

text \<open>The endpoints: those of the command line if there are any, else those of the file. The file's
  are built in either case; the flag tells whether all of them have a websocket address.\<close>

definition rpcs_of ::
  "config_env \<Rightarrow> blutgang_args \<Rightarrow> toml option \<Rightarrow> f64 \<Rightarrow> usize \<Rightarrow> (rpc list option \<times> bool) outcome" where
  "rpcs_of E a config ma next_id =
     (let (cli, next1) = into_rpcs (env_parse_url E) ma (arg_rpc_list a) next_id;
          from_cli = (if arg_url (arg_rpc_list a) \<noteq> [] then Some cli else None)
      in case Option.bind (Option.bind config (toml_get ''rpc'')) toml_array of
           None \<Rightarrow> Ret (from_cli, True)
         | Some vs \<Rightarrow>
             obind (file_rpcs (env_parse_url E) ma vs next1)
               (\<lambda>(rs, all_ws). Ret (or_else from_cli (Some rs), all_ws)))"

text \<open>The five boolean options of the program.\<close>

definition clear_cache_of :: "blutgang_args \<Rightarrow> (string \<times> toml) list option \<Rightarrow> settings \<Rightarrow> bool" where
  "clear_cache_of a t d =
     flag (arg_clear_cache a) (arg_no_clear_cache a) (key_in ''clear_cache'' t) (set_do_clear d)"

definition sort_on_startup_of :: "blutgang_args \<Rightarrow> (string \<times> toml) list option \<Rightarrow> settings \<Rightarrow> bool" where
  "sort_on_startup_of a t d =
     flag (arg_sort_on_startup a) (arg_no_sort_on_startup a) (key_in ''sort_on_startup'' t) (set_sort_on_startup d)"

definition health_check_of :: "blutgang_args \<Rightarrow> (string \<times> toml) list option \<Rightarrow> settings \<Rightarrow> bool" where
  "health_check_of a t d =
     flag (arg_health_check a) (arg_no_health_check a) (key_in ''health_check'' t) (set_health_check d)"

definition header_check_of :: "blutgang_args \<Rightarrow> (string \<times> toml) list option \<Rightarrow> settings \<Rightarrow> bool" where
  "header_check_of a t d =
     flag (arg_header_check a) (arg_no_header_check a) (key_in ''header_check'' t) (set_header_check d)"

definition supress_rpc_check_of :: "blutgang_args \<Rightarrow> (string \<times> toml) list option \<Rightarrow> settings \<Rightarrow> bool" where
  "supress_rpc_check_of a t d =
     flag (arg_supress_rpc_check a) (arg_no_supress_rpc_check a) (key_in ''supress_rpc_check'' t) (set_supress_rpc_check d)"

lemmas flag_options =
  clear_cache_of_def sort_on_startup_of_def health_check_of_def header_check_of_def supress_rpc_check_of_def

definition try_parse :: "config_env \<Rightarrow> usize \<Rightarrow> blutgang_args \<Rightarrow> (config_error + settings) outcome" where
  "try_parse E next_id a =
     (case load_config E a of
        Inl e \<Rightarrow> Ret (Inl e)
      | Inr config \<Rightarrow>
          (let t = Option.bind (Option.bind config (toml_get ''blutgang'')) toml_table;
               d = settings_default (sled_default E)
           in obind (cache_of E a t) (\<lambda>cache.
              obind (address_of E (arg_address a) (arg_port a) t (set_address d)) (\<lambda>addr.
              obind (uint_of (key_in ''ttl'' t)) (\<lambda>file_ttl.
              obind (uint_of (key_in ''max_retries'' t)) (\<lambda>file_retries.
              obind (uint_of (key_in ''expected_block_time'' t)) (\<lambda>file_ebt.
              obind (uint_of (key_in ''health_check_ttl'' t)) (\<lambda>file_hcttl.
              obind (admin_of E a t) (\<lambda>admin.
                (let ma = or_default (set_ma_length d)
                            (or_else (arg_ma_length a) (Option.bind (key_in ''ma_length'' t) toml_float));
                     ebt = or_else (arg_expected_block_time a) file_ebt
                 in obind (rpcs_of E a config ma next_id) (\<lambda>(rpcs, all_ws).
                    Ret (Inr
                      \<lparr>set_rpc_list = or_default [] rpcs,
                       set_sort_on_startup = sort_on_startup_of a t d,
                       set_ma_length = ma,
                       set_poverty_list = [],
                       set_is_ws = (ebt \<noteq> Some 0 \<and> all_ws),
                       set_do_clear = clear_cache_of a t d,
                       set_address = addr,
                       set_health_check = health_check_of a t d,
                       set_header_check = header_check_of a t d,
                       set_ttl = or_default (set_ttl d) (or_else (arg_ttl a) file_ttl),
                       set_expected_block_time =
                         (case ebt of Some n \<Rightarrow> padded_block_time n | None \<Rightarrow> set_expected_block_time d),
                       set_supress_rpc_check = supress_rpc_check_of a t d,
                       set_max_retries = or_default (set_max_retries d) (or_else (arg_max_retries a) file_retries),
                       set_health_check_ttl =
                         or_default (set_health_check_ttl d) (or_else (arg_health_check_ttl a) file_hcttl),
                       set_cache = cache,
                       set_admin = admin\<rparr>))))))))))))"

end
