(* ===== verification/Format.thy ===== *)
theory Format
  imports RpcTypes
begin

text \<open>
  \<open>src/src/balancer/format.rs\<close>: the block a request is about. A request names its block by a
  number or by a tag (\<open>latest\<close>, \<open>safe\<close>, ...); \<open>get_block_number_from_request\<close> reads it,
  \<open>replace_block_tags\<close> rewrites \<open>latest\<close> and \<open>finalized\<close> to the number they stand for.
  The record of the named block numbers is the one of \<open>src/src/health/safe_block.rs\<close>.
\<close>

datatype named_number = Latest | Earliest | Safe | Finalized | Pending | NNull

fun named_number_str :: "named_number \<Rightarrow> string" where
  "named_number_str Latest = ''latest''"
| "named_number_str Earliest = ''earliest''"
| "named_number_str Safe = ''safe''"
| "named_number_str Finalized = ''finalized''"
| "named_number_str Pending = ''pending''"
| "named_number_str NNull = ''null''"

record named_blocknumbers =
  latest :: u64
  earliest :: u64
  safe :: u64
  finalized :: u64
  pending :: u64

text \<open>\<open>memmem::find(h, n).is_some()\<close>.\<close>

definition contains :: "string \<Rightarrow> string \<Rightarrow> bool" where
  "contains haystack needle \<longleftrightarrow> sublist needle haystack"

definition has_named_number :: "string \<Rightarrow> named_number" where
  "has_named_number param =
     (case find (\<lambda>n. contains param (named_number_str n)) [Latest, Earliest, Safe, Finalized, Pending] of
        Some n \<Rightarrow> n
      | None \<Rightarrow> NNull)"

definition get_block_number_from_request ::
  "serde \<Rightarrow> json \<Rightarrow> named_blocknumbers rwlock \<Rightarrow> u64 option outcome" where
  "get_block_number_from_request S tx named =
     (case as_array (jindex tx ''params'') of
        None \<Rightarrow> Ret None
      | Some params \<Rightarrow>
          (if params = [] then Ret None
           else
             case get_position (as_str (jindex tx ''method'')) of
               None \<Rightarrow> Ret None
             | Some pos \<Rightarrow>
                 (let bn = remove_char (CHR 0x22) (to_text S (jnth (jindex tx ''params'') pos));
                      nn = has_named_number bn
                  in if nn \<noteq> NNull
                     then
                       (if poisoned named then Panic
                        else
                          Ret (case nn of
                                 Latest \<Rightarrow> Some (latest (contents named))
                               | Earliest \<Rightarrow> Some (earliest (contents named))
                               | Safe \<Rightarrow> Some (safe (contents named))
                               | Finalized \<Rightarrow> Some (finalized (contents named))
                               | Pending \<Rightarrow> Some (pending (contents named))
                               | NNull \<Rightarrow> None))
                     else obind (slice_from 2 bn) (\<lambda>digits. Ret (from_str_radix 16 digits)))))"

text \<open>\<open>tx["params"][position] = v\<close>.\<close>

definition set_param :: "json \<Rightarrow> nat \<Rightarrow> json \<Rightarrow> json outcome" where
  "set_param tx pos v =
     obind (jset_nth pos v (jindex tx ''params'')) (\<lambda>params. jset ''params'' params tx)"

definition hex_text :: "u64 \<Rightarrow> string" where
  "hex_text n = ''0x'' @ show_hex n"

text \<open>Here the lock is read even when it is poisoned.\<close>

definition replace_block_tags :: "serde \<Rightarrow> json \<Rightarrow> named_blocknumbers rwlock \<Rightarrow> json outcome" where
  "replace_block_tags S tx named =
     (if (case as_array (jindex tx ''params'') of None \<Rightarrow> True | Some p \<Rightarrow> p = []) then Ret tx
      else
        case get_position (as_str (jindex tx ''method'')) of
          None \<Rightarrow> Ret tx
        | Some pos \<Rightarrow>
            (let bn = remove_char (CHR 0x22) (to_text S (jnth (jindex tx ''params'') pos));
                 nn = has_named_number bn
             in if nn \<noteq> NNull
                then
                  (case nn of
                     Latest \<Rightarrow>
                       (if latest (contents named) \<noteq> 0
                        then set_param tx pos (JStr (hex_text (latest (contents named))))
                        else Ret tx)
                   | Finalized \<Rightarrow>
                       (if finalized (contents named) \<noteq> 0
                        then set_param tx pos (JStr (hex_text (finalized (contents named))))
                        else Ret tx)
                   | _ \<Rightarrow> Ret tx)
                else Ret tx))"

section \<open>Reading a request body\<close>

text \<open>\<open>str::from_utf8\<close>: well-formed UTF-8, on byte values.\<close>

definition cont_byte :: "nat \<Rightarrow> bool" where
  "cont_byte b \<longleftrightarrow> 128 \<le> b \<and> b < 192"

fun utf8_ok :: "nat list \<Rightarrow> bool" where
  "utf8_ok [] = True"
| "utf8_ok (a # bs) =
     (if a < 128 then utf8_ok bs
      else case bs of
        [] \<Rightarrow> False
      | b # cs \<Rightarrow>
          if 194 \<le> a \<and> a < 224 then cont_byte b \<and> utf8_ok cs
          else case cs of
            [] \<Rightarrow> False
          | c # ds \<Rightarrow>
              if 224 \<le> a \<and> a < 240
              then cont_byte b \<and> cont_byte c \<and> (a = 224 \<longrightarrow> 160 \<le> b) \<and> (a = 237 \<longrightarrow> b < 160) \<and> utf8_ok ds
              else case ds of
                [] \<Rightarrow> False
              | d # es \<Rightarrow>
                  240 \<le> a \<and> a < 245 \<and> cont_byte b \<and> cont_byte c \<and> cont_byte d \<and>
                  (a = 240 \<longrightarrow> 144 \<le> b) \<and> (a = 244 \<longrightarrow> b < 144) \<and> utf8_ok es)"

definition invalid_json_value :: json where
  "invalid_json_value =
     obj_of [(''id'', JNull), (''jsonrpc'', JStr ''2.0''), (''result'', JStr ''Invalid JSON'')]"

definition incoming_to_value :: "serde \<Rightarrow> 'e + string \<Rightarrow> ('e + json) outcome" where
  "incoming_to_value S body =
     (case body of
        Inl e \<Rightarrow> Ret (Inl e)
      | Inr bytes \<Rightarrow>
          (if \<not> utf8_ok (map of_char bytes) then Panic
           else case simd_parse S bytes of
                  Inr v \<Rightarrow> Ret (Inr v)
                | Inl _ \<Rightarrow> Ret (Inr invalid_json_value)))"

section \<open>Tags in texts\<close>

lemma contains_chars: "contains h n \<Longrightarrow> set n \<subseteq> set h"
  unfolding contains_def by (rule set_mono_sublist)

lemma named_digits:
  assumes "\<And>c. c \<in> set s \<Longrightarrow> of_char c \<in> {48..57} \<union> {97..102 :: nat} \<or> c = CHR ''x''"
  shows "has_named_number s = NNull"
proof -
  have no: "\<not> contains s w"
    if "c \<in> set w" "of_char c \<notin> {48..57} \<union> {97..102 :: nat}" "c \<noteq> CHR ''x''" for c w
    using that assms [of c] contains_chars [of s w] by blast
  have "\<not> contains s ''latest''" "\<not> contains s ''earliest''" "\<not> contains s ''safe''"
    "\<not> contains s ''finalized''" "\<not> contains s ''pending''"
    using no [of "CHR ''t''"] no [of "CHR ''s''"] no [of "CHR ''n''"] by simp_all
  then show ?thesis by (simp add: has_named_number_def)
qed

lemma named_hex: "has_named_number (hex_text n) = NNull"
proof (rule named_digits)
  fix c assume "c \<in> set (hex_text n)"
  then have "c = CHR ''0'' \<or> c = CHR ''x'' \<or> c \<in> set (to_digits 16 (unat n))"
    by (simp add: hex_text_def show_hex_def)
  then consider "c = CHR ''0''" | "c = CHR ''x''" | d where "c = digit_char d" "d < 16"
    using set_to_digits [of 16 "unat n"] by fastforce
  then show "of_char c \<in> {48..57} \<union> {97..102 :: nat} \<or> c = CHR ''x''" by cases (auto simp: digit_char_def)
qed

lemma named_dec: "has_named_number (to_digits 10 n) = NNull"
proof (rule named_digits)
  fix c assume "c \<in> set (to_digits 10 n)"
  then obtain d where "c = digit_char d" "d < 10" using set_to_digits [of 10 n] by fastforce
  then show "of_char c \<in> {48..57} \<union> {97..102 :: nat} \<or> c = CHR ''x''" by (auto simp: digit_char_def)
qed

lemma dec_boundary: "is_char_boundary (to_digits 10 n) 2 \<longleftrightarrow> 10 \<le> n"
proof (cases "n < 10")
  case True
  then show ?thesis by (simp add: to_digits.simps is_char_boundary_def)
next
  case False
  then have "2 \<le> length (to_digits 10 n)"
    using to_digits_nonempty [of 10 "n div 10"] by (subst to_digits.simps) (cases "to_digits 10 (n div 10)", auto)
  moreover have "plain_char (to_digits 10 n ! 2)" if "2 < length (to_digits 10 n)"
    using plain_to_digits [of 10 n] that by (simp add: list_all_length)
  ultimately show ?thesis using False by (auto simp: is_char_boundary_def plain_char_def)
qed

lemma named_self: "t \<noteq> NNull \<Longrightarrow> has_named_number (named_number_str t) = t"
  by (cases t) (simp_all, code_simp+)

lemma plain_tag: "list_all plain_char (named_number_str t)"
  by (cases t) (simp_all add: plain_char_def)

lemma plain_hex: "list_all plain_char (hex_text n)"
  using plain_to_digits [of 16 "unat n"] by (simp add: hex_text_def show_hex_def plain_char_def)

lemma hex_text_slice: "obind (slice_from 2 (hex_text n)) (\<lambda>d. Ret (from_str_radix 16 d)) = Ret (Some n)"
proof -
  have "plain_char (hd (show_hex n))"
    using plain_to_digits [of 16 "unat n"] to_digits_nonempty [of 16 "unat n"]
    by (cases "show_hex n") (auto simp: show_hex_def)
  then have "is_char_boundary (hex_text n) 2"
    using to_digits_nonempty [of 16 "unat n"]
    by (cases "show_hex n") (auto simp: hex_text_def show_hex_def is_char_boundary_def plain_char_def)
  then show ?thesis
    using from_str_radix_to_digits [of 16 n] by (simp add: slice_from_def hex_text_def show_hex_def)
qed

section \<open>Requests with a block parameter\<close>

definition block_param :: "json \<Rightarrow> json list \<Rightarrow> nat \<Rightarrow> bool" where
  "block_param tx ps i \<longleftrightarrow>
     jindex tx ''params'' = JArr ps \<and> i < length ps \<and>
     get_position (as_str (jindex tx ''method'')) = Some i"

lemma set_param_effect:
  assumes "jindex tx ''params'' = JArr ps" "i < length ps"
  shows "\<exists>tx'. set_param tx i v = Ret tx' \<and> jindex tx' ''params'' = JArr (ps[i := v]) \<and>
           (\<forall>k. k \<noteq> ''params'' \<longrightarrow> jindex tx' k = jindex tx k)"
proof -
  from assms(1) have "is_object tx" by (cases tx) (auto simp: jindex_def)
  then obtain tx' where tx': "jset ''params'' (JArr (ps[i := v])) tx = Ret tx'"
    using jset_object by blast
  then show ?thesis using assms by (simp add: set_param_def jindex_jset [OF tx'])
qed

lemma get_block_param:
  assumes "block_param tx ps i"
  shows "get_block_number_from_request S tx named =
    (let bn = remove_char (CHR 0x22) (to_text S (ps ! i)); nn = has_named_number bn
     in if nn \<noteq> NNull
        then if poisoned named then Panic
             else Ret (case nn of Latest \<Rightarrow> Some (latest (contents named))
                               | Earliest \<Rightarrow> Some (earliest (contents named))
                               | Safe \<Rightarrow> Some (safe (contents named))
                               | Finalized \<Rightarrow> Some (finalized (contents named))
                               | Pending \<Rightarrow> Some (pending (contents named))
                               | NNull \<Rightarrow> None)
        else obind (slice_from 2 bn) (\<lambda>digits. Ret (from_str_radix 16 digits)))"
  using assms unfolding get_block_number_from_request_def block_param_def by auto

lemma get_block_hex:
  assumes "quotes_plain S" "block_param tx ps i" "ps ! i = JStr (hex_text n)"
  shows "get_block_number_from_request S tx named = Ret (Some n)"
  using unquote_plain [OF assms(1) plain_hex] hex_text_slice
  by (simp add: get_block_param [OF assms(2)] assms(3) named_hex)

lemma resolve_tag:
  assumes "quotes_plain S" "block_param tx ps i" "ps ! i = JStr (named_number_str t)"
    and "(t = Latest \<and> n = latest (contents named)) \<or> (t = Finalized \<and> n = finalized (contents named))"
    and "n \<noteq> 0"
  shows "\<exists>tx'. replace_block_tags S tx named = Ret tx' \<and>
           jindex tx' ''params'' = JArr (ps[i := JStr (hex_text n)]) \<and>
           (\<forall>k. k \<noteq> ''params'' \<longrightarrow> jindex tx' k = jindex tx k) \<and>
           get_block_number_from_request S tx' named' = Ret (Some n)"
proof -
  from assms(2) have p: "jindex tx ''params'' = JArr ps" "i < length ps" "ps \<noteq> []"
    "get_position (as_str (jindex tx ''method'')) = Some i"
    by (auto simp: block_param_def)
  obtain tx' where tx': "set_param tx i (JStr (hex_text n)) = Ret tx'"
    "jindex tx' ''params'' = JArr (ps[i := JStr (hex_text n)])"
    "\<forall>k. k \<noteq> ''params'' \<longrightarrow> jindex tx' k = jindex tx k"
    using set_param_effect [OF p(1,2)] by blast
  have bn: "remove_char (CHR 0x22) (to_text S (ps ! i)) = named_number_str t"
    unfolding assms(3) by (rule unquote_plain [OF assms(1) plain_tag])
  have nn: "has_named_number (named_number_str t) = t" using assms(4) by (intro named_self) auto
  have "replace_block_tags S tx named = Ret tx'"
    using assms(4,5) tx'(1) p bn nn by (auto simp: replace_block_tags_def)
  moreover have "block_param tx' (ps[i := JStr (hex_text n)]) i"
    using tx' p by (simp add: block_param_def)
  ultimately show ?thesis using get_block_hex [OF assms(1)] tx' p(2) by auto
qed

lemma unknown_latest:
  assumes "quotes_plain S" "block_param tx ps i" "ps ! i = JStr (named_number_str Latest)"
    and "latest (contents named) = 0"
  shows "replace_block_tags S tx named = Ret tx"
proof -
  have bn: "remove_char (CHR 0x22) (to_text S (ps ! i)) = named_number_str Latest"
    unfolding assms(3) by (rule unquote_plain [OF assms(1) plain_tag])
  have "has_named_number (named_number_str Latest) = Latest" by (intro named_self) auto
  with assms(2,4) bn show ?thesis by (auto simp: replace_block_tags_def block_param_def)
qed

text \<open>C24. A request that names its block by the tag \<open>latest\<close> or \<open>finalized\<close>, when the number
  that tag stands for is known (not zero), is rewritten in that one parameter, to the number
  in hexadecimal; every other parameter and field stays as it is. Reading the block of the
  rewritten request gives the number back, whatever the state of the lock.\<close>

theorem block_tags_are_resolved:
  assumes "quotes_plain S" "block_param tx ps i" "ps ! i = JStr (named_number_str t)"
    and "(t = Latest \<and> n = latest (contents named)) \<or> (t = Finalized \<and> n = finalized (contents named))"
    and "n \<noteq> 0"
  shows "\<exists>tx'. replace_block_tags S tx named = Ret tx' \<and>
           jindex tx' ''params'' = JArr (ps[i := JStr (hex_text n)]) \<and>
           (\<forall>k. k \<noteq> ''params'' \<longrightarrow> jindex tx' k = jindex tx k) \<and>
           get_block_number_from_request S tx' named' = Ret (Some n)"
  by (rule resolve_tag [OF assms])

text \<open>Rewriting a request never panics and never touches a field other than \<open>params\<close>; it
  leaves the request as it is when the tag is not one of the two or its number is unknown.\<close>

theorem replace_block_tags_frame:
  assumes "to_text S JNull = ''null''"
  shows "\<exists>tx'. replace_block_tags S tx named = Ret tx' \<and>
           (\<forall>k. k \<noteq> ''params'' \<longrightarrow> jindex tx' k = jindex tx k) \<and>
           (latest (contents named) = 0 \<longrightarrow> finalized (contents named) = 0 \<longrightarrow> tx' = tx)"
proof (cases "\<exists>ps i. block_param tx ps i")
  case True
  then obtain ps i where b: "block_param tx ps i" by blast
  then have p: "jindex tx ''params'' = JArr ps" "i < length ps" "ps \<noteq> []"
    "get_position (as_str (jindex tx ''method'')) = Some i"
    by (auto simp: block_param_def)
  from set_param_effect [OF p(1,2)] have set: "\<exists>tx'. set_param tx i v = Ret tx' \<and>
      (\<forall>k. k \<noteq> ''params'' \<longrightarrow> jindex tx' k = jindex tx k)" for v by blast
  show ?thesis
    unfolding replace_block_tags_def
    using p set [of "JStr (hex_text (latest (contents named)))"]
      set [of "JStr (hex_text (finalized (contents named)))"]
    by (auto simp: Let_def split: named_number.splits)
next
  case False
  have none: "has_named_number ''null'' = NNull" by code_simp
  have q: "remove_char (CHR 0x22) ''null'' = ''null''" by code_simp
  have "replace_block_tags S tx named = Ret tx"
  proof (cases "as_array (jindex tx ''params'')")
    case (Some ps)
    then have arr: "jindex tx ''params'' = JArr ps" by (simp add: as_array_Some)
    show ?thesis
    proof (cases "get_position (as_str (jindex tx ''method''))")
      case (Some i)
      with False arr have "jnth (jindex tx ''params'') i = JNull" by (auto simp: block_param_def)
      with Some arr assms none q show ?thesis by (simp add: replace_block_tags_def)
    qed (use arr in \<open>simp add: replace_block_tags_def\<close>)
  qed (simp add: replace_block_tags_def)
  then show ?thesis by blast
qed

text \<open>C40. A block parameter given as a number instead of a hexadecimal string is not rejected but
  misread: its first two digits are cut off as if they were the prefix \<open>0x\<close>, which panics for a
  number of one digit, and the other digits are read as hexadecimal ones.\<close>

theorem numeric_block_is_misread:
  assumes "block_param tx ps i" "ps ! i = JNum (PosInt n)" "to_text S (JNum (PosInt n)) = show_dec n"
  shows "get_block_number_from_request S tx named =
           (if unat n < 10 then Panic else Ret (from_str_radix 16 (drop 2 (show_dec n))))"
proof -
  have "list_all plain_char (show_dec n)" using plain_to_digits [of 10 "unat n"] by (simp add: show_dec_def)
  then have "remove_char (CHR 0x22) (show_dec n) = show_dec n"
    by (auto simp: remove_char_def plain_char_def list_all_iff filter_id_conv)
  moreover have "has_named_number (show_dec n) = NNull" by (simp only: show_dec_def named_dec)
  moreover have "is_char_boundary (show_dec n) 2 \<longleftrightarrow> 10 \<le> unat n" by (simp only: show_dec_def dec_boundary)
  ultimately show ?thesis
    by (simp add: get_block_param [OF assms(1)] assms(2,3) slice_from_def Let_def)
qed

section \<open>Concrete requests\<close>

definition balance_request :: "json \<Rightarrow> json" where
  "balance_request block =
     JObj [(''id'', JNull), (''method'', JStr ''eth_getBalance''), (''params'', JArr [JStr ''0xab'', block])]"

lemma balance_block_param: "block_param (balance_request b) [JStr ''0xab'', b] 1"
  using get_position_str [of GetBalance]
  by (simp add: block_param_def balance_request_def jindex_def)

definition named_at :: "u64 \<Rightarrow> named_blocknumbers rwlock" where
  "named_at n = new_lock \<lparr>latest = n, earliest = 0, safe = 0, finalized = 0, pending = 0\<rparr>"

theorem block_tags_are_resolved_witness:
  "\<exists>tx'. replace_block_tags (sample_serde []) (balance_request (JStr ''latest'')) (named_at 26) = Ret tx' \<and>
     get_block_number_from_request (sample_serde []) tx' (named_at 26) = Ret (Some 26)"
  using block_tags_are_resolved [OF sample_quotes [of "[]"] balance_block_param, of "JStr ''latest''" Latest 26 "named_at 26" "named_at 26"]
  by (auto simp: named_at_def new_lock_def)

theorem replace_block_tags_frame_witness:
  "\<exists>tx'. replace_block_tags (sample_serde []) (balance_request (JStr ''latest'')) (named_at 0) = Ret tx' \<and>
     tx' = balance_request (JStr ''latest'')"
  using replace_block_tags_frame [of "sample_serde []" "balance_request (JStr ''latest'')" "named_at 0"]
  by (auto simp: sample_serde_def named_at_def new_lock_def)

theorem numeric_block_is_misread_witness:
  "get_block_number_from_request (sample_serde []) (balance_request (JNum (PosInt 5))) (named_at 26) = Panic \<and>
   get_block_number_from_request (sample_serde []) (balance_request (JNum (PosInt 100))) (named_at 26) = Ret (Some 0)"
proof -
  have "show_dec (100 :: u64) = ''100''"
    by (simp add: show_dec_def to_digits.simps digit_char_def, code_simp)
  then have "drop 2 (show_dec (100 :: u64)) = to_digits 16 (unat (0 :: u64))"
    by (simp add: to_digits.simps digit_char_def, code_simp)
  then have "(from_str_radix 16 (drop 2 (show_dec (100 :: u64))) :: u64 option) = Some 0"
    by (simp only: from_str_radix_to_digits)
  then show ?thesis
    using numeric_block_is_misread [OF balance_block_param, of "JNum (PosInt 5)" 5 "sample_serde []" "named_at 26"]
      numeric_block_is_misread [OF balance_block_param, of "JNum (PosInt 100)" 100 "sample_serde []" "named_at 26"]
    by (simp add: sample_serde_def)
qed

end
