(* ===== verification/CacheRules.thy ===== *)
theory CacheRules
  imports Format
begin

text \<open>
  \<open>src/src/balancer/selection/cache_rules.rs\<close> and the decision in
  \<open>src/src/balancer/processing.rs\<close>: which requests and which responses may be cached. The
  feature \<open>no-cache\<close> is the argument \<open>no_cache\<close>.
\<close>

definition has_block_tag :: "string \<Rightarrow> bool" where
  "has_block_tag rx \<longleftrightarrow>
     (\<exists>tag \<in> set [Latest, Earliest, Safe, Finalized, Pending]. contains rx (named_number_str tag))"

definition method_blacklist :: "string list" where
  "method_blacklist =
     map method_str [BlockNumber, GetTransactionCount, eth_rpc_method.Subscribe, eth_rpc_method.Unsubscribe]"

definition cache_method :: "bool \<Rightarrow> string \<Rightarrow> bool" where
  "cache_method no_cache rx =
     (if no_cache then False
      else if has_block_tag rx then False
      else list_all (\<lambda>item. \<not> contains rx item) method_blacklist)"

definition cache_result :: "bool \<Rightarrow> string \<Rightarrow> bool" where
  "cache_result no_cache rx =
     (if no_cache then False
      else list_all (\<lambda>item. \<not> contains rx item) [''error'', ''-32'', ''null''])"

definition can_cache :: "bool \<Rightarrow> string \<Rightarrow> string \<Rightarrow> bool" where
  "can_cache no_cache meth result \<longleftrightarrow> cache_method no_cache meth \<and> cache_result no_cache result"

lemma contains_trans: "contains a b \<Longrightarrow> contains b c \<Longrightarrow> contains a c"
  unfolding contains_def using sublist_order.order_trans by blast

lemma contains_middle: "contains (xs @ b @ ys) b"
  unfolding contains_def sublist_def by blast

lemma can_cache_no_tag: "can_cache nc m r \<Longrightarrow> \<not> has_block_tag m"
  by (auto simp: can_cache_def cache_method_def split: if_splits)

lemma can_cache_no_error:
  "can_cache nc m r \<Longrightarrow> \<not> contains r ''error'' \<and> \<not> contains r ''null''"
  by (auto simp: can_cache_def cache_result_def split: if_splits)

lemma contains_mid: "contains m w \<Longrightarrow> contains (a @ m @ b) w"
  by (rule contains_trans [OF contains_middle])

lemma can_cache_iff:
  "can_cache nc m r \<longleftrightarrow>
     \<not> nc \<and>
     list_all (\<lambda>w. \<not> contains m w)
       [''latest'', ''earliest'', ''safe'', ''finalized'', ''pending'', ''eth_blockNumber'',
        ''eth_getTransactionCount'', ''eth_subscribe'', ''eth_unsubscribe''] \<and>
     list_all (\<lambda>w. \<not> contains r w) [''error'', ''-32'', ''null'']"
  by (auto simp: can_cache_def cache_method_def cache_result_def has_block_tag_def method_blacklist_def)

text \<open>What may be cached, exactly: nothing with the feature \<open>no-cache\<close>; otherwise a request
  whose text holds none of the five tags and none of the four blacklisted method names
  (the current block, transaction counts, subscribing and unsubscribing), answered by a text
  with no \<open>error\<close>, \<open>-32\<close> or \<open>null\<close>. A text around an uncacheable one is uncacheable.\<close>

theorem cache_rule:
  "(can_cache nc m r \<longleftrightarrow>
     \<not> nc \<and>
     list_all (\<lambda>w. \<not> contains m w)
       [''latest'', ''earliest'', ''safe'', ''finalized'', ''pending'', ''eth_blockNumber'',
        ''eth_getTransactionCount'', ''eth_subscribe'', ''eth_unsubscribe''] \<and>
     list_all (\<lambda>w. \<not> contains r w) [''error'', ''-32'', ''null'']) \<and>
   (can_cache nc (a @ m @ b) (c @ r @ d) \<longrightarrow> can_cache nc m r)"
proof
  show "can_cache nc (a @ m @ b) (c @ r @ d) \<longrightarrow> can_cache nc m r"
    unfolding can_cache_iff list_all_iff using contains_mid by blast
qed (rule can_cache_iff)

theorem cache_rule_witness:
  "can_cache False ''{method:eth_call}'' ''{result:0x1}'' \<and> can_cache False ''eth_call'' ''0x1''"
proof -
  have c: "can_cache False (''{method:'' @ ''eth_call'' @ ''}'') (''{result:'' @ ''0x1'' @ ''}'')"
    by code_simp
  moreover have "can_cache False ''eth_call'' ''0x1''"
    using cache_rule [of False "''eth_call''" "''0x1''" "''{method:''" "''}''" "''{result:''" "''}''"]
      c by blast
  ultimately show ?thesis by simp
qed

end
