(* ===== verification/BTree.thy ===== *)
theory BTree
  imports CacheRules
begin

text \<open>
  \<open>BTreeMap\<close> as an association list in key order, with the operations the program uses
  (\<open>get\<close>, \<open>insert\<close>, \<open>remove\<close>, the first entry) and what a lookup returns after each.
\<close>

type_synonym ('k, 'v) btree = "('k \<times> 'v) list"

definition bt_get :: "('k, 'v) btree \<Rightarrow> 'k \<Rightarrow> 'v option" where
  "bt_get m k = map_of m k"

fun bt_insert :: "'k::linorder \<Rightarrow> 'v \<Rightarrow> ('k, 'v) btree \<Rightarrow> ('k, 'v) btree" where
  "bt_insert k v [] = [(k, v)]"
| "bt_insert k v ((k', v') # m) =
     (if k = k' then (k, v) # m
      else if k < k' then (k, v) # (k', v') # m
      else (k', v') # bt_insert k v m)"

definition bt_remove :: "'k \<Rightarrow> ('k, 'v) btree \<Rightarrow> ('k, 'v) btree" where
  "bt_remove k m = filter (\<lambda>(k', v). k' \<noteq> k) m"

definition bt_wf :: "('k::linorder, 'v) btree \<Rightarrow> bool" where
  "bt_wf m \<longleftrightarrow> sorted_wrt (<) (map fst m)"

lemma bt_get_insert [simp]: "bt_get (bt_insert k v m) = (bt_get m)(k \<mapsto> v)"
  unfolding bt_get_def by (induction m) (auto simp: fun_upd_twist)

lemma bt_get_remove [simp]: "bt_get (bt_remove k m) = (bt_get m)(k := None)"
  unfolding bt_get_def bt_remove_def by (induction m) auto

lemma bt_get_empty [simp]: "bt_get [] k = None"
  by (simp add: bt_get_def)

lemma bt_keys: "fst ` set m = dom (bt_get m)"
  unfolding bt_get_def by (simp add: dom_map_of_conv_image_fst)

lemma bt_wf_empty [simp]: "bt_wf []"
  by (simp add: bt_wf_def)

lemma bt_wf_insert [simp]: "bt_wf m \<Longrightarrow> bt_wf (bt_insert k v m)"
proof (induction m)
  case (Cons kv m)
  obtain k' v' where kv: "kv = (k', v')" by (cases kv)
  from Cons.prems have "bt_wf m" by (simp add: bt_wf_def)
  with Cons have IH: "bt_wf (bt_insert k v m)" by simp
  have keys: "fst ` set (bt_insert k v m) = insert k (fst ` set m)" unfolding bt_keys by auto
  show ?case
  proof (cases "k' < k")
    case True
    with Cons.prems IH keys kv show ?thesis by (auto simp: bt_wf_def dest: less_not_sym)
  next
    case False
    then consider "k = k'" | "k < k'" by (meson linorder_neqE)
    then show ?thesis using Cons.prems by cases (auto simp: kv bt_wf_def)
  qed
qed (simp add: bt_wf_def)

lemma bt_wf_remove [simp]: "bt_wf m \<Longrightarrow> bt_wf (bt_remove k m)"
  unfolding bt_wf_def bt_remove_def by (induction m) auto

lemma bt_first_least:
  assumes "bt_wf ((k, v) # m)" "bt_get ((k, v) # m) k' = Some v'"
  shows "k \<le> k'"
proof -
  from assms(2) have "(k', v') \<in> set ((k, v) # m)" unfolding bt_get_def by (rule map_of_SomeD)
  with assms(1) show ?thesis by (auto simp: bt_wf_def less_imp_le)
qed

end
