(* ===== verification/Database.thy ===== *)
theory Database
  imports BTree "HOL-Library.Monad_Syntax"
begin

text \<open>
  \<open>src/src/database/types.rs\<close> and \<open>src/src/database/accept.rs\<close>: the key-value store behind the
  cache. The trait \<open>GenericDatabase\<close> is the record \<open>database\<close> of its operations, its contract
  the locale \<open>generic_database\<close>; \<open>SledDb\<close> is the wrapper that reopens the store to release
  memory; \<open>database_processing\<close> is the task that serves the requests of one channel in order.
  The engines (\<open>sled\<close>, \<open>rocksdb\<close>) are not part of the repository: their operations are
  the record \<open>engine\<close>, an argument, and what is assumed of them is the locale \<open>raw_store\<close>.
  Keys and values are byte strings.
\<close>

section \<open>Batches and requests\<close>

datatype batch_op = Insert string string | Delete string

type_synonym batch = "batch_op list"

definition batch_insert :: "string \<Rightarrow> string \<Rightarrow> batch \<Rightarrow> batch" where
  "batch_insert k v b = b @ [batch_op.Insert k v]"

definition batch_delete :: "string \<Rightarrow> batch \<Rightarrow> batch" where
  "batch_delete k b = b @ [Delete k]"

fun op_effect :: "batch_op \<Rightarrow> (string \<rightharpoonup> string) \<Rightarrow> (string \<rightharpoonup> string)" where
  "op_effect (batch_op.Insert k v) m = m(k \<mapsto> v)"
| "op_effect (Delete k) m = m(k := None)"

definition batch_effect :: "batch \<Rightarrow> (string \<rightharpoonup> string) \<Rightarrow> (string \<rightharpoonup> string)" where
  "batch_effect b m = fold op_effect b m"

datatype request_kind =
    Read string
  | Write string string
  | BatchReq batch
  | Flush

section \<open>The trait\<close>

record ('db, 'e) database =
  db_read :: "'db \<Rightarrow> string \<Rightarrow> 'e + string option"
  db_write :: "'db \<Rightarrow> string \<Rightarrow> string \<Rightarrow> ('e + unit) \<times> 'db"
  db_batch :: "'db \<Rightarrow> batch \<Rightarrow> ('e + unit) \<times> 'db"
  db_flush :: "'db \<Rightarrow> ('e + unit) \<times> 'db"
  db_clear :: "'db \<Rightarrow> ('e + unit) \<times> 'db"
  db_maintain :: "'db \<Rightarrow> ('e + unit) \<times> 'db"

text \<open>The contract: \<open>view\<close> is the map a database holds. An operation that reports an error may
  or may not have taken place.\<close>

locale generic_database =
  fixes D :: "('db, 'e) database" and view :: "'db \<Rightarrow> (string \<rightharpoonup> string)"
  assumes read_ok: "db_read D s k = Inr ov \<Longrightarrow> ov = view s k"
    and write_ok: "db_write D s k v = (Inr (), s') \<Longrightarrow> view s' = (view s)(k \<mapsto> v)"
    and write_err: "db_write D s k v = (Inl e, s') \<Longrightarrow> view s' \<in> {view s, (view s)(k \<mapsto> v)}"
    and batch_ok: "db_batch D s b = (Inr (), s') \<Longrightarrow> view s' = batch_effect b (view s)"
    and batch_err: "db_batch D s b = (Inl e, s') \<Longrightarrow> view s' \<in> {view s, batch_effect b (view s)}"
    and flush_view: "db_flush D s = (r, s') \<Longrightarrow> view s' = view s"
    and maintain_view: "db_maintain D s = (r, s') \<Longrightarrow> view s' = view s"

text \<open>A database that can be emptied whenever it reports success.\<close>

locale clearable_database = generic_database +
  assumes clear_ok: "db_clear D s = (Inr (), s') \<Longrightarrow> view s' = Map.empty"

section \<open>The database task\<close>

text \<open>One turn of \<open>database_processing\<close>: an error is logged and answered by \<open>None\<close>; upkeep
  follows every request.\<close>

definition serve_request ::
  "('db, 'e) database \<Rightarrow> 'db \<Rightarrow> request_kind \<Rightarrow> string option \<times> 'db" where
  "serve_request D s req =
     (let (result, s1) =
            (case req of
               Read k \<Rightarrow> (db_read D s k, s)
             | Write k v \<Rightarrow>
                 (case db_write D s k v of (r, s') \<Rightarrow> (case r of Inl e \<Rightarrow> Inl e | Inr _ \<Rightarrow> Inr None, s'))
             | BatchReq b \<Rightarrow>
                 (case db_batch D s b of (r, s') \<Rightarrow> (case r of Inl e \<Rightarrow> Inl e | Inr _ \<Rightarrow> Inr None, s'))
             | Flush \<Rightarrow>
                 (case db_flush D s of (r, s') \<Rightarrow> (case r of Inl e \<Rightarrow> Inl e | Inr _ \<Rightarrow> Inr None, s')));
          reply = (case result of Inl e \<Rightarrow> None | Inr v \<Rightarrow> v)
      in (reply, snd (db_maintain D s1)))"

fun database_processing ::
  "('db, 'e) database \<Rightarrow> 'db \<Rightarrow> request_kind list \<Rightarrow> string option list \<times> 'db" where
  "database_processing D s [] = ([], s)"
| "database_processing D s (req # reqs) =
     (let (reply, s1) = serve_request D s req;
          (replies, s2) = database_processing D s1 reqs
      in (reply # replies, s2))"

lemma processing_Cons:
  "database_processing D s (req # reqs) =
     (fst (serve_request D s req) # fst (database_processing D (snd (serve_request D s req)) reqs),
      snd (database_processing D (snd (serve_request D s req)) reqs))"
  by (simp split: prod.split)

declare database_processing.simps(2) [simp del]

text \<open>The clients' side: \<open>db_get!\<close> waits for the reply and gives \<open>Err\<close> when the task is gone,
  \<open>db_insert\<close>, \<open>db_batch\<close> and \<open>db_flush!\<close> put a request on the channel.\<close>

definition db_get :: "bool \<Rightarrow> ('db, 'e) database \<Rightarrow> 'db \<Rightarrow> string \<Rightarrow> (unit + string option) \<times> 'db" where
  "db_get task_alive D s k =
     (if task_alive then (case serve_request D s (Read k) of (reply, s') \<Rightarrow> (Inr reply, s'))
      else (Inl (), s))"

definition db_insert :: "string \<Rightarrow> string \<Rightarrow> request_kind list \<Rightarrow> request_kind list" where
  "db_insert k v bus = bus @ [Write k v]"

definition db_batch_send :: "batch \<Rightarrow> request_kind list \<Rightarrow> request_kind list" where
  "db_batch_send b bus = bus @ [BatchReq b]"

definition db_flush_send :: "request_kind list \<Rightarrow> request_kind list" where
  "db_flush_send bus = bus @ [Flush]"

text \<open>What a request means for the map, and what its answer should be.\<close>

fun request_effect :: "request_kind \<Rightarrow> (string \<rightharpoonup> string) \<Rightarrow> (string \<rightharpoonup> string)" where
  "request_effect (Read k) m = m"
| "request_effect (Write k v) m = m(k \<mapsto> v)"
| "request_effect (BatchReq b) m = batch_effect b m"
| "request_effect Flush m = m"

text \<open>Whether a request may change a key.\<close>

fun op_key :: "batch_op \<Rightarrow> string" where
  "op_key (batch_op.Insert k v) = k"
| "op_key (Delete k) = k"

fun touches :: "string \<Rightarrow> request_kind \<Rightarrow> bool" where
  "touches k (Read k') = False"
| "touches k (Write k' v) = (k = k')"
| "touches k (BatchReq b) = (k \<in> op_key ` set b)"
| "touches k Flush = False"

lemma batch_effect_append:
  "batch_effect (b @ c) m = batch_effect c (batch_effect b m)"
  by (simp add: batch_effect_def)

lemma batch_effect_untouched: "k \<notin> op_key ` set b \<Longrightarrow> batch_effect b m k = m k"
proof (induction b arbitrary: m)
  case (Cons x b)
  then show ?case by (cases x) (auto simp: batch_effect_def)
qed (simp add: batch_effect_def)

lemma batch_effect_deletes:
  "k \<in> set ks \<Longrightarrow> batch_effect (map Delete ks) m k = None"
proof (induction ks arbitrary: m)
  case (Cons x ks)
  show ?case
  proof (cases "k \<in> set ks")
    case False
    then have "k \<notin> op_key ` set (map Delete ks)" by auto
    with Cons.prems False batch_effect_untouched [of k "map Delete ks" "m(x := None)"] show ?thesis
      by (simp add: batch_effect_def)
  qed (use Cons in \<open>simp add: batch_effect_def\<close>)
qed simp

lemma untouched_effect: "\<not> touches k req \<Longrightarrow> request_effect req m k = m k"
  by (cases req) (auto simp: batch_effect_untouched)

context generic_database
begin

lemma serve_view:
  "view (snd (serve_request D s req)) \<in> {view s, request_effect req (view s)}"
proof -
  have m: "view (snd (db_maintain D s')) = view s'" for s'
    by (cases "db_maintain D s'") (simp add: maintain_view)
  show ?thesis
  proof (cases req)
    case (Write k v)
    obtain r s' where rs: "db_write D s k v = (r, s')" by (cases "db_write D s k v")
    have "view s' \<in> {view s, (view s)(k \<mapsto> v)}"
      using rs write_ok [of s k v s'] write_err [of s k v _ s'] by (cases r) auto
    then show ?thesis by (simp add: serve_request_def Write rs m)
  next
    case (BatchReq b)
    obtain r s' where rs: "db_batch D s b = (r, s')" by (cases "db_batch D s b")
    have "view s' \<in> {view s, batch_effect b (view s)}"
      using rs batch_ok [of s b s'] batch_err [of s b _ s'] by (cases r) auto
    then show ?thesis by (simp add: serve_request_def BatchReq rs m)
  next
    case Flush
    obtain r s' where rs: "db_flush D s = (r, s')" by (cases "db_flush D s")
    then show ?thesis by (simp add: serve_request_def Flush m flush_view [OF rs])
  qed (simp add: serve_request_def m)
qed

lemma serve_read: "fst (serve_request D s (Read k)) \<in> {None, view s k}"
  using read_ok [of s k] by (auto simp: serve_request_def Let_def split: sum.split)

text \<open>Replies come one per request, in order.\<close>

lemma replies_length: "length (fst (database_processing D s reqs)) = length reqs"
  by (induction reqs arbitrary: s) (simp_all add: processing_Cons)

lemma untouched_kept:
  "list_all (\<lambda>req. \<not> touches k req) reqs \<Longrightarrow>
   view (snd (database_processing D s reqs)) k = view s k"
proof (induction reqs arbitrary: s)
  case (Cons req reqs)
  from serve_view [of s req] Cons.prems have "view (snd (serve_request D s req)) k = view s k"
    by (auto simp: untouched_effect)
  with Cons show ?case by (simp add: processing_Cons)
qed simp

lemma processing_append:
  "database_processing D s (xs @ ys) =
     (fst (database_processing D s xs) @ fst (database_processing D (snd (database_processing D s xs)) ys),
      snd (database_processing D (snd (database_processing D s xs)) ys))"
  by (induction xs arbitrary: s) (simp_all add: processing_Cons)

text \<open>Read after write: between the write and the read nobody touched the key.\<close>

lemma read_after_write:
  assumes "list_all (\<lambda>req. \<not> touches k req) reqs" "fst (db_write D s k v) = Inr ()"
  defines "s' \<equiv> snd (database_processing D s (Write k v # reqs))"
  shows "last (fst (database_processing D s (Write k v # reqs @ [Read k]))) =
           (case db_read D s' k of Inl _ \<Rightarrow> None | Inr _ \<Rightarrow> Some v)"
proof -
  let ?s1 = "snd (serve_request D s (Write k v))"
  let ?s2 = "snd (database_processing D ?s1 reqs)"
  obtain u where w: "db_write D s k v = (Inr (), u)" using assms(2) by (metis prod.collapse)
  have "view ?s1 = view u"
    by (cases "db_maintain D u") (simp add: serve_request_def w maintain_view)
  then have "view ?s1 k = Some v" using write_ok [OF w] by simp
  moreover have "view ?s2 k = view ?s1 k" by (rule untouched_kept [OF assms(1)])
  moreover have "fst (serve_request D ?s2 (Read k)) =
      (case db_read D ?s2 k of Inl _ \<Rightarrow> None | Inr _ \<Rightarrow> view ?s2 k)"
    using read_ok [of ?s2 k] by (auto simp: serve_request_def Let_def split: sum.split)
  moreover have "?s2 = s'" by (simp add: s'_def processing_Cons)
  moreover have "last (fst (database_processing D s (Write k v # reqs @ [Read k]))) =
      fst (serve_request D ?s2 (Read k))"
    by (simp add: processing_append processing_Cons)
  ultimately show ?thesis by (simp split: sum.split)
qed

end

section \<open>The engines\<close>

text \<open>An open handle \<open>'h\<close> of an engine: the operations the wrappers call. Dropping a handle leaves
  the directory \<open>'d\<close>, opening one may fail.\<close>

record ('h, 'd, 'e) engine =
  raw_get :: "'h \<Rightarrow> string \<Rightarrow> 'e + string option"
  raw_insert :: "'h \<Rightarrow> string \<Rightarrow> string \<Rightarrow> ('e + unit) \<times> 'h"
  raw_batch :: "'h \<Rightarrow> batch \<Rightarrow> ('e + unit) \<times> 'h"
  raw_flush :: "'h \<Rightarrow> ('e + unit) \<times> 'h"
  raw_clear :: "'h \<Rightarrow> ('e + unit) \<times> 'h"
  raw_keys :: "'h \<Rightarrow> ('e + string) list"
  raw_open :: "'d \<Rightarrow> 'e + 'h"
  raw_drop :: "'h \<Rightarrow> 'd"

locale raw_store =
  fixes E :: "('h, 'd, 'e) engine" and hview :: "'h \<Rightarrow> (string \<rightharpoonup> string)"
    and dview :: "'d \<Rightarrow> (string \<rightharpoonup> string)"
  assumes get_ok: "raw_get E h k = Inr ov \<Longrightarrow> ov = hview h k"
    and insert_ok: "raw_insert E h k v = (Inr (), h') \<Longrightarrow> hview h' = (hview h)(k \<mapsto> v)"
    and insert_err: "raw_insert E h k v = (Inl e, h') \<Longrightarrow> hview h' \<in> {hview h, (hview h)(k \<mapsto> v)}"
    and raw_batch_ok: "raw_batch E h b = (Inr (), h') \<Longrightarrow> hview h' = batch_effect b (hview h)"
    and raw_batch_err: "raw_batch E h b = (Inl e, h') \<Longrightarrow> hview h' \<in> {hview h, batch_effect b (hview h)}"
    and raw_flush_view: "raw_flush E h = (r, h') \<Longrightarrow> hview h' = hview h"
    and keys_listed: "hview h k \<noteq> None \<Longrightarrow> Inr k \<in> set (raw_keys E h) \<or> (\<exists>e. Inl e \<in> set (raw_keys E h))"
    and raw_clear_ok: "raw_clear E h = (Inr (), h') \<Longrightarrow> hview h' = Map.empty"
    and drop_durable: "raw_flush E h = (Inr (), h') \<Longrightarrow> dview (raw_drop E h') = hview h'"
    and open_view: "raw_open E d = Inr h \<Longrightarrow> hview h = dview d"

section \<open>SledDb\<close>

definition FANOUT :: usize where "FANOUT = 256"

record ('h, 'd) sled_db =
  db :: "'h option"
  directory :: 'd
  cache_capacity_bytes :: usize
  pinned :: usize
  next_reopen :: nat

datatype 'e sled_error = SledIo 'e | SledClosed

definition sled_db_ref :: "('h, 'd) sled_db \<Rightarrow> 'e sled_error + 'h" where
  "sled_db_ref s = (case db s of Some h \<Rightarrow> Inr h | None \<Rightarrow> Inl SledClosed)"

definition pin :: "usize \<Rightarrow> ('h, 'd) sled_db \<Rightarrow> ('h, 'd) sled_db" where
  "pin written s =
     s\<lparr>pinned := saturating_add (pinned s) (saturating_mul written FANOUT)\<rparr>"

definition sled_open :: "('h, 'd, 'e) engine \<Rightarrow> usize \<Rightarrow> nat \<Rightarrow> 'd \<Rightarrow> 'e sled_error + ('h, 'd) sled_db" where
  "sled_open E capacity now d =
     (case raw_open E d of
        Inl e \<Rightarrow> Inl (SledIo e)
      | Inr h \<Rightarrow>
          Inr \<lparr>db = Some h, directory = d, cache_capacity_bytes = capacity, pinned = 0, next_reopen = now\<rparr>)"

definition sled_read ::
  "('h, 'd, 'e) engine \<Rightarrow> ('h, 'd) sled_db \<Rightarrow> string \<Rightarrow> 'e sled_error + string option" where
  "sled_read E s k =
     (case db s of
        None \<Rightarrow> Inl SledClosed
      | Some h \<Rightarrow> (case raw_get E h k of Inl e \<Rightarrow> Inl (SledIo e) | Inr v \<Rightarrow> Inr v))"

text \<open>\<open>&self\<close> operations change the handle in place and count the bytes they pin; the length
  arithmetic is on \<open>usize\<close>.\<close>

definition sled_write ::
  "('h, 'd, 'e) engine \<Rightarrow> ('h, 'd) sled_db \<Rightarrow> string \<Rightarrow> string \<Rightarrow>
     ('e sled_error + unit) \<times> ('h, 'd) sled_db" where
  "sled_write E s k v =
     (let written = of_nat (length k) + of_nat (length v)
      in case db s of
           None \<Rightarrow> (Inl SledClosed, s)
         | Some h \<Rightarrow>
             (case raw_insert E h k v of
                (Inl e, h') \<Rightarrow> (Inl (SledIo e), s\<lparr>db := Some h'\<rparr>)
              | (Inr _, h') \<Rightarrow> (Inr (), pin written (s\<lparr>db := Some h'\<rparr>))))"

fun op_bytes :: "batch_op \<Rightarrow> nat" where
  "op_bytes (batch_op.Insert k v) = length k + length v"
| "op_bytes (Delete k) = length k"

definition sled_batch ::
  "('h, 'd, 'e) engine \<Rightarrow> ('h, 'd) sled_db \<Rightarrow> batch \<Rightarrow> ('e sled_error + unit) \<times> ('h, 'd) sled_db" where
  "sled_batch E s b =
     (let written = of_nat (sum_list (map op_bytes b))
      in case db s of
           None \<Rightarrow> (Inl SledClosed, s)
         | Some h \<Rightarrow>
             (case raw_batch E h b of
                (Inl e, h') \<Rightarrow> (Inl (SledIo e), s\<lparr>db := Some h'\<rparr>)
              | (Inr _, h') \<Rightarrow> (Inr (), pin written (s\<lparr>db := Some h'\<rparr>))))"

definition sled_flush ::
  "('h, 'd, 'e) engine \<Rightarrow> ('h, 'd) sled_db \<Rightarrow> ('e sled_error + unit) \<times> ('h, 'd) sled_db" where
  "sled_flush E s =
     (case db s of
        None \<Rightarrow> (Inl SledClosed, s)
      | Some h \<Rightarrow>
          (case raw_flush E h of
             (Inl e, h') \<Rightarrow> (Inl (SledIo e), s\<lparr>db := Some h'\<rparr>)
           | (Inr _, h') \<Rightarrow> (Inr (), s\<lparr>db := Some h'\<rparr>)))"

definition sled_clear ::
  "('h, 'd, 'e) engine \<Rightarrow> ('h, 'd) sled_db \<Rightarrow> ('e sled_error + unit) \<times> ('h, 'd) sled_db" where
  "sled_clear E s =
     (case db s of
        None \<Rightarrow> (Inl SledClosed, s)
      | Some h \<Rightarrow>
          (case raw_clear E h of
             (Inl e, h') \<Rightarrow> (Inl (SledIo e), s\<lparr>db := Some h'\<rparr>)
           | (Inr _, h') \<Rightarrow> (Inr (), s\<lparr>db := Some h'\<rparr>)))"

text \<open>The clock readings of one \<open>maintain\<close>, in the order the code takes them (nanoseconds): the
  check against \<open>next_reopen\<close>, the start, the end of the reopening, and the base of the next
  deadline. \<open>elapsed\<close> is the difference, zero if the clock went back.\<close>

record ticks =
  t_check :: nat
  t_start :: nat
  t_stop :: nat
  t_base :: nat

definition sled_maintain ::
  "('h, 'd, 'e) engine \<Rightarrow> ticks \<Rightarrow> ('h, 'd) sled_db \<Rightarrow> ('e sled_error + unit) \<times> ('h, 'd) sled_db" where
  "sled_maintain E t s =
     (if db s \<noteq> None \<and> (pinned s < cache_capacity_bytes s \<or> t_check t < next_reopen s)
      then (Inr (), s)
      else
        let reopen = (\<lambda>s'.
              (case raw_open E (directory s') of
                 Inl e \<Rightarrow> (Inl (SledIo e), s'\<lparr>db := None\<rparr>)
               | Inr h \<Rightarrow>
                   (Inr (), s'\<lparr>db := Some h, pinned := 0,
                                next_reopen := t_base t + (t_stop t - t_start t) * 9\<rparr>)))
        in case db s of
             None \<Rightarrow> reopen s
           | Some h \<Rightarrow>
               (case raw_flush E h of
                  (Inl e, h') \<Rightarrow> (Inl (SledIo e), s\<lparr>db := Some h'\<rparr>)
                | (Inr _, h') \<Rightarrow> reopen (s\<lparr>db := None, directory := raw_drop E h'\<rparr>)))"

definition sled_database :: "('h, 'd, 'e) engine \<Rightarrow> ticks \<Rightarrow> (('h, 'd) sled_db, 'e sled_error) database" where
  "sled_database E t =
     \<lparr>db_read = sled_read E, db_write = sled_write E, db_batch = sled_batch E,
      db_flush = sled_flush E, db_clear = sled_clear E, db_maintain = sled_maintain E t\<rparr>"

definition sled_view ::
  "('h \<Rightarrow> (string \<rightharpoonup> string)) \<Rightarrow> ('d \<Rightarrow> (string \<rightharpoonup> string)) \<Rightarrow> ('h, 'd) sled_db \<Rightarrow> (string \<rightharpoonup> string)" where
  "sled_view hview dview s = (case db s of Some h \<Rightarrow> hview h | None \<Rightarrow> dview (directory s))"

lemma pin_simps [simp]:
  "db (pin w s) = db s" "directory (pin w s) = directory s" "sled_view hv dv (pin w s) = sled_view hv dv s"
  "next_reopen (pin w s) = next_reopen s" "cache_capacity_bytes (pin w s) = cache_capacity_bytes s"
  by (simp_all add: pin_def sled_view_def cong: option.case_cong)

section \<open>RocksDB\<close>

text \<open>The RocksDB handle is used directly: no upkeep, and \<open>clear\<close> deletes every key the iterator
  yields, skipping those it cannot read.\<close>

definition rocks_clear :: "('h, 'd, 'e) engine \<Rightarrow> 'h \<Rightarrow> ('e + unit) \<times> 'h" where
  "rocks_clear E h =
     raw_batch E h (concat (map (\<lambda>it. case it of Inr k \<Rightarrow> [Delete k] | Inl _ \<Rightarrow> []) (raw_keys E h)))"

definition rocks_database :: "('h, 'd, 'e) engine \<Rightarrow> ('h, 'e) database" where
  "rocks_database E =
     \<lparr>db_read = raw_get E, db_write = raw_insert E, db_batch = raw_batch E,
      db_flush = raw_flush E, db_clear = rocks_clear E, db_maintain = (\<lambda>h. (Inr (), h))\<rparr>"

text \<open>The trait on an open handle of sled itself, which \<open>SledDb\<close> hands its operations to: each is the
  engine's own, and the upkeep is the trait's default, none.\<close>

definition sled_handle_database :: "('h, 'd, 'e) engine \<Rightarrow> ('h, 'e) database" where
  "sled_handle_database E =
     \<lparr>db_read = raw_get E, db_write = raw_insert E, db_batch = raw_batch E,
      db_flush = raw_flush E, db_clear = raw_clear E, db_maintain = (\<lambda>h. (Inr (), h))\<rparr>"

context raw_store
begin

lemma maintain_keeps: "sled_maintain E t s = (r, s') \<Longrightarrow> sled_view hview dview s' = sled_view hview dview s"
proof -
  have reopen: "sled_view hview dview s'' = dview (directory u)"
    if "(case raw_open E (directory u) of
           Inl e \<Rightarrow> (Inl (SledIo e), u\<lparr>db := None\<rparr>)
         | Inr h \<Rightarrow> (Inr (), u\<lparr>db := Some h, pinned := 0, next_reopen := n\<rparr>)) = (q, s'')" for u s'' q n
    using that open_view by (auto simp: sled_view_def split: sum.splits)
  assume m: "sled_maintain E t s = (r, s')"
  show ?thesis
  proof (cases "db s")
    case None
    with m reopen [of s] show ?thesis by (auto simp: sled_maintain_def sled_view_def)
  next
    case (Some h)
    obtain q h' where f: "raw_flush E h = (q, h')" by (cases "raw_flush E h")
    from raw_flush_view [OF f] have h': "hview h' = hview h" .
    show ?thesis
    proof (cases q)
      case (Inl e)
      with m Some f h' show ?thesis
        by (auto simp: sled_maintain_def sled_view_def split: if_splits)
    next
      case (Inr u)
      then have "dview (raw_drop E h') = hview h'" using drop_durable f by simp
      with m Some f h' Inr reopen [of "s\<lparr>db := None, directory := raw_drop E h'\<rparr>"] show ?thesis
        by (auto simp: sled_maintain_def sled_view_def split: if_splits)
    qed
  qed
qed

end

sublocale raw_store \<subseteq> sled: clearable_database "sled_database E t" "sled_view hview dview" for t
proof (unfold_locales, goal_cases)
  case (1 s k ov)
  then show ?case using get_ok by (auto simp: sled_database_def sled_read_def sled_view_def split: option.splits sum.splits)
next
  case (2 s k v s')
  then show ?case using insert_ok
    by (auto simp: sled_database_def sled_write_def sled_view_def pin_def Let_def split: option.splits sum.splits prod.splits)
next
  case (3 s k v e s')
  then show ?case using insert_err [unfolded insert_iff empty_iff]
    by (fastforce simp: sled_database_def sled_write_def sled_view_def Let_def split: option.splits sum.splits prod.splits)
next
  case (4 s b s')
  then show ?case using raw_batch_ok
    by (auto simp: sled_database_def sled_batch_def sled_view_def pin_def Let_def split: option.splits sum.splits prod.splits)
next
  case (5 s b e s')
  then show ?case using raw_batch_err [unfolded insert_iff empty_iff]
    by (fastforce simp: sled_database_def sled_batch_def sled_view_def Let_def split: option.splits sum.splits prod.splits)
next
  case (6 s r s')
  then show ?case using raw_flush_view
    by (auto simp: sled_database_def sled_flush_def sled_view_def split: option.splits sum.splits prod.splits)
next
  case (7 s r s')
  then show ?case using maintain_keeps by (simp add: sled_database_def)
next
  case (8 s s')
  then show ?case using raw_clear_ok
    by (auto simp: sled_database_def sled_clear_def sled_view_def split: option.splits sum.splits prod.splits)
qed


sublocale raw_store \<subseteq> handle: clearable_database "sled_handle_database E" hview
  using get_ok insert_ok insert_err raw_batch_ok raw_batch_err raw_flush_view raw_clear_ok
  by unfold_locales (simp_all add: sled_handle_database_def)

sublocale raw_store \<subseteq> rocks: generic_database "rocks_database E" hview
  using get_ok insert_ok insert_err raw_batch_ok raw_batch_err raw_flush_view
  by unfold_locales (simp_all add: rocks_database_def)

context raw_store
begin

lemma axioms_sled: "generic_database (sled_database E t) (sled_view hview dview)"
  by (rule sled.generic_database_axioms)

lemma axioms_rocks: "generic_database (rocks_database E) hview"
  by (rule rocks.generic_database_axioms)

lemma rocks_clear_empty:
  assumes "rocks_clear E h = (Inr (), h')" "\<forall>e. Inl e \<notin> set (raw_keys E h)"
  shows "hview h' = Map.empty"
proof
  fix k
  let ?ops = "\<lambda>xs. concat (map (\<lambda>it. case it of Inr k \<Rightarrow> [Delete k] | Inl _ \<Rightarrow> []) xs)"
  have ops: "?ops xs = map Delete (concat (map (\<lambda>it. case it of Inr k \<Rightarrow> [k] | Inl _ \<Rightarrow> []) xs))"
    for xs :: "('c + string) list"
    by (induction xs) (auto split: sum.split)
  have h': "hview h' = batch_effect (?ops (raw_keys E h)) (hview h)"
    using assms(1) raw_batch_ok by (simp add: rocks_clear_def)
  show "hview h' k = None"
  proof (cases "Inr k \<in> set (raw_keys E h)")
    case True
    then show ?thesis unfolding h' ops by (intro batch_effect_deletes) (auto split: sum.split intro!: bexI)
  next
    case False
    with keys_listed [of h k] assms(2) have "hview h k = None" by blast
    moreover have "k \<notin> op_key ` set (?ops (raw_keys E h))"
      using False by (auto split: sum.splits)
    ultimately show ?thesis unfolding h' by (simp add: batch_effect_untouched)
  qed
qed

end

section \<open>A sample engine\<close>

text \<open>A map in memory whose directory is the map itself: the engine of the concrete examples.\<close>

fun mem_op :: "batch_op \<Rightarrow> (string, string) btree \<Rightarrow> (string, string) btree" where
  "mem_op (batch_op.Insert k v) m = bt_insert k v m"
| "mem_op (Delete k) m = bt_remove k m"

definition mem_engine :: "((string, string) btree, (string, string) btree, string) engine" where
  "mem_engine =
     \<lparr>raw_get = (\<lambda>h k. Inr (bt_get h k)), raw_insert = (\<lambda>h k v. (Inr (), bt_insert k v h)),
      raw_batch = (\<lambda>h b. (Inr (), fold mem_op b h)), raw_flush = (\<lambda>h. (Inr (), h)),
      raw_clear = (\<lambda>h. (Inr (), [])), raw_keys = (\<lambda>h. map (Inr \<circ> fst) h),
      raw_open = Inr, raw_drop = id\<rparr>"

lemma mem_batch: "bt_get (fold mem_op b h) = batch_effect b (bt_get h)"
proof (induction b arbitrary: h)
  case (Cons x b)
  then show ?case by (cases x) (simp_all add: batch_effect_def)
qed (simp add: batch_effect_def)

interpretation mem: raw_store mem_engine bt_get bt_get
proof
  fix h :: "(string, string) btree" and k
  assume "bt_get h k \<noteq> None"
  then have "k \<in> fst ` set h" by (auto simp: bt_keys)
  then show "Inr k \<in> set (raw_keys mem_engine h) \<or> (\<exists>e. Inl e \<in> set (raw_keys mem_engine h))"
    by (auto simp: mem_engine_def)
qed (auto simp: mem_engine_def mem_batch bt_get_def)

section \<open>Properties\<close>

text \<open>The database task answers every request once, in order, and a read after a write of
  the same key, with no other write or deletion of that key in between, answers the value
  written, unless the engine cannot read at that point. This holds of the reopening sled wrapper and of
  RocksDB alike, whatever the engine does as long as it keeps its contract.\<close>

theorem task_reads_its_writes:
  assumes "raw_store E hview dview" "list_all (\<lambda>req. \<not> touches k req) reqs"
    and "fst (sled_write E s k v) = Inr ()" "fst (raw_insert E h k v) = Inr ()"
  shows "length (fst (database_processing (sled_database E t) s (Write k v # reqs @ [Read k]))) = length reqs + 2 \<and>
         last (fst (database_processing (sled_database E t) s (Write k v # reqs @ [Read k]))) =
           (case sled_read E (snd (database_processing (sled_database E t) s (Write k v # reqs))) k of
              Inl _ \<Rightarrow> None | Inr _ \<Rightarrow> Some v) \<and>
         last (fst (database_processing (rocks_database E) h (Write k v # reqs @ [Read k]))) =
           (case raw_get E (snd (database_processing (rocks_database E) h (Write k v # reqs))) k of
              Inl _ \<Rightarrow> None | Inr _ \<Rightarrow> Some v)"
proof -
  have w: "fst (db_write (sled_database E t) s k v) = Inr ()" "fst (db_write (rocks_database E) h k v) = Inr ()"
    using assms(3,4) by (simp_all add: sled_database_def rocks_database_def)
  note sled = raw_store.axioms_sled [OF assms(1)] and rocks = raw_store.axioms_rocks [OF assms(1)]
  have "db_read (sled_database E t) = sled_read E" "db_read (rocks_database E) = raw_get E"
    by (simp_all add: sled_database_def rocks_database_def)
  then show ?thesis
    using generic_database.read_after_write [OF sled assms(2) w(1)]
      generic_database.read_after_write [OF rocks assms(2) w(2)] generic_database.replies_length [OF sled]
    by simp
qed

definition mem_sled :: "((string, string) btree, (string, string) btree) sled_db" where
  "mem_sled = \<lparr>db = Some [(''b'', ''2'')], directory = [], cache_capacity_bytes = 1, pinned = 0, next_reopen = 0\<rparr>"

theorem task_reads_its_writes_witness:
  "last (fst (database_processing (rocks_database mem_engine) [] [Write ''a'' ''1'', Write ''b'' ''3'', Read ''a''])) =
     Some ''1''"
  using task_reads_its_writes [OF mem.raw_store_axioms, of "''a''" "[Write ''b'' ''3'']" mem_sled "''1''" "[]"]
  by (simp add: mem_sled_def sled_write_def mem_engine_def)

text \<open>C30. Upkeep of the sled wrapper never changes what the database holds, on any path: not
  when the flush fails, not when reopening fails (the data is then on disk), not when it
  succeeds. It leaves the wrapper alone while it is open and the writes since the last
  reopening are below the capacity or the deadline has not come; a successful reopening
  resets the count, and the next one is so late that reopening takes at most a tenth of the
  time.\<close>

theorem sled_upkeep:
  assumes "raw_store E hview dview" "sled_maintain E t s = (r, s')"
  shows "sled_view hview dview s' = sled_view hview dview s \<and>
         (db s \<noteq> None \<and> (pinned s < cache_capacity_bytes s \<or> t_check t < next_reopen s) \<longrightarrow>
            r = Inr () \<and> s' = s) \<and>
         (r = Inr () \<longrightarrow> db s' \<noteq> None) \<and>
         (r = Inr () \<and> s' \<noteq> s \<and> t_start t \<le> t_stop t \<and> t_stop t \<le> t_base t \<longrightarrow>
            pinned s' = 0 \<and> 10 * (t_stop t - t_start t) \<le> next_reopen s' - t_start t)"
proof (intro conjI)
  show "sled_view hview dview s' = sled_view hview dview s"
    by (rule raw_store.maintain_keeps [OF assms])
  show "db s \<noteq> None \<and> (pinned s < cache_capacity_bytes s \<or> t_check t < next_reopen s) \<longrightarrow> r = Inr () \<and> s' = s"
    using assms(2) by (auto simp: sled_maintain_def)
  show "r = Inr () \<longrightarrow> db s' \<noteq> None"
    using assms(2) by (auto simp: sled_maintain_def Let_def split: if_splits option.splits sum.splits prod.splits)
  show "r = Inr () \<and> s' \<noteq> s \<and> t_start t \<le> t_stop t \<and> t_stop t \<le> t_base t \<longrightarrow>
          pinned s' = 0 \<and> 10 * (t_stop t - t_start t) \<le> next_reopen s' - t_start t"
    using assms(2) by (auto simp: sled_maintain_def Let_def split: if_splits option.splits sum.splits prod.splits)
qed

theorem sled_upkeep_witness:
  "sled_view bt_get bt_get (snd (sled_maintain mem_engine \<lparr>t_check = 9, t_start = 10, t_stop = 12, t_base = 13\<rparr>
      (mem_sled\<lparr>pinned := 5\<rparr>))) = sled_view bt_get bt_get (mem_sled\<lparr>pinned := 5\<rparr>)"
  using sled_upkeep [OF mem.raw_store_axioms, of "\<lparr>t_check = 9, t_start = 10, t_stop = 12, t_base = 13\<rparr>"
      "mem_sled\<lparr>pinned := 5\<rparr>"]
  by (metis prod.collapse)

text \<open>When reopening has failed the wrapper is closed: every operation reports that and
  changes nothing, so reads look like cache misses; nothing is lost, and the upkeep after
  any request that can open the directory again brings all of it back.\<close>

theorem closed_database_recovers:
  assumes "raw_store E hview dview" "db s = None"
  shows "sled_read E s k = Inl SledClosed \<and> sled_write E s k v = (Inl SledClosed, s) \<and>
         sled_batch E s b = (Inl SledClosed, s) \<and> sled_flush E s = (Inl SledClosed, s) \<and>
         sled_clear E s = (Inl SledClosed, s) \<and>
         (\<forall>h. raw_open E (directory s) = Inr h \<longrightarrow>
            (\<exists>s'. serve_request (sled_database E t) s (Read k) = (None, s') \<and> db s' = Some h \<and>
                  hview h = dview (directory s)))"
  using assms(2) raw_store.open_view [OF assms(1)]
  by (auto simp: sled_read_def sled_write_def sled_batch_def sled_flush_def sled_clear_def
      serve_request_def sled_database_def sled_maintain_def)

theorem closed_database_recovers_witness:
  "db (snd (serve_request (sled_database mem_engine \<lparr>t_check = 1, t_start = 2, t_stop = 3, t_base = 4\<rparr>)
          (mem_sled\<lparr>db := None, directory := [(''b'', ''2'')]\<rparr>) (Read ''b''))) = Some [(''b'', ''2'')]"
  using closed_database_recovers [OF mem.raw_store_axioms, of "mem_sled\<lparr>db := None, directory := [(''b'', ''2'')]\<rparr>" "''b''" undefined undefined
      "\<lparr>t_check = 1, t_start = 2, t_stop = 3, t_base = 4\<rparr>"]
  by (auto simp: mem_engine_def)

text \<open>Clearing RocksDB, which is done by deleting the keys its iterator yields, leaves it
  empty when it reports success and the iterator yielded no error.\<close>

theorem rocks_clear_deletes_all:
  assumes "raw_store E hview dview" "rocks_clear E h = (Inr (), h')"
    and "\<forall>e. Inl e \<notin> set (raw_keys E h)"
  shows "hview h' = Map.empty"
  by (rule raw_store.rocks_clear_empty [OF assms])

theorem rocks_clear_deletes_all_witness:
  "bt_get (snd (rocks_clear mem_engine [(''a'', ''1''), (''b'', ''2'')])) = Map.empty"
proof -
  have "\<exists>h'. rocks_clear mem_engine [(''a'', ''1''), (''b'', ''2'')] = (Inr (), h')"
    by (simp add: rocks_clear_def mem_engine_def)
  then obtain h' where h': "rocks_clear mem_engine [(''a'', ''1''), (''b'', ''2'')] = (Inr (), h')" by blast
  have "\<forall>e. Inl e \<notin> set (raw_keys mem_engine [(''a'', ''1''), (''b'', ''2'')])" by (simp add: mem_engine_def)
  from rocks_clear_deletes_all [OF mem.raw_store_axioms h' this] h' show ?thesis by simp
qed

end
