(* ===== verification/Selection.thy ===== *)
theory Selection
  imports RpcTypes
begin

text \<open>
  \<open>src/src/balancer/selection/select.rs\<close>: the choice of the endpoint for the next request,
  in the three variants the crate's features select (\<open>algo\<close> the default, \<open>algo_random\<close>,
  \<open>algo_old\<close>). The sorting routine (\<open>sort_unstable_by_key\<close>) is an argument: any routine that
  permutes and sorts. The clock (microseconds since the epoch) and the random index are
  arguments too.
\<close>

section \<open>Sorting by latency\<close>

definition latency_key :: "rpc list \<Rightarrow> nat \<Rightarrow> u64" where
  "latency_key data i = f64_to_uint (latency (status (data ! i)))"

definition argsort :: "((nat \<Rightarrow> u64) \<Rightarrow> nat list \<Rightarrow> nat list) \<Rightarrow> rpc list \<Rightarrow> nat list" where
  "argsort srt data = srt (latency_key data) [0..<length data]"

locale unstable_sort =
  fixes srt :: "(nat \<Rightarrow> u64) \<Rightarrow> nat list \<Rightarrow> nat list"
  assumes srt_mset: "mset (srt f xs) = mset xs"
    and srt_sorted: "sorted (map f (srt f xs))"
begin

lemma argsort_mset: "mset (argsort srt data) = mset [0..<length data]"
  by (simp add: argsort_def srt_mset)

lemma argsort_set [simp]: "set (argsort srt data) = {..<length data}"
  using mset_eq_setD [OF argsort_mset [of data]] by (simp add: atLeast0LessThan)

lemma argsort_distinct: "distinct (argsort srt data)"
  using mset_eq_imp_distinct_iff [OF argsort_mset [of data]] by simp

lemma argsort_length: "length (argsort srt data) = length data"
  using mset_eq_length [OF argsort_mset [of data]] by simp

lemma argsort_sorted: "sorted (map (latency_key data) (argsort srt data))"
  by (simp add: argsort_def srt_sorted)

lemma argsort_ne: "data \<noteq> [] \<Longrightarrow> argsort srt data \<noteq> []"
  using argsort_length [of data] by auto

lemma argsort_nth:
  assumes "k < length data" shows "argsort srt data ! k < length data"
proof -
  have "argsort srt data ! k \<in> set (argsort srt data)"
    using assms argsort_length [of data] nth_mem by metis
  then show ?thesis by simp
qed

lemma argsort_hd_fastest:
  assumes "j < length data"
  shows "latency_key data (argsort srt data ! 0) \<le> latency_key data j"
proof -
  from assms have "j \<in> set (argsort srt data)" by simp
  then obtain k where k: "k < length (argsort srt data)" "argsort srt data ! k = j"
    unfolding in_set_conv_nth by blast
  have "map (latency_key data) (argsort srt data) ! 0 \<le> map (latency_key data) (argsort srt data) ! k"
    by (rule sorted_nth_mono [OF argsort_sorted]) (use k in auto)
  moreover have "0 < length (argsort srt data)" using k by linarith
  ultimately show ?thesis using k by (simp add: nth_map)
qed

end

interpretation std_sort: unstable_sort sort_key
  by unfold_locales simp_all

section \<open>The default algorithm\<close>

definition eligible :: "u128 \<Rightarrow> rpc \<Rightarrow> bool" where
  "eligible now r \<longleftrightarrow>
     consecutive r < max_consecutive r \<and> min_time_delta r < saturating_sub now (last_used r)"

definition algo_step ::
  "u128 \<Rightarrow> rpc list \<times> nat \<times> u32 \<Rightarrow> nat \<Rightarrow> rpc list \<times> nat \<times> u32" where
  "algo_step now st i =
     (let (l, choice, choice_consecutive) = st;
          r = l ! i;
          (choice, choice_consecutive) =
            (if eligible now r then (i, consecutive r) else (choice, choice_consecutive))
      in (l[i := r\<lparr>consecutive := 0\<rparr>], choice, choice_consecutive))"

definition algo ::
  "((nat \<Rightarrow> u64) \<Rightarrow> nat list \<Rightarrow> nat list) \<Rightarrow> u128 \<Rightarrow> rpc list \<Rightarrow> (rpc \<times> nat option) \<times> rpc list" where
  "algo srt now l =
     (let indices = argsort srt l;
          (l1, choice, choice_consecutive) = foldl (algo_step now) (l, indices ! 0, 0) (rev indices);
          r = (l1 ! choice)\<lparr>consecutive := choice_consecutive + 1, last_used := now\<rparr>
      in ((r, Some choice), l1[choice := r]))"

text \<open>\<open>selection-random\<close>: \<open>index\<close> is what \<open>gen_range(0..list.len())\<close> gives.\<close>

definition algo_random :: "nat \<Rightarrow> rpc list \<Rightarrow> (rpc \<times> nat option) \<times> rpc list" where
  "algo_random index l = ((l ! index, Some index), l)"

text \<open>\<open>old-weighted-round-robin\<close>.\<close>

definition algo_old ::
  "((nat \<Rightarrow> u64) \<Rightarrow> nat list \<Rightarrow> nat list) \<Rightarrow> rpc list \<Rightarrow> (rpc \<times> nat option) \<times> rpc list" where
  "algo_old srt l =
     (let indices = argsort srt l; a = indices ! 0; b = indices ! 1
      in if max_consecutive (l ! a) \<le> consecutive (l ! a)
         then
           let l1 = l[b := (l ! b)\<lparr>consecutive := 1\<rparr>];
               l2 = l1[a := (l1 ! a)\<lparr>consecutive := 0\<rparr>]
           in ((l2 ! b, Some b), l2)
         else
           let l1 = l[a := (l ! a)\<lparr>consecutive := consecutive (l ! a) + 1\<rparr>]
           in ((l1 ! a, Some a), l1))"

text \<open>The entry point. \<open>dflt\<close> is \<open>Rpc::default()\<close>, which stands in when the list is empty.\<close>

definition pick ::
  "(rpc list \<Rightarrow> (rpc \<times> nat option) \<times> rpc list) \<Rightarrow> rpc \<Rightarrow> rpc list \<Rightarrow> (rpc \<times> nat option) \<times> rpc list" where
  "pick alg dflt l =
     (if length l = 1 then ((l ! 0, Some 0), l)
      else if l = [] then ((dflt, None), l)
      else alg l)"

section \<open>What every algorithm keeps\<close>

text \<open>All of an endpoint but the two fields the algorithms write.\<close>

definition core :: "rpc \<Rightarrow> rpc" where
  "core r = r\<lparr>consecutive := 0, last_used := 0\<rparr>"

lemma core_simps [simp]:
  "core (r\<lparr>consecutive := c\<rparr>) = core r"
  "core (r\<lparr>last_used := t\<rparr>) = core r"
  "core (r\<lparr>consecutive := c, last_used := t\<rparr>) = core r"
  by (simp_all add: core_def)

lemma core_fields:
  assumes "core r = core s"
  shows "rpc_id r = rpc_id s" "rpc_url r = rpc_url s" "ws_url r = ws_url s"
    "status r = status s" "max_consecutive r = max_consecutive s" "rpc_name r = rpc_name s"
    "min_time_delta r = min_time_delta s"
  using arg_cong [OF assms, of rpc_id] arg_cong [OF assms, of rpc_url]
    arg_cong [OF assms, of ws_url] arg_cong [OF assms, of status]
    arg_cong [OF assms, of max_consecutive] arg_cong [OF assms, of rpc_name]
    arg_cong [OF assms, of min_time_delta]
  by (simp_all add: core_def)

locale selector =
  fixes alg :: "rpc list \<Rightarrow> (rpc \<times> nat option) \<times> rpc list"
  assumes alg_core: "2 \<le> length l \<Longrightarrow> map core (snd (alg l)) = map core l"
    and alg_choice: "2 \<le> length l \<Longrightarrow>
      \<exists>i<length l. snd (fst (alg l)) = Some i \<and> fst (fst (alg l)) = snd (alg l) ! i"
begin

lemma pick_core: "map core (snd (pick alg d l)) = map core l"
  using alg_core [of l] by (cases l; cases "tl l") (auto simp: pick_def)

lemma pick_length: "length (snd (pick alg d l)) = length l"
  using pick_core by (metis length_map)

lemma pick_ids: "map rpc_id (snd (pick alg d l)) = map rpc_id l"
proof -
  have "map (rpc_id \<circ> core) (snd (pick alg d l)) = map (rpc_id \<circ> core) l"
    using pick_core [of d l] by (metis map_map)
  moreover have "rpc_id \<circ> core = rpc_id" by (auto simp: core_def)
  ultimately show ?thesis by simp
qed

lemma pick_None: "snd (fst (pick alg d l)) = None \<longleftrightarrow> l = []"
proof (cases "2 \<le> length l")
  case True
  from alg_choice [OF True] have "snd (fst (alg l)) \<noteq> None" by auto
  with True show ?thesis by (auto simp: pick_def)
next
  case False
  then have "length l = 0 \<or> length l = 1" by linarith
  then show ?thesis by (auto simp: pick_def)
qed

lemma pick_Some:
  assumes "snd (fst (pick alg d l)) = Some i"
  shows "i < length l \<and> fst (fst (pick alg d l)) = snd (pick alg d l) ! i"
proof (cases "2 \<le> length l")
  case True
  from alg_choice [OF True] assms True show ?thesis by (auto simp: pick_def)
next
  case False
  then have "length l = 0 \<or> length l = 1" by linarith
  with assms show ?thesis by (auto simp: pick_def)
qed

lemma pick_keeps:
  "(snd (fst (pick alg dflt l)) = None \<longleftrightarrow> l = []) \<and>
   (\<forall>i. snd (fst (pick alg dflt l)) = Some i \<longrightarrow>
      i < length l \<and> fst (fst (pick alg dflt l)) = snd (pick alg dflt l) ! i) \<and>
   map core (snd (pick alg dflt l)) = map core l"
  by (intro conjI allI impI pick_None pick_core pick_Some)

end

section \<open>The default algorithm picks the fastest endpoint that is free\<close>

text \<open>The loop runs through the indices from the slowest to the fastest; its result in closed
  form: the choice is the fastest eligible index, and every counter visited is reset.\<close>

definition reset :: "nat set \<Rightarrow> rpc list \<Rightarrow> rpc list" where
  "reset I l = map (\<lambda>i. if i \<in> I then (l ! i)\<lparr>consecutive := 0\<rparr> else l ! i) [0..<length l]"

lemma reset_length [simp]: "length (reset I l) = length l"
  by (simp add: reset_def)

lemma reset_nth:
  "i < length l \<Longrightarrow> reset I l ! i = (if i \<in> I then (l ! i)\<lparr>consecutive := 0\<rparr> else l ! i)"
  by (simp add: reset_def)

lemma reset_insert:
  "i < length l \<Longrightarrow> (reset I l)[i := (reset I l ! i)\<lparr>consecutive := 0\<rparr>] = reset (insert i I) l"
  by (rule nth_equalityI) (auto simp: reset_nth nth_list_update)

lemma reset_empty: "reset {} l = l"
  by (rule nth_equalityI) (auto simp: reset_nth)

lemma reset_core: "map core (reset I l) = map core l"
  by (rule nth_equalityI) (auto simp: reset_nth)

lemma algo_loop:
  assumes "distinct xs" "set xs \<subseteq> {..<length l}"
  shows "foldl (algo_step now) (l, c0, 0) (rev xs) =
           (case find (\<lambda>i. eligible now (l ! i)) xs of
              Some i \<Rightarrow> (reset (set xs) l, i, consecutive (l ! i))
            | None \<Rightarrow> (reset (set xs) l, c0, 0))"
  using assms
proof (induction xs)
  case (Cons x xs)
  then have x: "x < length l" "x \<notin> set xs" by auto
  have r: "reset (set xs) l ! x = l ! x" using x by (simp add: reset_nth)
  have u: "(reset (set xs) l)[x := (l ! x)\<lparr>consecutive := 0\<rparr>] = reset (insert x (set xs)) l"
    using reset_insert [OF x(1), of "set xs"] r by simp
  from Cons have IH: "foldl (algo_step now) (l, c0, 0) (rev xs) =
           (case find (\<lambda>i. eligible now (l ! i)) xs of
              Some i \<Rightarrow> (reset (set xs) l, i, consecutive (l ! i))
            | None \<Rightarrow> (reset (set xs) l, c0, 0))" by simp
  show ?case
    unfolding rev.simps foldl_append IH
    by (cases "find (\<lambda>i. eligible now (l ! i)) xs") (simp_all add: algo_step_def r u Let_def)
qed (simp add: reset_empty)

definition chosen :: "((nat \<Rightarrow> u64) \<Rightarrow> nat list \<Rightarrow> nat list) \<Rightarrow> u128 \<Rightarrow> rpc list \<Rightarrow> nat" where
  "chosen srt now l =
     (case find (\<lambda>i. eligible now (l ! i)) (argsort srt l) of
        Some i \<Rightarrow> i
      | None \<Rightarrow> argsort srt l ! 0)"

definition bumped :: "u128 \<Rightarrow> rpc \<Rightarrow> rpc" where
  "bumped now r =
     r\<lparr>consecutive := (if eligible now r then consecutive r else 0) + 1, last_used := now\<rparr>"

context unstable_sort
begin

lemma chosen_less: "l \<noteq> [] \<Longrightarrow> chosen srt now l < length l"
  using argsort_nth [of 0 l]
  by (auto simp: chosen_def split: option.split dest!: find_Some)

lemma chosen_not_eligible:
  "l \<noteq> [] \<Longrightarrow> \<not> eligible now (l ! chosen srt now l) \<Longrightarrow>
   find (\<lambda>i. eligible now (l ! i)) (argsort srt l) = None"
  by (cases "find (\<lambda>i. eligible now (l ! i)) (argsort srt l)")
     (auto simp: chosen_def dest: find_Some)

lemma algo_closed:
  fixes now :: u128
  assumes "l \<noteq> []"
  defines "c \<equiv> chosen srt now l"
  shows "algo srt now l =
           ((bumped now (l ! c), Some c),
            (reset {..<length l} l)[c := bumped now (l ! c)])"
proof -
  have loop: "foldl (algo_step now) (l, argsort srt l ! 0, 0) (rev (argsort srt l)) =
      (case find (\<lambda>i. eligible now (l ! i)) (argsort srt l) of
         Some i \<Rightarrow> (reset {..<length l} l, i, consecutive (l ! i))
       | None \<Rightarrow> (reset {..<length l} l, argsort srt l ! 0, 0))"
    using algo_loop [OF argsort_distinct, of l l now] unfolding argsort_set by simp
  have c: "c < length l" unfolding c_def by (rule chosen_less [OF assms(1)])
  show ?thesis
  proof (cases "find (\<lambda>i. eligible now (l ! i)) (argsort srt l)")
    case None
    then have cc: "c = argsort srt l ! 0" by (simp add: c_def chosen_def)
    have "\<not> eligible now (l ! c)" using None c by (auto simp: find_None)
    with None c cc show ?thesis
      by (simp add: algo_def loop Let_def bumped_def reset_nth)
  next
    case (Some i)
    then have "c = i" "eligible now (l ! i)" by (auto simp: c_def chosen_def dest: find_Some)
    with Some c show ?thesis
      by (simp add: algo_def loop Let_def bumped_def reset_nth)
  qed
qed

lemma chosen_fastest_eligible:
  assumes "l \<noteq> []" "j < length l" "eligible now (l ! j)"
  shows "eligible now (l ! chosen srt now l) \<and>
         latency_key l (chosen srt now l) \<le> latency_key l j"
proof -
  let ?P = "\<lambda>i. eligible now (l ! i)"
  from assms have "j \<in> set (argsort srt l)" by simp
  then obtain k where k: "k < length (argsort srt l)" "argsort srt l ! k = j"
    unfolding in_set_conv_nth by blast
  from assms(2,3) have "find ?P (argsort srt l) \<noteq> None" by (auto simp: find_None)
  then obtain i where i: "find ?P (argsort srt l) = Some i" by auto
  then obtain m where m: "m < length (argsort srt l)" "?P (argsort srt l ! m)"
    "i = argsort srt l ! m" "\<forall>n<m. \<not> ?P (argsort srt l ! n)"
    unfolding find_Some_iff by blast
  have "m \<le> k" using m(4) k(2) assms(3) by (metis not_le)
  then have "map (latency_key l) (argsort srt l) ! m \<le> map (latency_key l) (argsort srt l) ! k"
    using k(1) by (intro sorted_nth_mono [OF argsort_sorted]) auto
  then show ?thesis using i k m by (simp add: chosen_def)
qed

end

interpretation default_algo: selector "algo sort_key now"
  for now
proof
  fix l :: "rpc list" assume "2 \<le> length l"
  then have l: "l \<noteq> []" by auto
  note closed = std_sort.algo_closed [OF l, of now]
  have c: "chosen sort_key now l < length l" by (rule std_sort.chosen_less [OF l])
  show "map core (snd (algo sort_key now l)) = map core l"
    unfolding closed using c
    by (simp add: map_update reset_core bumped_def list_update_same_conv)
  show "\<exists>i<length l. snd (fst (algo sort_key now l)) = Some i \<and>
          fst (fst (algo sort_key now l)) = snd (algo sort_key now l) ! i"
    unfolding closed using c by auto
qed

section \<open>The other algorithms\<close>

interpretation random_algo: selector "\<lambda>l. algo_random (k mod length l) l"
  for k
proof
  fix l :: "rpc list" assume "2 \<le> length l"
  then have "k mod length l < length l" by (intro mod_less_divisor) linarith
  then show "\<exists>i<length l. snd (fst (algo_random (k mod length l) l)) = Some i \<and>
      fst (fst (algo_random (k mod length l) l)) = snd (algo_random (k mod length l) l) ! i"
    by (simp add: algo_random_def)
qed (simp add: algo_random_def)

interpretation old_algo: selector "algo_old sort_key"
proof
  fix l :: "rpc list" assume l: "2 \<le> length l"
  let ?a = "argsort sort_key l ! 0" and ?b = "argsort sort_key l ! 1"
  have ab: "?a < length l" "?b < length l"
    using l std_sort.argsort_nth [of 0 l] std_sort.argsort_nth [of 1 l] by linarith+
  have upd: "map core (xs[i := x]) = map core xs"
    if "i < length xs" "core x = core (xs ! i)" for i x and xs :: "rpc list"
    using that by (simp add: map_update list_update_same_conv)
  show "map core (snd (algo_old sort_key l)) = map core l"
    using ab by (simp add: algo_old_def Let_def upd nth_list_update)
  show "\<exists>i<length l. snd (fst (algo_old sort_key l)) = Some i \<and>
          fst (fst (algo_old sort_key l)) = snd (algo_old sort_key l) ! i"
    using ab by (auto simp: algo_old_def Let_def)
qed

section \<open>Properties of the choice\<close>


text \<open>The bookkeeping of the default algorithm: the endpoint picked is stamped with the
  current time and its counter goes up by one without wrapping (from zero when it was only
  the fallback), every other endpoint's counter is reset and nothing else changes.\<close>

theorem pick_bookkeeping:
  assumes "2 \<le> length l"
  shows "\<exists>i. snd (fst (pick (algo sort_key now) dflt l)) = Some i \<and>
           (let l' = snd (pick (algo sort_key now) dflt l); r' = l' ! i
            in map core l' = map core l \<and> fst (fst (pick (algo sort_key now) dflt l)) = r' \<and>
               last_used r' = now \<and>
               unat (consecutive r') =
                 Suc (if eligible now (l ! i) then unat (consecutive (l ! i)) else 0) \<and>
               (\<forall>j<length l. j \<noteq> i \<longrightarrow> l' ! j = (l ! j)\<lparr>consecutive := 0\<rparr>))"
proof -
  from assms have l: "l \<noteq> []" "length l \<noteq> 1" by auto
  let ?c = "chosen sort_key now l"
  have p: "pick (algo sort_key now) dflt l =
      ((bumped now (l ! ?c), Some ?c), (reset {..<length l} l)[?c := bumped now (l ! ?c)])"
    using l by (simp add: pick_def std_sort.algo_closed)
  have c: "?c < length l" by (rule std_sort.chosen_less [OF l(1)])
  have "unat (consecutive (bumped now (l ! ?c))) =
      Suc (if eligible now (l ! ?c) then unat (consecutive (l ! ?c)) else 0)"
    unfolding bumped_def eligible_def using unat_Suc_less by auto
  moreover have "map core (snd (pick (algo sort_key now) dflt l)) = map core l"
    by (rule default_algo.pick_core)
  ultimately show ?thesis using c unfolding p
    by (auto simp: Let_def reset_nth bumped_def)
qed

text \<open>Whatever selection feature is compiled in, a pick returns no endpoint only when
  the list is empty, returns the entry it names as it is after the call, and keeps every
  endpoint of the list in its place with its identity, URLs, limits and status.\<close>

theorem pick_keeps_endpoints:
  assumes "alg \<in> {algo sort_key now, \<lambda>l. algo_random (k mod length l) l, algo_old sort_key}"
  shows "(snd (fst (pick alg dflt l)) = None \<longleftrightarrow> l = []) \<and>
         (\<forall>i. snd (fst (pick alg dflt l)) = Some i \<longrightarrow>
            i < length l \<and> fst (fst (pick alg dflt l)) = snd (pick alg dflt l) ! i) \<and>
         map core (snd (pick alg dflt l)) = map core l"
proof -
  from assms consider "alg = algo sort_key now" | "alg = (\<lambda>l. algo_random (k mod length l) l)"
    | "alg = algo_old sort_key" by blast
  then show ?thesis
    by cases (hypsubst, rule default_algo.pick_keeps random_algo.pick_keeps old_algo.pick_keeps)+
qed

section \<open>Concrete pools\<close>

definition demo_url :: url where
  "demo_url = \<lparr>scheme = ''http'', host_str = Some ''a'', port = None, url_text = ''http://a/''\<rparr>"

definition demo_rpc :: "usize \<Rightarrow> rat \<Rightarrow> u32 \<Rightarrow> rpc" where
  "demo_rpc i lat mc =
     \<lparr>rpc_id = i, rpc_name = ''a'', rpc_url = demo_url, ws_url = None,
      status = status_default\<lparr>latency := Fin lat, ma_length := Fin 3\<rparr>,
      max_consecutive = mc, consecutive = 0, last_used = 0, min_time_delta = 0\<rparr>"

definition demo_pool :: "rpc list" where
  "demo_pool = [demo_rpc 1 7 2, demo_rpc 2 3 2, demo_rpc 3 1 0]"

lemma demo_pool_length: "length demo_pool = 3"
  by (simp add: demo_pool_def)


theorem pick_bookkeeping_witness:
  "\<exists>i. snd (fst (pick (algo sort_key 100) (demo_rpc 9 0 0) demo_pool)) = Some i \<and>
     last_used (snd (pick (algo sort_key 100) (demo_rpc 9 0 0) demo_pool) ! i) = 100"
  using pick_bookkeeping [of demo_pool 100 "demo_rpc 9 0 0"]
  by (auto simp: demo_pool_length Let_def)

theorem pick_keeps_endpoints_witness:
  "map core (snd (pick (algo_old sort_key) (demo_rpc 9 0 0) demo_pool)) = map core demo_pool"
  using pick_keeps_endpoints [of "algo_old sort_key" 0 0 "demo_rpc 9 0 0" demo_pool] by simp

end
