(* ===== verification/Processing.thy ===== *)
theory Processing
  imports Database Selection
begin

text \<open>
  \<open>src/src/balancer/processing.rs\<close>: what is written to the cache after a response, and the
  latency update of the endpoint that gave it. \<open>cache_query\<close> first records the key of the
  request under its block in the head cache (\<open>cache_record\<close>), then sends the response to the
  database task (\<open>cache_store\<close>); the two halves are separate definitions because other tasks
  may run in between.
\<close>

type_synonym head_cache = "(u64, string list) btree"

record cache_args =
  finalized_rx :: u64
  named_numbers :: "named_blocknumbers rwlock"
  args_head_cache :: "head_cache rwlock"

definition push_key :: "u64 \<Rightarrow> string \<Rightarrow> head_cache \<Rightarrow> head_cache" where
  "push_key num k hc = bt_insert num ((case bt_get hc num of None \<Rightarrow> [] | Some ks \<Rightarrow> ks) @ [k]) hc"

text \<open>The first half: the block of the request and the head cache with its key.\<close>

definition cache_record ::
  "serde \<Rightarrow> bool \<Rightarrow> cache_args \<Rightarrow> string \<Rightarrow> json \<Rightarrow> string \<Rightarrow> (u64 option \<times> head_cache rwlock) outcome" where
  "cache_record S nc args rx meth tx_hash =
     (let hc = args_head_cache args
      in if can_cache nc (to_text S meth) rx
         then obind (get_block_number_from_request S meth (named_numbers args))
                (\<lambda>num. case num of
                   None \<Rightarrow> Ret (None, hc)
                 | Some n \<Rightarrow>
                     (if finalized_rx args < n
                      then if poisoned hc then Panic
                           else Ret (Some n, hc\<lparr>contents := push_key n tx_hash (contents hc)\<rparr>)
                      else Ret (Some n, hc)))
         else Ret (None, hc))"

text \<open>The second half: the response with its id replaced by \<open>null\<close>.\<close>

definition cache_store :: "serde \<Rightarrow> string \<Rightarrow> string \<Rightarrow> request_kind list" where
  "cache_store S rx tx_hash =
     (case simd_parse S rx of
        Inl _ \<Rightarrow> []
      | Inr rx_value \<Rightarrow>
          (case json_get ''id'' rx_value of
             None \<Rightarrow> []
           | Some _ \<Rightarrow>
               (case jset ''id'' JNull rx_value of
                  Ret rx_value' \<Rightarrow> [Write tx_hash (simd_to_vec S rx_value')]
                | Panic \<Rightarrow> [])))"

definition cache_query ::
  "serde \<Rightarrow> bool \<Rightarrow> cache_args \<Rightarrow> string \<Rightarrow> json \<Rightarrow> string \<Rightarrow>
     (head_cache rwlock \<times> request_kind list) outcome" where
  "cache_query S nc args rx meth tx_hash =
     obind (cache_record S nc args rx meth tx_hash)
       (\<lambda>(num, hc). Ret (hc, case num of None \<Rightarrow> [] | Some _ \<Rightarrow> cache_store S rx tx_hash))"

text \<open>A panic of \<open>update_latency\<close> happens under the write guard and poisons the list.\<close>

definition update_rpc_latency ::
  "rpc list rwlock \<Rightarrow> usize \<Rightarrow> nat \<Rightarrow> unit outcome \<times> rpc list rwlock" where
  "update_rpc_latency rpc_list i nanos =
     (case position (\<lambda>r. rpc_id r = i) (contents rpc_list) of
        None \<Rightarrow> (Ret (), rpc_list)
      | Some j \<Rightarrow>
          (case update_latency (f64_of_nat nanos) (contents rpc_list ! j) of
             Ret r \<Rightarrow> (Ret (), rpc_list\<lparr>contents := (contents rpc_list)[j := r]\<rparr>)
           | Panic \<Rightarrow> (Panic, rpc_list\<lparr>poisoned := True\<rparr>)))"

section \<open>What reaches the database\<close>

lemma push_key_get:
  "bt_get (push_key n k hc) =
     (bt_get hc)(n \<mapsto> (case bt_get hc n of None \<Rightarrow> [] | Some ks \<Rightarrow> ks) @ [k])"
  by (simp add: push_key_def)

lemma push_key_wf [simp]: "bt_wf hc \<Longrightarrow> bt_wf (push_key n k hc)"
  by (simp add: push_key_def)

lemma cache_record_cases:
  assumes "cache_record S nc args rx m h = Ret (num, hc')"
  shows "(num = None \<and> hc' = args_head_cache args) \<or>
    (\<exists>n. num = Some n \<and> can_cache nc (to_text S m) rx \<and>
         get_block_number_from_request S m (named_numbers args) = Ret (Some n) \<and>
         hc' = (if finalized_rx args < n
                then (args_head_cache args)\<lparr>contents := push_key n h (contents (args_head_cache args))\<rparr>
                else args_head_cache args))"
proof (cases "can_cache nc (to_text S m) rx")
  case True
  show ?thesis
  proof (cases "get_block_number_from_request S m (named_numbers args)")
    case (Ret x)
    with assms True show ?thesis
      by (cases x) (simp_all add: cache_record_def Let_def split: if_splits)
  qed (use assms True in \<open>simp add: cache_record_def Let_def\<close>)
qed (use assms in \<open>simp add: cache_record_def Let_def\<close>)

lemma cache_record_Some:
  assumes "cache_record S nc args rx m h = Ret (Some n, hc')"
  shows "can_cache nc (to_text S m) rx" "get_block_number_from_request S m (named_numbers args) = Ret (Some n)"
    "contents hc' = (if finalized_rx args < n then push_key n h (contents (args_head_cache args))
                     else contents (args_head_cache args))"
    "poisoned hc' = poisoned (args_head_cache args)"
  using cache_record_cases [OF assms] by auto

lemma cache_record_None:
  "cache_record S nc args rx m h = Ret (None, hc') \<Longrightarrow> hc' = args_head_cache args"
  by (auto dest: cache_record_cases)

lemma cache_store_cases:
  "cache_store S rx h = [] \<or>
   (\<exists>j j'. simd_parse S rx = Inr j \<and> jset ''id'' JNull j = Ret j' \<and>
          cache_store S rx h = [Write h (simd_to_vec S j')])"
  by (auto simp: cache_store_def split: option.splits sum.splits outcome.splits)

lemma cache_query_cases:
  assumes "cache_query S nc args rx m h = Ret (hc', reqs)"
  shows "\<exists>num. cache_record S nc args rx m h = Ret (num, hc') \<and>
           reqs = (case num of None \<Rightarrow> [] | Some n \<Rightarrow> cache_store S rx h)"
proof (cases "cache_record S nc args rx m h")
  case (Ret x)
  with assms show ?thesis by (cases x) (simp add: cache_query_def)
qed (use assms in \<open>simp add: cache_query_def\<close>)

lemma cache_query_writes:
  assumes "cache_query S nc args rx m h = Ret (hc', Write k v # reqs)"
  shows "\<exists>n. cache_record S nc args rx m h = Ret (Some n, hc') \<and> k = h \<and> reqs = [] \<and>
             (\<exists>j j'. simd_parse S rx = Inr j \<and> jset ''id'' JNull j = Ret j' \<and> v = simd_to_vec S j')"
  using cache_query_cases [OF assms] cache_store_cases [of S rx h] by (auto split: option.splits)

lemma cache_write_facts:
  assumes "cache_query S nc args rx m h = Ret (hc', reqs)" "req \<in> set reqs"
  shows "\<exists>n v. req = Write h v \<and> reqs = [req] \<and> \<not> has_block_tag (to_text S m) \<and>
           \<not> contains rx ''error'' \<and> \<not> contains rx ''null'' \<and>
           get_block_number_from_request S m (named_numbers args) = Ret (Some n) \<and>
           (n \<le> finalized_rx args \<or> (\<exists>ks. bt_get (contents hc') n = Some ks \<and> h \<in> set ks)) \<and>
           (\<exists>j j'. simd_parse S rx = Inr j \<and> jset ''id'' JNull j = Ret j' \<and> jindex j' ''id'' = JNull \<and>
                   v = simd_to_vec S j')"
proof -
  obtain k v where r: "reqs = [Write k v]"
    using cache_query_cases [OF assms(1)] cache_store_cases [of S rx h] assms(2)
    by (auto split: option.splits)
  from assms(1) r obtain n where n: "cache_record S nc args rx m h = Ret (Some n, hc')" "k = h"
    "\<exists>j j'. simd_parse S rx = Inr j \<and> jset ''id'' JNull j = Ret j' \<and> v = simd_to_vec S j'"
    using cache_query_writes [of S nc args rx m h hc' k v "[]"] by auto
  note rec = cache_record_Some [OF n(1)]
  have "n \<le> finalized_rx args \<or> (\<exists>ks. bt_get (contents hc') n = Some ks \<and> h \<in> set ks)"
    by (cases "finalized_rx args < n") (auto simp: rec(3) push_key_get)
  moreover have "\<exists>j j'. simd_parse S rx = Inr j \<and> jset ''id'' JNull j = Ret j' \<and>
      jindex j' ''id'' = JNull \<and> v = simd_to_vec S j'"
    using n(3) jindex_jset by auto
  ultimately show ?thesis
    using assms(2) r n(2) rec(2) can_cache_no_tag [OF rec(1)] can_cache_no_error [OF rec(1)] by auto
qed

text \<open>What \<open>cache_query\<close> writes: at most one entry, under the hash of the request, only for
  a cacheable request whose text names no block by tag, answered without error, and about a
  known block; and unless that block is final already its key is in the head cache before
  the write is sent, so that a reorganisation can find it. The stored response carries a null
  id.\<close>

theorem cache_write_is_recorded:
  assumes "cache_query S nc args rx m h = Ret (hc', reqs)" "req \<in> set reqs"
  shows "\<exists>n v. req = Write h v \<and> reqs = [req] \<and> \<not> has_block_tag (to_text S m) \<and>
           \<not> contains rx ''error'' \<and> \<not> contains rx ''null'' \<and>
           get_block_number_from_request S m (named_numbers args) = Ret (Some n) \<and>
           (n \<le> finalized_rx args \<or> (\<exists>ks. bt_get (contents hc') n = Some ks \<and> h \<in> set ks)) \<and>
           (\<exists>j j'. simd_parse S rx = Inr j \<and> jset ''id'' JNull j = Ret j' \<and> jindex j' ''id'' = JNull \<and>
                   v = simd_to_vec S j')"
  by (rule cache_write_facts [OF assms])

definition sample_response :: json where
  "sample_response = JObj [(''id'', JNum (PosInt 7)), (''result'', JStr ''0x1'')]"

definition sample_args :: cache_args where
  "sample_args = \<lparr>finalized_rx = 5, named_numbers = named_at 30, args_head_cache = new_lock []\<rparr>"

definition sample_codec :: serde where
  "sample_codec = sample_serde [(''rx'', sample_response)]"

lemma sample_block:
  "get_block_number_from_request sample_codec (balance_request (JStr ''0x1a'')) named = Ret (Some 26)"
proof -
  have "''0x1a'' = hex_text 26" by code_simp
  then show ?thesis
    using get_block_hex [OF _ balance_block_param, of sample_codec _ 26 named]
    by (simp add: sample_codec_def)
qed

lemma sample_query_at:
  assumes "f < 26"
  shows "cache_query sample_codec False
     \<lparr>finalized_rx = f, named_numbers = named_at 30, args_head_cache = new_lock []\<rparr>
     ''rx'' (balance_request (JStr ''0x1a'')) ''h'' =
     Ret (new_lock [(26, [''h''])], [Write ''h'' (print_json (JObj [(''id'', JNull), (''result'', JStr ''0x1'')]))])"
proof -
  have c: "can_cache False (print_json (balance_request (JStr ''0x1a''))) ''rx''" by code_simp
  show ?thesis
    using c sample_block assms
    by (simp add: cache_query_def cache_record_def cache_store_def sample_response_def
        new_lock_def push_key_def sample_codec_def sample_serde_def Let_def)
qed

lemma sample_query:
  "cache_query sample_codec False sample_args ''rx'' (balance_request (JStr ''0x1a'')) ''h'' =
     Ret (new_lock [(26, [''h''])], [Write ''h'' (print_json (JObj [(''id'', JNull), (''result'', JStr ''0x1'')]))])"
  unfolding sample_args_def by (rule sample_query_at) simp

theorem cache_write_is_recorded_witness:
  "\<exists>hc' v. cache_query sample_codec False sample_args ''rx'' (balance_request (JStr ''0x1a'')) ''h'' =
       Ret (hc', [Write ''h'' v]) \<and>
     (\<exists>ks. bt_get (contents hc') 26 = Some ks \<and> ''h'' \<in> set ks)"
proof -
  obtain hc' v where q: "cache_query sample_codec False sample_args ''rx'' (balance_request (JStr ''0x1a'')) ''h'' =
       Ret (hc', [Write ''h'' v])" using sample_query by blast
  from cache_write_is_recorded [OF q, of "Write ''h'' v"] sample_block q show ?thesis
    by (auto simp: sample_args_def)
qed

section \<open>The latency update\<close>

text \<open>Updating the latency of an endpoint touches that endpoint only, by its identity, does
  nothing when it has left the list, and keeps every endpoint's place; when the endpoint has
  a window without room for a sample it panics and leaves the lock of the list poisoned.\<close>

theorem latency_update_targets_id:
  assumes "update_rpc_latency rl i nanos = (res, rl')"
  shows "map rpc_id (contents rl') = map rpc_id (contents rl) \<and>
         (\<forall>j<length (contents rl). rpc_id (contents rl ! j) \<noteq> i \<longrightarrow> contents rl' ! j = contents rl ! j) \<and>
         (i \<notin> rpc_id ` set (contents rl) \<longrightarrow> rl' = rl) \<and>
         (res = Panic \<longleftrightarrow> (\<exists>j. position (\<lambda>r. rpc_id r = i) (contents rl) = Some j \<and>
            window (contents rl ! j) = 0 \<and> latency_data (status (contents rl ! j)) = [])) \<and>
         (res = Panic \<longrightarrow> poisoned rl')"
proof (cases "position (\<lambda>r. rpc_id r = i) (contents rl)")
  case None
  with assms have "res = Ret ()" "rl' = rl" by (simp_all add: update_rpc_latency_def)
  with None show ?thesis by simp
next
  case (Some j)
  from position_Some [OF Some] have j: "j < length (contents rl)" "rpc_id (contents rl ! j) = i" by auto
  then have mem: "i \<in> rpc_id ` set (contents rl)" by auto
  show ?thesis
  proof (cases "update_latency (f64_of_nat nanos) (contents rl ! j)")
    case (Ret r)
    with assms Some have e: "res = Ret ()" "rl' = rl\<lparr>contents := (contents rl)[j := r]\<rparr>"
      by (simp_all add: update_rpc_latency_def)
    from update_latency_ids(1) [OF Ret] have "rpc_id r = rpc_id (contents rl ! j)" .
    then have "map rpc_id ((contents rl)[j := r]) = map rpc_id (contents rl)"
      using j by (simp add: map_update list_update_same_conv)
    moreover have "\<not> (window (contents rl ! j) = 0 \<and> latency_data (status (contents rl ! j)) = [])"
      using Ret update_latency_panic [of "f64_of_nat nanos" "contents rl ! j"] by auto
    ultimately show ?thesis using Some j e mem by (auto simp: nth_list_update)
  next
    case Panic
    with assms Some have e: "res = Panic" "rl' = rl\<lparr>poisoned := True\<rparr>"
      by (simp_all add: update_rpc_latency_def)
    with Panic Some j mem update_latency_panic [of "f64_of_nat nanos" "contents rl ! j"] show ?thesis by auto
  qed
qed

theorem latency_update_targets_id_witness:
  "\<exists>res rl'. update_rpc_latency (new_lock demo_pool) 2 500 = (res, rl') \<and>
     map rpc_id (contents rl') = [1, 2, 3] \<and> res \<noteq> Panic"
proof -
  obtain res rl' where u: "update_rpc_latency (new_lock demo_pool) 2 500 = (res, rl')" by fastforce
  have p: "position (\<lambda>r. rpc_id r = 2) demo_pool = Some 1"
    by (simp add: demo_pool_def demo_rpc_def)
  have "window (demo_pool ! 1) \<noteq> 0" by (simp add: demo_pool_def demo_rpc_def window_def)
  with latency_update_targets_id [OF u] p u show ?thesis
    by (auto simp: new_lock_def demo_pool_def demo_rpc_def)
qed

end
