(* ===== verification/HeadCache.thy ===== *)
theory HeadCache
  imports Processing
begin

text \<open>
  \<open>src/src/health/head_cache.rs\<close>: the task that follows the head of the chain. When the head
  moves back it deletes from the database every entry recorded for the blocks rolled back;
  when a new block is final it forgets the records of the final blocks, whose entries stay.
  The second part of the theory is the system of this task, the queries that fill the cache
  and the database, as a step relation.
\<close>

definition block_range :: "u64 \<Rightarrow> u64 \<Rightarrow> u64 list" where
  "block_range a b = map of_nat [unat a..<Suc (unat b)]"

definition reorg_step :: "head_cache \<times> batch \<Rightarrow> u64 \<Rightarrow> head_cache \<times> batch" where
  "reorg_step st i =
     (let (hc, b) = st
      in case bt_get hc i of
           None \<Rightarrow> (hc, b)
         | Some ks \<Rightarrow> (bt_remove i hc, fold batch_delete ks b))"

text \<open>\<open>write().unwrap()\<close> panics on a poisoned lock; the batch is sent even when it is empty.\<close>

definition handle_reorg ::
  "head_cache rwlock \<Rightarrow> u64 \<Rightarrow> u64 \<Rightarrow> (head_cache rwlock \<times> request_kind list) outcome" where
  "handle_reorg hc block_num new_block =
     (if poisoned hc then Panic
      else
        let (hc', b) = foldl reorg_step (contents hc, []) (block_range new_block block_num)
        in Ret (hc\<lparr>contents := hc'\<rparr>, db_batch_send b []))"

definition remove_stale :: "head_cache rwlock \<Rightarrow> u64 \<Rightarrow> head_cache rwlock outcome" where
  "remove_stale hc block_num =
     (if poisoned hc then Panic
      else
        case contents hc of
          [] \<Rightarrow> Ret hc
        | (oldest, _) # _ \<Rightarrow>
            Ret (hc\<lparr>contents :=
              foldl (\<lambda>m i. bt_remove i m) (contents hc) (block_range oldest block_num)\<rparr>))"

text \<open>The loop variables of \<open>manage_cache\<close>, and one turn of it. The finalized block is read from
  its channel twice, so the second value may be newer than the first.\<close>

record manager =
  head :: u64
  last_finalized :: u64

definition manage_step ::
  "manager \<Rightarrow> head_cache rwlock \<Rightarrow> u64 \<Rightarrow> u64 \<Rightarrow> u64 \<Rightarrow>
     (manager \<times> head_cache rwlock \<times> request_kind list) outcome" where
  "manage_step m hc new_block fin1 fin2 =
     obind (if new_block \<le> head m then handle_reorg hc (head m) new_block else Ret (hc, []))
       (\<lambda>(hc1, sent).
          if last_finalized m \<noteq> fin1
          then obind (remove_stale hc1 fin2)
                 (\<lambda>hc2. Ret (m\<lparr>last_finalized := fin2, head := new_block\<rparr>, hc2, sent))
          else Ret (m\<lparr>head := new_block\<rparr>, hc1, sent))"

text \<open>The whole loop, on the values it sees.\<close>

fun manage_cache ::
  "manager \<Rightarrow> head_cache rwlock \<Rightarrow> (u64 \<times> u64 \<times> u64) list \<Rightarrow>
     (manager \<times> head_cache rwlock \<times> request_kind list) outcome" where
  "manage_cache m hc [] = Ret (m, hc, [])"
| "manage_cache m hc ((new_block, fin1, fin2) # evs) =
     obind (manage_step m hc new_block fin1 fin2)
       (\<lambda>(m1, hc1, sent1). obind (manage_cache m1 hc1 evs)
          (\<lambda>(m2, hc2, sent2). Ret (m2, hc2, sent1 @ sent2)))"

section \<open>Reorganisations\<close>

lemma unat_of_nat_small: "n < 2 ^ LENGTH('a) \<Longrightarrow> unat (of_nat n :: 'a::len word) = n"
  by (simp add: unsigned_of_nat take_bit_nat_eq_self)

lemma set_block_range: "set (block_range a b) = {a..b}"
proof
  show "set (block_range a b) \<subseteq> {a..b}"
  proof
    fix x assume "x \<in> set (block_range a b)"
    then obtain n where n: "x = of_nat n" "unat a \<le> n" "n \<le> unat b" by (auto simp: block_range_def)
    have "unat b < 2 ^ LENGTH(64)" by (rule unsigned_less)
    then have "n < 2 ^ LENGTH(64)" using n(3) by linarith
    then have "unat x = n" using n(1) by (simp add: unat_of_nat_small)
    with n show "x \<in> {a..b}" by (simp add: word_le_nat_alt)
  qed
  show "{a..b} \<subseteq> set (block_range a b)"
  proof
    fix x assume "x \<in> {a..b}"
    then have "unat x \<in> set [unat a..<Suc (unat b)]" by (auto simp: word_le_nat_alt)
    then have "of_nat (unat x) \<in> set (block_range a b)" unfolding block_range_def set_map by (rule imageI)
    then show "x \<in> set (block_range a b)" by simp
  qed
qed

lemma distinct_block_range: "distinct (block_range a b)"
proof -
  have "inj_on (of_nat :: nat \<Rightarrow> u64) {unat a..<Suc (unat b)}"
  proof (rule inj_onI)
    fix x y assume xy: "x \<in> {unat a..<Suc (unat b)}" "y \<in> {unat a..<Suc (unat b)}" "(of_nat x :: u64) = of_nat y"
    have "unat b < 2 ^ LENGTH(64)" by (rule unsigned_less)
    then have "x < 2 ^ LENGTH(64)" "y < 2 ^ LENGTH(64)" using xy by auto
    with xy(3) show "x = y" by (metis unat_of_nat_small)
  qed
  then show ?thesis unfolding block_range_def distinct_map set_upt by simp
qed

definition recorded :: "head_cache \<Rightarrow> u64 \<Rightarrow> string list" where
  "recorded hc i = (case bt_get hc i of None \<Rightarrow> [] | Some ks \<Rightarrow> ks)"

lemma fold_batch_delete: "fold batch_delete ks b = b @ map Delete ks"
  by (induction ks arbitrary: b) (simp_all add: batch_delete_def)

lemma reorg_fold:
  assumes "distinct xs"
  shows "\<exists>hc'. foldl reorg_step (hc, b) xs = (hc', b @ map Delete (concat (map (recorded hc) xs))) \<and>
           (\<forall>i. bt_get hc' i = (if i \<in> set xs then None else bt_get hc i)) \<and> (bt_wf hc \<longrightarrow> bt_wf hc')"
  using assms
proof (induction xs arbitrary: hc b)
  case (Cons x xs)
  define hc1 where "hc1 = (case bt_get hc x of None \<Rightarrow> hc | Some ks \<Rightarrow> bt_remove x hc)"
  have step: "reorg_step (hc, b) x = (hc1, b @ map Delete (recorded hc x))"
    by (simp add: reorg_step_def hc1_def recorded_def fold_batch_delete split: option.split)
  have get1: "bt_get hc1 i = (if i = x then None else bt_get hc i)" for i
    by (auto simp: hc1_def split: option.split)
  have wf1: "bt_wf hc \<longrightarrow> bt_wf hc1" by (simp add: hc1_def split: option.split)
  from Cons.prems have x: "x \<notin> set xs" "distinct xs" by simp_all
  then have "map (recorded hc1) xs = map (recorded hc) xs"
    by (auto simp: recorded_def get1)
  with Cons.IH [OF x(2), of hc1 "b @ map Delete (recorded hc x)"] get1 wf1 x(1) show ?case
    by (auto simp: step)
qed simp

text \<open>What a reorganisation does, in closed form.\<close>

lemma handle_reorg_effect:
  assumes "handle_reorg hc old new = Ret (hc', sent)"
  shows "\<forall>i. bt_get (contents hc') i = (if new \<le> i \<and> i \<le> old then None else bt_get (contents hc) i)"
    "sent = [BatchReq (map Delete (concat (map (recorded (contents hc)) (block_range new old))))]"
    "poisoned hc' = poisoned hc" "bt_wf (contents hc) \<longrightarrow> bt_wf (contents hc')"
proof -
  obtain h where h: "foldl reorg_step (contents hc, []) (block_range new old) =
      (h, map Delete (concat (map (recorded (contents hc)) (block_range new old))))"
    "\<forall>i. bt_get h i = (if i \<in> set (block_range new old) then None else bt_get (contents hc) i)"
    "bt_wf (contents hc) \<longrightarrow> bt_wf h"
    using reorg_fold [OF distinct_block_range, of "contents hc" "[]" new old] by auto
  with assms show "\<forall>i. bt_get (contents hc') i = (if new \<le> i \<and> i \<le> old then None else bt_get (contents hc) i)"
    "sent = [BatchReq (map Delete (concat (map (recorded (contents hc)) (block_range new old))))]"
    "poisoned hc' = poisoned hc" "bt_wf (contents hc) \<longrightarrow> bt_wf (contents hc')"
    by (auto simp: handle_reorg_def db_batch_send_def set_block_range split: if_splits)
qed

lemma handle_reorg_total: "\<not> poisoned hc \<Longrightarrow> \<exists>hc' sent. handle_reorg hc old new = Ret (hc', sent)"
  by (cases "foldl reorg_step (contents hc, []) (block_range new old)") (simp add: handle_reorg_def)

lemma remove_stale_total: "\<not> poisoned hc \<Longrightarrow> \<exists>hc'. remove_stale hc n = Ret hc'"
  by (auto simp: remove_stale_def split: list.split)

lemma fold_bt_remove:
  "bt_get (foldl (\<lambda>m i. bt_remove i m) m xs) = (\<lambda>i. if i \<in> set xs then None else bt_get m i)"
  by (induction xs arbitrary: m) auto

lemma fold_bt_remove_wf: "bt_wf m \<Longrightarrow> bt_wf (foldl (\<lambda>m i. bt_remove i m) m xs)"
  by (induction xs arbitrary: m) auto

lemma remove_stale_effect:
  assumes "remove_stale hc n = Ret hc'" "bt_wf (contents hc)"
  shows "bt_get (contents hc') = (\<lambda>i. if i \<le> n then None else bt_get (contents hc) i)"
    "poisoned hc' = poisoned hc" "bt_wf (contents hc')"
proof -
  show "poisoned hc' = poisoned hc" "bt_wf (contents hc')"
    using assms fold_bt_remove_wf by (auto simp: remove_stale_def split: if_splits list.splits)
  show "bt_get (contents hc') = (\<lambda>i. if i \<le> n then None else bt_get (contents hc) i)"
  proof (cases "contents hc")
    case Nil
    with assms(1) show ?thesis by (auto simp: remove_stale_def split: if_splits)
  next
    case (Cons kv m)
    obtain oldest ks where kv: "kv = (oldest, ks)" by (cases kv)
    have least: "bt_get (contents hc) i = None" if "\<not> oldest \<le> i" for i
      using bt_first_least [of oldest ks m i] assms(2) that unfolding Cons kv by (cases "bt_get ((oldest, ks) # m) i") auto
    from assms(1) Cons kv have c: "contents hc' = foldl (\<lambda>m i. bt_remove i m) (contents hc) (block_range oldest n)"
      by (auto simp: remove_stale_def split: if_splits)
    show ?thesis
    proof
      fix i
      show "bt_get (contents hc') i = (if i \<le> n then None else bt_get (contents hc) i)"
        using least [of i] unfolding c fold_bt_remove set_block_range by auto
    qed
  qed
qed

text \<open>A reorganisation from the head \<open>old\<close> back to \<open>new\<close> sends the database one batch, which
  deletes exactly the keys recorded for the blocks from \<open>new\<close> to \<open>old\<close>; those records are
  dropped and the records of every other block stay as they are.\<close>

theorem reorg_deletes_rolled_back:
  assumes "handle_reorg hc old new = Ret (hc', sent)"
  shows "(\<exists>b. sent = [BatchReq b] \<and> b = map Delete (map op_key b) \<and>
           op_key ` set b = (\<Union>i\<in>{new..old}. set (recorded (contents hc) i))) \<and>
         (\<forall>i. bt_get (contents hc') i = (if new \<le> i \<and> i \<le> old then None else bt_get (contents hc) i))"
proof -
  let ?ks = "concat (map (recorded (contents hc)) (block_range new old))"
  have "map Delete ?ks = map Delete (map op_key (map Delete ?ks))" by (simp add: comp_def)
  moreover have "op_key ` set (map Delete ?ks) = (\<Union>i\<in>{new..old}. set (recorded (contents hc) i))"
    by (auto simp: set_block_range image_image)
  ultimately show ?thesis using handle_reorg_effect [OF assms] by blast
qed

theorem reorg_deletes_rolled_back_witness:
  "\<exists>hc' sent b. handle_reorg (new_lock [(3, [''a'']), (4, [''b'']), (6, [''c''])]) 5 4 = Ret (hc', sent) \<and>
     sent = [BatchReq b] \<and> bt_get (contents hc') 6 = Some [''c'']"
proof -
  obtain hc' sent where r: "handle_reorg (new_lock [(3, [''a'']), (4, [''b'']), (6, [''c''])]) 5 4 = Ret (hc', sent)"
    using handle_reorg_total [of "new_lock [(3, [''a'']), (4, [''b'']), (6, [''c''])]" 5 4]
    by (auto simp: new_lock_def)
  from reorg_deletes_rolled_back [OF r] obtain b where "sent = [BatchReq b]"
    "bt_get (contents hc') 6 = (if (4::u64) \<le> 6 \<and> 6 \<le> (5::u64) then None else Some [''c''])"
    by (auto simp: new_lock_def bt_get_def)
  with r show ?thesis by auto
qed

text \<open>When a block becomes final exactly the records up to it are forgotten; the records of
  later blocks, which can still be rolled back, are all kept, and no entry is deleted from the
  database.\<close>

theorem finality_forgets_only_final_blocks:
  assumes "remove_stale hc n = Ret hc'" "bt_wf (contents hc)"
  shows "\<forall>i. bt_get (contents hc') i = (if i \<le> n then None else bt_get (contents hc) i)"
  using remove_stale_effect [OF assms] by simp

theorem finality_forgets_only_final_blocks_witness:
  "\<exists>hc'. remove_stale (new_lock [(3, [''a'']), (4, [''b''])]) 3 = Ret hc' \<and> bt_get (contents hc') 4 = Some [''b'']"
proof -
  obtain hc' where r: "remove_stale (new_lock [(3, [''a'']), (4, [''b''])]) 3 = Ret hc'"
    by (auto simp: remove_stale_def new_lock_def)
  have "bt_wf (contents (new_lock [(3::u64, [''a'']), (4, [''b''])]))" by (simp add: bt_wf_def new_lock_def)
  from finality_forgets_only_final_blocks [OF r this] have "bt_get (contents hc') 4 = Some [''b'']"
    by (auto simp: new_lock_def bt_get_def)
  with r show ?thesis by blast
qed

section \<open>The cache as a system\<close>

text \<open>The tasks around the cache: queries that store their responses, the channel of the
  finalized block, and the head follower. A query is served in one step here, record and
  write together; requests to the database take effect in the order they are sent. The two
  last fields are history: \<open>origin\<close> is the block each stored key was about, \<open>all_final\<close> the
  highest finalized block ever published.\<close>

record cache_system =
  mgr :: manager
  hcache :: "head_cache rwlock"
  entries :: "string \<rightharpoonup> string"
  final_chan :: u64
  origin :: "string \<rightharpoonup> u64"
  all_final :: u64

definition apply_requests :: "request_kind list \<Rightarrow> (string \<rightharpoonup> string) \<Rightarrow> (string \<rightharpoonup> string)" where
  "apply_requests reqs m = fold request_effect reqs m"

inductive cache_step :: "cache_system \<Rightarrow> cache_system \<Rightarrow> bool" where
  query:
  "cache_query S nc \<lparr>finalized_rx = final_chan s, named_numbers = named, args_head_cache = hcache s\<rparr>
     rx meth tx_hash = Ret (hc', reqs) \<Longrightarrow>
   cache_step s (s\<lparr>hcache := hc', entries := apply_requests reqs (entries s),
     origin := (case get_block_number_from_request S meth named of
                  Ret (Some n) \<Rightarrow> if reqs = [] then origin s else (origin s)(tx_hash \<mapsto> n)
                | _ \<Rightarrow> origin s)\<rparr>)"
| publish:
  "cache_step s (s\<lparr>final_chan := n, all_final := max n (all_final s)\<rparr>)"
| new_head:
  "manage_step (mgr s) (hcache s) new_block (final_chan s) (final_chan s) = Ret (m', hc', reqs) \<Longrightarrow>
   cache_step s (s\<lparr>mgr := m', hcache := hc', entries := apply_requests reqs (entries s)\<rparr>)"

inductive reach :: "cache_system \<Rightarrow> bool" where
  start: "reach \<lparr>mgr = \<lparr>head = 0, last_finalized = 0\<rparr>, hcache = new_lock [], entries = Map.empty,
                  final_chan = 0, origin = Map.empty, all_final = 0\<rparr>"
| step: "reach s \<Longrightarrow> cache_step s s' \<Longrightarrow> reach s'"

text \<open>The invariant: an entry whose block may still be rolled back is recorded under its block.\<close>

definition traceable :: "cache_system \<Rightarrow> bool" where
  "traceable s \<longleftrightarrow>
     bt_wf (contents (hcache s)) \<and> final_chan s \<le> all_final s \<and>
     (\<forall>k. entries s k \<noteq> None \<longrightarrow>
        (\<exists>n. origin s k = Some n \<and> (n \<le> all_final s \<or> k \<in> set (recorded (contents (hcache s)) n))))"

lemma apply_batch: "apply_requests [BatchReq (map Delete ks)] m k = (if k \<in> set ks then None else m k)"
  by (auto simp: apply_requests_def batch_effect_deletes batch_effect_untouched image_iff)

lemma recorded_push: "recorded (push_key n k hc) i = (if i = n then recorded hc n @ [k] else recorded hc i)"
  by (simp add: recorded_def push_key_get)

lemma cache_query_effect:
  assumes "cache_query S nc args rx m h = Ret (hc', reqs)"
  shows "reqs = [] \<and> (hc' = args_head_cache args \<or>
            (\<exists>n. contents hc' = push_key n h (contents (args_head_cache args)))) \<or>
         (\<exists>n v. reqs = [Write h v] \<and> get_block_number_from_request S m (named_numbers args) = Ret (Some n) \<and>
            (contents hc' = push_key n h (contents (args_head_cache args)) \<or>
             n \<le> finalized_rx args \<and> contents hc' = contents (args_head_cache args)))"
proof -
  from cache_query_cases [OF assms] obtain num where r: "cache_record S nc args rx m h = Ret (num, hc')"
    "reqs = (case num of None \<Rightarrow> [] | Some n \<Rightarrow> cache_store S rx h)" by blast
  show ?thesis
  proof (cases num)
    case None
    with r cache_record_None show ?thesis by auto
  next
    case (Some n)
    with cache_record_Some [of S nc args rx m h n hc'] r(1)
    have c: "get_block_number_from_request S m (named_numbers args) = Ret (Some n)"
      "contents hc' = push_key n h (contents (args_head_cache args)) \<or>
       n \<le> finalized_rx args \<and> contents hc' = contents (args_head_cache args) \<and> hc' = args_head_cache args"
      using cache_record_cases [OF r(1)] by (auto split: if_splits)
    from r(2) Some cache_store_cases [of S rx h] have "reqs = [] \<or> (\<exists>v. reqs = [Write h v])" by auto
    with c show ?thesis by blast
  qed
qed

lemma traceable_query:
  assumes "traceable s"
    and q: "cache_query S nc \<lparr>finalized_rx = final_chan s, named_numbers = named, args_head_cache = hcache s\<rparr>
              rx m h = Ret (hc', reqs)"
  shows "traceable (s\<lparr>hcache := hc', entries := apply_requests reqs (entries s),
     origin := (case get_block_number_from_request S m named of
                  Ret (Some n) \<Rightarrow> if reqs = [] then origin s else (origin s)(h \<mapsto> n)
                | _ \<Rightarrow> origin s)\<rparr>)"
  using cache_query_effect [OF q]
proof (elim disjE exE conjE)
  assume "reqs = []" "hc' = args_head_cache \<lparr>finalized_rx = final_chan s, named_numbers = named, args_head_cache = hcache s\<rparr>"
  with assms(1) show ?thesis
    by (auto simp: traceable_def apply_requests_def split: outcome.split option.split)
next
  fix n assume "reqs = []"
    "contents hc' = push_key n h (contents (args_head_cache \<lparr>finalized_rx = final_chan s, named_numbers = named, args_head_cache = hcache s\<rparr>))"
  with assms(1) show ?thesis
    by (fastforce simp: traceable_def apply_requests_def recorded_push split: outcome.split option.split)
next
  fix n v assume a: "reqs = [Write h v]"
    "get_block_number_from_request S m (named_numbers \<lparr>finalized_rx = final_chan s, named_numbers = named, args_head_cache = hcache s\<rparr>) = Ret (Some n)"
    "contents hc' = push_key n h (contents (args_head_cache \<lparr>finalized_rx = final_chan s, named_numbers = named, args_head_cache = hcache s\<rparr>))"
  with assms(1) show ?thesis
    by (fastforce simp: traceable_def apply_requests_def recorded_push)
next
  fix n v assume a: "reqs = [Write h v]"
    "get_block_number_from_request S m (named_numbers \<lparr>finalized_rx = final_chan s, named_numbers = named, args_head_cache = hcache s\<rparr>) = Ret (Some n)"
    "n \<le> finalized_rx \<lparr>finalized_rx = final_chan s, named_numbers = named, args_head_cache = hcache s\<rparr>"
    "contents hc' = contents (args_head_cache \<lparr>finalized_rx = final_chan s, named_numbers = named, args_head_cache = hcache s\<rparr>)"
  then have "n \<le> all_final s" using assms(1) by (auto simp: traceable_def)
  with a assms(1) show ?thesis
    by (fastforce simp: traceable_def apply_requests_def)
qed

text \<open>One turn of the follower splits into the reorganisation and the clean-up.\<close>

lemma manage_step_cases:
  assumes "manage_step m hc new fin1 fin2 = Ret (m', hc', reqs)"
  obtains hc1 where
    "(new \<le> head m \<and> handle_reorg hc (head m) new = Ret (hc1, reqs)) \<or> (\<not> new \<le> head m \<and> hc1 = hc \<and> reqs = [])"
    "(last_finalized m \<noteq> fin1 \<and> remove_stale hc1 fin2 = Ret hc') \<or> hc' = hc1"
    "head m' = new"
proof -
  from assms obtain x where x: "(if new \<le> head m then handle_reorg hc (head m) new else Ret (hc, [])) = Ret x"
    "(case x of (hc1, sent) \<Rightarrow>
        if last_finalized m \<noteq> fin1
        then obind (remove_stale hc1 fin2)
               (\<lambda>hc2. Ret (m\<lparr>last_finalized := fin2, head := new\<rparr>, hc2, sent))
        else Ret (m\<lparr>head := new\<rparr>, hc1, sent)) = Ret (m', hc', reqs)"
    unfolding manage_step_def obind_Ret_iff by blast
  obtain hc1 sent where "x = (hc1, sent)" by (cases x)
  with x have r: "(if new \<le> head m then handle_reorg hc (head m) new else Ret (hc, [])) = Ret (hc1, sent)"
    "(if last_finalized m \<noteq> fin1
      then obind (remove_stale hc1 fin2)
             (\<lambda>hc2. Ret (m\<lparr>last_finalized := fin2, head := new\<rparr>, hc2, sent))
      else Ret (m\<lparr>head := new\<rparr>, hc1, sent)) = Ret (m', hc', reqs)"
    by simp_all
  from r(2) have "sent = reqs \<and> head m' = new \<and> ((last_finalized m \<noteq> fin1 \<and> remove_stale hc1 fin2 = Ret hc') \<or> hc' = hc1)"
    by (auto simp: obind_Ret_iff split: if_splits)
  with r(1) that [of hc1] show ?thesis by (auto split: if_splits)
qed

lemma reorg_part:
  assumes "(new \<le> hd0 \<and> handle_reorg hc hd0 new = Ret (hc1, reqs)) \<or> (\<not> new \<le> hd0 \<and> hc1 = hc \<and> reqs = [])"
  shows "(\<forall>k n. apply_requests reqs m k \<noteq> None \<longrightarrow> k \<in> set (recorded (contents hc) n) \<longrightarrow>
            \<not> (new \<le> n \<and> n \<le> hd0) \<and> k \<in> set (recorded (contents hc1) n)) \<and>
         (\<forall>k. apply_requests reqs m k \<noteq> None \<longrightarrow> m k \<noteq> None) \<and>
         (bt_wf (contents hc) \<longrightarrow> bt_wf (contents hc1))"
  using assms
proof
  assume "new \<le> hd0 \<and> handle_reorg hc hd0 new = Ret (hc1, reqs)"
  then have h: "handle_reorg hc hd0 new = Ret (hc1, reqs)" by simp
  note e = handle_reorg_effect [OF h]
  show ?thesis
    using e(4) by (auto simp: e(2) apply_batch e(1) recorded_def set_block_range split: if_splits)
qed (auto simp: apply_requests_def)

lemma traceable_new_head:
  assumes "traceable s"
    and step: "manage_step (mgr s) (hcache s) new (final_chan s) (final_chan s) = Ret (m', hc', reqs)"
  shows "traceable (s\<lparr>mgr := m', hcache := hc', entries := apply_requests reqs (entries s)\<rparr>) \<and>
         (new \<le> head (mgr s) \<longrightarrow>
            (\<forall>k. apply_requests reqs (entries s) k \<noteq> None \<longrightarrow>
               (\<exists>n. origin s k = Some n \<and> (n \<le> all_final s \<or> n < new \<or> head (mgr s) < n))))"
proof -
  from manage_step_cases [OF step] obtain hc1 where hc1:
    "(new \<le> head (mgr s) \<and> handle_reorg (hcache s) (head (mgr s)) new = Ret (hc1, reqs)) \<or>
     (\<not> new \<le> head (mgr s) \<and> hc1 = hcache s \<and> reqs = [])"
    "remove_stale hc1 (final_chan s) = Ret hc' \<or> hc' = hc1" by metis
  from assms(1) have t: "bt_wf (contents (hcache s))" "final_chan s \<le> all_final s"
    "\<And>k. entries s k \<noteq> None \<Longrightarrow>
        \<exists>n. origin s k = Some n \<and> (n \<le> all_final s \<or> k \<in> set (recorded (contents (hcache s)) n))"
    by (auto simp: traceable_def)
  from reorg_part [OF hc1(1), of "entries s"] t(1) have r:
    "\<And>k n. apply_requests reqs (entries s) k \<noteq> None \<Longrightarrow> k \<in> set (recorded (contents (hcache s)) n) \<Longrightarrow>
       \<not> (new \<le> n \<and> n \<le> head (mgr s)) \<and> k \<in> set (recorded (contents hc1) n)"
    "\<And>k. apply_requests reqs (entries s) k \<noteq> None \<Longrightarrow> entries s k \<noteq> None"
    "bt_wf (contents hc1)" by blast+
  have wf: "bt_wf (contents hc')" using hc1(2) r(3) remove_stale_effect(3) by blast
  have rec: "recorded (contents hc') n = recorded (contents hc1) n \<or> n \<le> final_chan s" for n
    using hc1(2) remove_stale_effect(1) [OF _ r(3), of "final_chan s" hc'] by (auto simp: recorded_def)
  have key: "\<exists>n. origin s k = Some n \<and> (n \<le> all_final s \<or>
      (k \<in> set (recorded (contents hc') n) \<and> \<not> (new \<le> n \<and> n \<le> head (mgr s))))"
    if "apply_requests reqs (entries s) k \<noteq> None" for k
  proof -
    from t(3) [OF r(2) [OF that]] obtain n where n: "origin s k = Some n"
      "n \<le> all_final s \<or> k \<in> set (recorded (contents (hcache s)) n)" by blast
    with r(1) [OF that, of n] rec [of n] t(2) show ?thesis by (metis order_trans)
  qed
  then show ?thesis using wf t(2) unfolding traceable_def by (force simp: not_le)
qed

lemma reach_traceable: "reach s \<Longrightarrow> traceable s"
proof (induction rule: reach.induct)
  case start
  show ?case by (simp add: traceable_def new_lock_def)
next
  case (step s s')
  from step.hyps(2) show ?case
  proof (cases rule: cache_step.cases)
    case (query S nc named rx meth tx_hash hc' reqs)
    show ?thesis unfolding query(1) by (rule traceable_query [OF step.IH query(2)])
  next
    case (publish n)
    with step.IH show ?thesis
      unfolding traceable_def by (fastforce simp: max.coboundedI2)
  next
    case (new_head new_block m' hc' reqs)
    with traceable_new_head [OF step.IH new_head(2)] show ?thesis by simp
  qed
qed

text \<open>The cache survives reorganisations, as a system: after any run of queries, published
  final blocks and head changes, when the head moves back to \<open>new\<close> every entry left in the
  database is about a block below \<open>new\<close>, above the old head, or already final. No response
  about a rolled-back block stays.\<close>

theorem no_stale_entry_after_reorg:
  assumes "reach s" "new \<le> head (mgr s)"
    and "manage_step (mgr s) (hcache s) new (final_chan s) (final_chan s) = Ret (m', hc', reqs)"
    and "apply_requests reqs (entries s) k \<noteq> None"
  shows "\<exists>n. origin s k = Some n \<and> (n \<le> all_final s \<or> n < new \<or> head (mgr s) < n)"
  using traceable_new_head [OF reach_traceable [OF assms(1)] assms(3)] assms(2,4) by blast

definition start_system :: cache_system where
  "start_system = \<lparr>mgr = \<lparr>head = 0, last_finalized = 0\<rparr>, hcache = new_lock [], entries = Map.empty,
     final_chan = 0, origin = Map.empty, all_final = 0\<rparr>"

definition cached_text :: string where
  "cached_text = print_json (JObj [(''id'', JNull), (''result'', JStr ''0x1'')])"

definition queried_system :: cache_system where
  "queried_system = start_system\<lparr>mgr := \<lparr>head = 27, last_finalized = 0\<rparr>, hcache := new_lock [(26, [''h''])],
     entries := [''h'' \<mapsto> cached_text], origin := [''h'' \<mapsto> 26]\<rparr>"

lemma reach_queried: "reach queried_system"
proof -
  let ?s1 = "start_system\<lparr>hcache := new_lock [(26, [''h''])], entries := [''h'' \<mapsto> cached_text], origin := [''h'' \<mapsto> 26]\<rparr>"
  have q: "cache_query sample_codec False
     \<lparr>finalized_rx = final_chan start_system, named_numbers = named_at 30, args_head_cache = hcache start_system\<rparr>
     ''rx'' (balance_request (JStr ''0x1a'')) ''h'' = Ret (new_lock [(26, [''h''])], [Write ''h'' cached_text])"
    using sample_query_at [of 0] by (simp add: start_system_def cached_text_def)
  have "reach start_system" unfolding start_system_def by (rule reach.start)
  moreover have "cache_step start_system ?s1"
    using cache_step.query [OF q] by (simp add: start_system_def apply_requests_def sample_block)
  ultimately have s1: "reach ?s1" by (rule reach.step)
  have "cache_step ?s1 queried_system"
    using cache_step.new_head [of ?s1 27 "\<lparr>head = 27, last_finalized = 0\<rparr>" "hcache ?s1" "[]"]
    by (simp add: manage_step_def start_system_def queried_system_def apply_requests_def)
  with s1 show ?thesis by (rule reach.step)
qed

theorem no_stale_entry_after_reorg_witness:
  "\<exists>m' hc' reqs n. manage_step (mgr queried_system) (hcache queried_system) 27 0 0 = Ret (m', hc', reqs) \<and>
     apply_requests reqs (entries queried_system) ''h'' = Some cached_text \<and>
     origin queried_system ''h'' = Some n \<and> n < 27"
proof -
  obtain hc' reqs where r: "handle_reorg (new_lock [(26, [''h''])]) 27 27 = Ret (hc', reqs)"
    using handle_reorg_total [of "new_lock [(26, [''h''])]" 27 27] by (auto simp: new_lock_def)
  then have m: "manage_step (mgr queried_system) (hcache queried_system) 27
      (final_chan queried_system) (final_chan queried_system) = Ret (\<lparr>head = 27, last_finalized = 0\<rparr>, hc', reqs)"
    by (simp add: manage_step_def queried_system_def start_system_def)
  have e: "apply_requests reqs (entries queried_system) ''h'' = Some cached_text"
    using handle_reorg_effect(2) [OF r] apply_batch [of "[]"]
    by (simp add: block_range_def recorded_def new_lock_def bt_get_def queried_system_def start_system_def)
  with no_stale_entry_after_reorg [OF reach_queried _ m, of "''h''"]
  have "(26::u64) < 27 \<and> origin queried_system ''h'' = Some 26"
    by (auto simp: queried_system_def start_system_def)
  with m e show ?thesis by (auto simp: queried_system_def start_system_def)
qed

text \<open>C27. The order of the two halves of \<open>cache_query\<close> matters to the other tasks: when the
  reorganisation of the block happens after its key was recorded and before its response is
  sent, the response is stored after the deletion and its record is gone, so it stays in the
  database although its block was rolled back, and no later reorganisation deletes it.\<close>

theorem late_store_survives_reorg:
  assumes "cache_record S nc args rx m h = Ret (Some n, hc1)"
    and "\<forall>i. h \<notin> set (recorded (contents (args_head_cache args)) i)"
    and "handle_reorg hc1 old new = Ret (hc2, reqs)" "new \<le> n" "n \<le> old"
    and "cache_store S rx h = [Write h v]"
    and "handle_reorg hc2 old' new' = Ret (hc3, reqs')"
  shows "apply_requests (reqs @ cache_store S rx h @ reqs') (entries s) h = Some v"
proof -
  have rec: "h \<notin> set (recorded (contents hc2) i)" for i
  proof -
    have "h \<in> set (recorded (contents hc1) i) \<Longrightarrow> i = n"
      using cache_record_Some(3) [OF assms(1)] assms(2)
      by (auto simp: recorded_push split: if_splits)
    then show ?thesis
      using handle_reorg_effect(1) [OF assms(3)] assms(4,5) by (auto simp: recorded_def)
  qed
  then have "h \<notin> set (concat (map (recorded (contents hc2)) (block_range new' old')))" by simp
  then show ?thesis
    by (simp add: assms(6) handle_reorg_effect(2) [OF assms(7)] apply_requests_def
        batch_effect_untouched image_iff)
qed

lemma sample_record:
  "cache_record sample_codec False sample_args ''rx'' (balance_request (JStr ''0x1a'')) ''h'' =
     Ret (Some 26, new_lock [(26, [''h''])])"
proof -
  from cache_query_writes [OF sample_query] obtain n where
    n: "cache_record sample_codec False sample_args ''rx'' (balance_request (JStr ''0x1a'')) ''h'' =
          Ret (Some n, new_lock [(26, [''h''])])" by blast
  from cache_record_Some(2) [OF n] have "n = 26" by (simp add: sample_block)
  with n show ?thesis by simp
qed

theorem late_store_survives_reorg_witness:
  "\<exists>hc2 reqs v. handle_reorg (new_lock [(26, [''h''])]) 27 26 = Ret (hc2, reqs) \<and>
     cache_store sample_codec ''rx'' ''h'' = [Write ''h'' v] \<and>
     (\<forall>s. apply_requests (reqs @ [Write ''h'' v]) (entries s) ''h'' = Some v)"
proof -
  obtain hc2 reqs where r: "handle_reorg (new_lock [(26, [''h''])]) 27 26 = Ret (hc2, reqs)"
    using handle_reorg_total [of "new_lock [(26, [''h''])]" 27 26] by (auto simp: new_lock_def)
  have "\<not> poisoned hc2" using handle_reorg_effect(3) [OF r] by (simp add: new_lock_def)
  then obtain hc3 reqs' where r3: "handle_reorg hc2 0 1 = Ret (hc3, reqs')"
    using handle_reorg_total by blast
  have none: "reqs' = [BatchReq []]"
    using handle_reorg_effect(2) [OF r3] by (simp add: block_range_def)
  obtain v where v: "cache_store sample_codec ''rx'' ''h'' = [Write ''h'' v]"
    by (simp add: cache_store_def sample_codec_def sample_serde_def sample_response_def)
  have "apply_requests (reqs @ [Write ''h'' v]) (entries s) ''h'' = Some v" for s
    using late_store_survives_reorg [OF sample_record _ r _ _ v r3, of s] none v
    by (simp add: sample_args_def new_lock_def recorded_def apply_requests_def batch_effect_def)
  with r v show ?thesis by blast
qed

end
