(* ===== verification/LiveReady.thy ===== *)
theory LiveReady
  imports HeadCache
begin

text \<open>
  \<open>src/src/admin/liveready.rs\<close>: the readiness and health of the program, kept by a monitor task
  that takes updates from one channel and answers requests from another, and the two probe
  endpoints \<open>/ready\<close> and \<open>/health\<close>. The record of an HTTP response is here too.
\<close>

record response =
  resp_status :: nat
  resp_headers :: "(string \<times> string) list"
  resp_body :: string

definition plain_response :: "nat \<Rightarrow> string \<Rightarrow> response" where
  "plain_response st body = \<lparr>resp_status = st, resp_headers = [], resp_body = body\<rparr>"

datatype readiness_state = Ready | Setup

datatype health_state = Healthy | MissingRpcs | Unhealthy

record live_ready =
  readiness :: readiness_state
  health :: health_state

datatype live_ready_update = ReadinessUpd readiness_state | HealthUpd health_state

definition live_ready_default :: live_ready where
  "live_ready_default = \<lparr>readiness = Setup, health = Healthy\<rparr>"

text \<open>States of health are ordered from bad to good.\<close>

fun health_rank :: "health_state \<Rightarrow> nat" where
  "health_rank Unhealthy = 0"
| "health_rank MissingRpcs = 1"
| "health_rank Healthy = 2"

lemma health_rank_inj: "health_rank x = health_rank y \<longleftrightarrow> x = y"
  by (cases x; cases y) simp_all

instantiation health_state :: linorder
begin

definition less_eq_health_state :: "health_state \<Rightarrow> health_state \<Rightarrow> bool" where
  "x \<le> y \<longleftrightarrow> health_rank x \<le> health_rank y"

definition less_health_state :: "health_state \<Rightarrow> health_state \<Rightarrow> bool" where
  "x < y \<longleftrightarrow> health_rank x < health_rank y"

instance
  by standard (auto simp: less_eq_health_state_def less_health_state_def health_rank_inj)

end

definition ok_response :: response where "ok_response = plain_response 200 ''OK''"
definition partial_ok_response :: response where "partial_ok_response = plain_response 202 ''RPC''"
definition nok_response :: response where "nok_response = plain_response 503 ''NOK''"

text \<open>\<open>liveness_listener\<close>, one update; the lock is unwrapped.\<close>

definition liveness_listener :: "live_ready rwlock \<Rightarrow> live_ready_update \<Rightarrow> live_ready rwlock outcome" where
  "liveness_listener st upd =
     (if poisoned st then Panic
      else case upd of
        ReadinessUpd s \<Rightarrow> Ret (st\<lparr>contents := (contents st)\<lparr>readiness := s\<rparr>\<rparr>)
      | HealthUpd s \<Rightarrow> Ret (st\<lparr>contents := (contents st)\<lparr>health := s\<rparr>\<rparr>))"

text \<open>\<open>liveness_request_processor\<close>, one request.\<close>

definition liveness_request :: "live_ready rwlock \<Rightarrow> live_ready outcome" where
  "liveness_request st = (if poisoned st then Panic else Ret (contents st))"

text \<open>\<open>liveness_monitor\<close>: the state after the updates received so far.\<close>

fun liveness_updates :: "live_ready rwlock \<Rightarrow> live_ready_update list \<Rightarrow> live_ready rwlock outcome" where
  "liveness_updates st [] = Ret st"
| "liveness_updates st (u # us) = obind (liveness_listener st u) (\<lambda>st'. liveness_updates st' us)"

definition liveness_monitor :: "live_ready_update list \<Rightarrow> live_ready outcome" where
  "liveness_monitor us = obind (liveness_updates (new_lock live_ready_default) us) liveness_request"

text \<open>The probes; \<open>reply\<close> is the answer of the monitor, \<open>None\<close> when it is gone.\<close>

definition accept_readiness_request :: "live_ready option \<Rightarrow> response" where
  "accept_readiness_request reply =
     (case reply of
        None \<Rightarrow> nok_response
      | Some v \<Rightarrow> if readiness v = Ready then ok_response else nok_response)"

definition accept_health_request :: "live_ready option \<Rightarrow> response" where
  "accept_health_request reply =
     (case reply of
        None \<Rightarrow> nok_response
      | Some v \<Rightarrow>
          (case health v of
             Healthy \<Rightarrow> ok_response
           | MissingRpcs \<Rightarrow> partial_ok_response
           | Unhealthy \<Rightarrow> nok_response))"

text \<open>\<open>liveness_update_sink\<close>, used when the admin endpoint is off, drops what it receives.\<close>

definition liveness_update_sink :: "live_ready_update list \<Rightarrow> live_ready_update list" where
  "liveness_update_sink us = []"

fun last_health :: "live_ready_update list \<Rightarrow> health_state \<Rightarrow> health_state" where
  "last_health [] h = h"
| "last_health (HealthUpd s # us) h = last_health us s"
| "last_health (ReadinessUpd s # us) h = last_health us h"

fun last_readiness :: "live_ready_update list \<Rightarrow> readiness_state \<Rightarrow> readiness_state" where
  "last_readiness [] r = r"
| "last_readiness (HealthUpd s # us) r = last_readiness us r"
| "last_readiness (ReadinessUpd s # us) r = last_readiness us s"

lemma liveness_updates_eq:
  "\<not> poisoned st \<Longrightarrow>
   liveness_updates st us =
     Ret (st\<lparr>contents := \<lparr>readiness = last_readiness us (readiness (contents st)),
                          health = last_health us (health (contents st))\<rparr>\<rparr>)"
proof (induction us arbitrary: st)
  case (Cons u us)
  then show ?case by (cases u) (simp_all add: liveness_listener_def)
qed simp

text \<open>The probes answer from the last updates of each kind: readiness is \<open>200\<close> exactly after
  the last readiness update said ready and \<open>503\<close> before any; health is \<open>200\<close>, \<open>202\<close> or \<open>503\<close> as
  the last health update was healthy, missing endpoints or unhealthy; the two never mix.\<close>

theorem probes_follow_updates:
  "\<exists>v. liveness_monitor us = Ret v \<and>
     resp_status (accept_readiness_request (Some v)) =
       (if last_readiness us Setup = Ready then 200 else 503) \<and>
     resp_status (accept_health_request (Some v)) =
       (case last_health us Healthy of Healthy \<Rightarrow> 200 | MissingRpcs \<Rightarrow> 202 | Unhealthy \<Rightarrow> 503) \<and>
     resp_status (accept_health_request None) = 503 \<and> resp_status (accept_readiness_request None) = 503"
proof -
  have "liveness_monitor us = Ret \<lparr>readiness = last_readiness us Setup, health = last_health us Healthy\<rparr>"
    by (simp add: liveness_monitor_def liveness_updates_eq new_lock_def live_ready_default_def liveness_request_def)
  then show ?thesis
    by (auto simp: accept_readiness_request_def accept_health_request_def ok_response_def
        partial_ok_response_def nok_response_def plain_response_def split: health_state.split)
qed

end
