(* ===== verification/Health.thy ===== *)
theory Health
  imports LiveReady
begin

text \<open>
  \<open>src/src/health/check.rs\<close>: the health check. Every round asks all endpoints of the active list
  for their head, moves those behind the highest head or still syncing to the poverty list,
  asks the poverty list, and takes back those that follow again. A dropped websocket
  connection moves its endpoint too (\<open>send_dropped_to_poverty\<close>). The locks are read even when
  poisoned, so the lists are plain values here.
\<close>

record head_result =
  hr_id :: usize
  hr_syncing :: bool
  hr_head :: u64

section \<open>Asking for heads\<close>

text \<open>One endpoint: \<open>timely r\<close> tells whether its two answers came within the time limit. A panic
  while reading an answer ends the inner task only, which looks like no answer.\<close>

definition probe :: "serde \<Rightarrow> poster \<Rightarrow> (rpc \<Rightarrow> bool) \<Rightarrow> rpc \<Rightarrow> head_result" where
  "probe S post timely r =
     (let failed = \<lparr>hr_id = rpc_id r, hr_syncing = True, hr_head = 0\<rparr>
      in if \<not> timely r then failed
         else case block_number S post r of
                Panic \<Rightarrow> failed
              | Ret bn \<Rightarrow>
                  \<lparr>hr_id = rpc_id r,
                   hr_syncing = (case rpc_syncing S post r of Inl _ \<Rightarrow> True | Inr b \<Rightarrow> b),
                   hr_head = (case bn of Inl _ \<Rightarrow> 0 | Inr n \<Rightarrow> n)\<rparr>)"

text \<open>All endpoints at once; \<open>arrival\<close> is the order the results come in. A time limit that does not
  fit 64 bits makes every outer task panic before it sends a result; since \<open>head_check\<close> keeps a
  sender of the channel itself, it then waits for ever (\<open>None\<close>).\<close>

definition head_check ::
  "serde \<Rightarrow> poster \<Rightarrow> (rpc \<Rightarrow> bool) \<Rightarrow> (head_result list \<Rightarrow> head_result list) \<Rightarrow> u128 \<Rightarrow> rpc list \<Rightarrow>
     head_result list option" where
  "head_check S post timely arrival ttl l =
     (if l = [] then Some []
      else if unat ttl < 2 ^ 64 then Some (arrival (map (probe S post timely) l))
      else None)"

section \<open>Moving endpoints\<close>

definition set_erroring :: "bool \<Rightarrow> rpc \<Rightarrow> rpc" where
  "set_erroring b r = r\<lparr>status := (status r)\<lparr>is_erroring := b\<rparr>\<rparr>"

definition has_id :: "usize \<Rightarrow> rpc list \<Rightarrow> bool" where
  "has_id i l \<longleftrightarrow> list_ex (\<lambda>r. rpc_id r = i) l"

definition highest_head :: "head_result list \<Rightarrow> u64" where
  "highest_head heads = foldl (\<lambda>h r. if h < hr_head r then hr_head r else h) 0 heads"

text \<open>Flag the endpoint \<open>i\<close> of the first list and append a copy to the second unless it is there.\<close>

definition flag_and_copy :: "bool \<Rightarrow> usize \<Rightarrow> rpc list \<times> rpc list \<Rightarrow> rpc list \<times> rpc list" where
  "flag_and_copy b i st =
     (let (src, dst) = st
      in case find (\<lambda>r. rpc_id r = i) src of
           None \<Rightarrow> (src, dst)
         | Some r \<Rightarrow>
             (update_first (\<lambda>r. rpc_id r = i) (set_erroring b) src,
              if has_id i dst then dst else dst @ [set_erroring b r]))"

definition behind :: "u64 \<Rightarrow> head_result \<Rightarrow> bool" where
  "behind highest h \<longleftrightarrow> hr_head h < highest \<or> hr_syncing h"

definition make_poverty ::
  "rpc list \<Rightarrow> rpc list \<Rightarrow> head_result list \<Rightarrow> u64 \<times> rpc list \<times> rpc list" where
  "make_poverty rl pl heads =
     (let highest = highest_head heads;
          (rl1, pl1) =
            foldl (\<lambda>st h. if behind highest h then flag_and_copy True (hr_id h) st else st) (rl, pl) heads
      in (highest, filter (\<lambda>r. \<not> is_erroring (status r)) rl1, pl1))"

definition following :: "u64 \<Rightarrow> head_result \<Rightarrow> bool" where
  "following agreed h \<longleftrightarrow> agreed \<le> hr_head h \<and> \<not> hr_syncing h"

definition escape_poverty ::
  "rpc list \<Rightarrow> rpc list \<Rightarrow> head_result list \<Rightarrow> u64 \<Rightarrow> live_ready_update \<times> rpc list \<times> rpc list" where
  "escape_poverty rl pl heads agreed =
     (let (pl1, rl1) =
            foldl (\<lambda>st h. if following agreed h then flag_and_copy False (hr_id h) st else st) (pl, rl) heads;
          pl2 = filter (\<lambda>r. is_erroring (status r)) pl1;
          upd = (if rl1 \<noteq> [] \<and> pl2 = [] then HealthUpd Healthy
                 else if pl2 \<noteq> [] \<and> rl1 \<noteq> [] then HealthUpd MissingRpcs
                 else HealthUpd Unhealthy)
      in (upd, rl1, pl2))"

text \<open>One round. The network and the order of arrival may differ between the two questions.
  \<open>None\<close> where one of them is waited for in vain.\<close>

record network =
  net_post :: poster
  net_timely :: "rpc \<Rightarrow> bool"
  net_arrival :: "head_result list \<Rightarrow> head_result list"

definition check ::
  "serde \<Rightarrow> network \<Rightarrow> network \<Rightarrow> u128 \<Rightarrow> rpc list \<Rightarrow> rpc list \<Rightarrow>
     (live_ready_update \<times> rpc list \<times> rpc list) option" where
  "check S n1 n2 ttl rl pl =
     Option.bind (head_check S (net_post n1) (net_timely n1) (net_arrival n1) ttl rl)
       (\<lambda>heads. case make_poverty rl pl heads of
          (agreed, rl1, pl1) \<Rightarrow>
            map_option (\<lambda>pheads. escape_poverty rl1 pl1 pheads agreed)
              (head_check S (net_post n2) (net_timely n2) (net_arrival n2) ttl pl1))"

text \<open>The part of \<open>send_dropped_to_poverty\<close> under the locks. The endpoint is moved as it is.\<close>

definition send_dropped_to_poverty :: "usize \<Rightarrow> rpc list \<Rightarrow> rpc list \<Rightarrow> rpc list \<times> rpc list" where
  "send_dropped_to_poverty i rl pl =
     (case position (\<lambda>r. rpc_id r = i) rl of
        None \<Rightarrow> (rl, pl)
      | Some p \<Rightarrow> (remove_at p rl, if has_id i pl then pl else pl @ [rl ! p]))"

section \<open>Lemmas about one move\<close>

abbreviation ids :: "rpc list \<Rightarrow> usize set" where
  "ids l \<equiv> rpc_id ` set l"

lemma has_id_iff: "has_id i l \<longleftrightarrow> i \<in> ids l"
  by (auto simp: has_id_def list_ex_iff)

lemma ids_filter: "ids (filter (\<lambda>r. rpc_id r \<notin> M) l) = ids l - M"
  by auto

lemma set_erroring_simps [pool_simps]:
  "rpc_id (set_erroring b r) = rpc_id r" "is_erroring (status (set_erroring b r)) = b"
  by (simp_all add: set_erroring_def)

lemma update_first_map:
  "distinct (map rpc_id l) \<Longrightarrow>
   update_first (\<lambda>r. rpc_id r = i) f l = map (\<lambda>r. if rpc_id r = i then f r else r) l"
proof (induction l)
  case (Cons x l)
  show ?case
  proof (cases "rpc_id x = i")
    case True
    with Cons.prems have "i \<notin> rpc_id ` set l" by simp
    then have "\<forall>r\<in>set l. rpc_id r \<noteq> i" by blast
    then have "map (\<lambda>r. if rpc_id r = i then f r else r) l = l" by (intro map_idI) auto
    with True show ?thesis by simp
  qed (use Cons in simp)
qed simp

text \<open>The fold of moves, in closed form: \<open>P\<close> picks the heads that cause a move.\<close>

definition moved :: "(head_result \<Rightarrow> bool) \<Rightarrow> head_result list \<Rightarrow> usize set" where
  "moved P heads = hr_id ` {h \<in> set heads. P h}"

lemma move_fold:
  assumes "distinct (map rpc_id src)" "distinct (map rpc_id dst)" "ids src \<inter> ids dst = {}"
  shows "\<exists>new. foldl (\<lambda>st h. if P h then flag_and_copy b (hr_id h) st else st) (src, dst) heads =
      (map (\<lambda>r. if rpc_id r \<in> moved P heads then set_erroring b r else r) src, dst @ new) \<and>
      ids new = ids src \<inter> moved P heads \<and> distinct (map rpc_id new) \<and>
      set new \<subseteq> set_erroring b ` set src"
proof (induction heads rule: rev_induct)
  case Nil
  show ?case by (simp add: moved_def)
next
  case (snoc h heads)
  let ?src = "map (\<lambda>r. if rpc_id r \<in> moved P heads then set_erroring b r else r) src"
  from snoc obtain new where new:
    "foldl (\<lambda>st h. if P h then flag_and_copy b (hr_id h) st else st) (src, dst) heads = (?src, dst @ new)"
    "ids new = ids src \<inter> moved P heads" "distinct (map rpc_id new)" "set new \<subseteq> set_erroring b ` set src"
    by blast
  show ?case
  proof (cases "P h")
    case False
    then have "moved P (heads @ [h]) = moved P heads" by (auto simp: moved_def)
    with new False show ?thesis by auto
  next
    case True
    then have m: "moved P (heads @ [h]) = insert (hr_id h) (moved P heads)" by (auto simp: moved_def)
    have keys: "map rpc_id ?src = map rpc_id src" by (simp add: pool_simps comp_def)
    show ?thesis
    proof (cases "hr_id h \<in> ids src")
      case False
      then have out: "\<forall>r\<in>set src. rpc_id r \<noteq> hr_id h" by (metis imageI)
      then have "find (\<lambda>r. rpc_id r = hr_id h) ?src = None"
        by (auto simp: find_None pool_simps)
      then have step: "flag_and_copy b (hr_id h) (?src, dst @ new) = (?src, dst @ new)"
        by (simp add: flag_and_copy_def)
      have same: "?src = map (\<lambda>r. if rpc_id r \<in> moved P (heads @ [h]) then set_erroring b r else r) src"
        using out by (auto simp: m)
      have "ids src \<inter> moved P (heads @ [h]) = ids src \<inter> moved P heads" using False by (auto simp: m)
      then show ?thesis using new True step unfolding same [symmetric] by auto
    next
      case inside: True
      have "hr_id h \<in> set (map rpc_id ?src)" unfolding keys using inside by simp
      then have "\<exists>r\<in>set ?src. rpc_id r = hr_id h" unfolding set_map [of rpc_id ?src] by fastforce
      then have "find (\<lambda>r. rpc_id r = hr_id h) ?src \<noteq> None" unfolding find_None by blast
      then obtain q where q: "find (\<lambda>r. rpc_id r = hr_id h) ?src = Some q" by auto
      then have q2: "q \<in> set ?src" "rpc_id q = hr_id h" using find_Some by fastforce+
      then have q3: "set_erroring b q \<in> set_erroring b ` set src"
        by (auto simp: set_erroring_def)
      have d: "distinct (map rpc_id ?src)" unfolding keys by (rule assms(1))
      have upd: "update_first (\<lambda>r. rpc_id r = hr_id h) (set_erroring b) ?src =
          map (\<lambda>r. if rpc_id r \<in> moved P (heads @ [h]) then set_erroring b r else r) src"
        unfolding update_first_map [OF d] by (auto simp: m pool_simps set_erroring_def)
      show ?thesis
      proof (cases "hr_id h \<in> moved P heads")
        case True
        then have "has_id (hr_id h) (dst @ new)" using inside new(2) by (auto simp: has_id_iff)
        with upd q new \<open>P h\<close> True show ?thesis by (auto simp: flag_and_copy_def m)
      next
        case False
        then have "\<not> has_id (hr_id h) (dst @ new)"
          using inside new(2) assms(3) by (auto simp: has_id_iff)
        with upd q new \<open>P h\<close> have "foldl (\<lambda>st h. if P h then flag_and_copy b (hr_id h) st else st) (src, dst) (heads @ [h]) =
          (map (\<lambda>r. if rpc_id r \<in> moved P (heads @ [h]) then set_erroring b r else r) src,
           dst @ (new @ [set_erroring b q]))"
          by (simp add: flag_and_copy_def)
        moreover have "ids (new @ [set_erroring b q]) = ids src \<inter> moved P (heads @ [h])"
          using new(2) q2 inside by (auto simp: m pool_simps)
        moreover have "distinct (map rpc_id (new @ [set_erroring b q]))"
          using new(2,3) q2 False by (auto simp: pool_simps)
        ultimately show ?thesis using new(4) q3 by (intro exI [of _ "new @ [set_erroring b q]"]) auto
      qed
    qed
  qed
qed

section \<open>What a round keeps\<close>

text \<open>Well-formed pools: every endpoint is in one list, once, and flagged as its list says.\<close>

definition pool_ok :: "rpc list \<Rightarrow> rpc list \<Rightarrow> bool" where
  "pool_ok rl pl \<longleftrightarrow>
     distinct (map rpc_id rl) \<and> distinct (map rpc_id pl) \<and> ids rl \<inter> ids pl = {} \<and>
     (\<forall>r\<in>set rl. \<not> is_erroring (status r)) \<and> (\<forall>r\<in>set pl. is_erroring (status r))"

lemma pool_okD:
  assumes "pool_ok rl pl"
  shows "distinct (map rpc_id rl)" "distinct (map rpc_id pl)" "ids rl \<inter> ids pl = {}" "ids pl \<inter> ids rl = {}"
    "r \<in> set rl \<Longrightarrow> \<not> is_erroring (status r)" "q \<in> set pl \<Longrightarrow> is_erroring (status q)"
  using assms by (auto simp: pool_ok_def)

text \<open>A round of moves out of a list, followed by the removal of what was flagged.\<close>

lemma filter_moved:
  assumes "\<forall>r\<in>set src. is_erroring (status r) \<noteq> b"
  shows "filter (\<lambda>r. is_erroring (status r) \<noteq> b)
           (map (\<lambda>r. if rpc_id r \<in> M then set_erroring b r else r) src) =
         filter (\<lambda>r. rpc_id r \<notin> M) src"
  using assms by (induction src) (auto simp: pool_simps)

lemma move_out:
  assumes "distinct (map rpc_id src)" "distinct (map rpc_id dst)" "ids src \<inter> ids dst = {}"
    and "\<forall>r\<in>set src. is_erroring (status r) \<noteq> b" "\<forall>r\<in>set dst. is_erroring (status r) = b"
  shows "\<exists>src1 dst1. foldl (\<lambda>st h. if P h then flag_and_copy b (hr_id h) st else st) (src, dst) heads = (src1, dst1) \<and>
           filter (\<lambda>r. is_erroring (status r) \<noteq> b) src1 = filter (\<lambda>r. rpc_id r \<notin> moved P heads) src \<and>
           ids dst1 = ids dst \<union> (ids src \<inter> moved P heads) \<and> distinct (map rpc_id dst1) \<and>
           (\<forall>r\<in>set dst1. is_erroring (status r) = b) \<and> prefix dst dst1"
proof -
  obtain new where new: "foldl (\<lambda>st h. if P h then flag_and_copy b (hr_id h) st else st) (src, dst) heads =
      (map (\<lambda>r. if rpc_id r \<in> moved P heads then set_erroring b r else r) src, dst @ new)"
    "ids new = ids src \<inter> moved P heads" "distinct (map rpc_id new)" "set new \<subseteq> set_erroring b ` set src"
    using move_fold [OF assms(1-3), of P b heads] by blast
  have "\<forall>r\<in>set (dst @ new). is_erroring (status r) = b"
    using assms(5) new(4) by (auto simp: pool_simps)
  moreover have "distinct (map rpc_id (dst @ new))" using assms(2,3) new(2,3) by auto
  moreover have "ids (dst @ new) = ids dst \<union> (ids src \<inter> moved P heads)" using new(2) by auto
  ultimately show ?thesis
    using new(1) filter_moved [OF assms(4), of "moved P heads"] by (intro exI conjI) auto
qed

lemma make_poverty_effect:
  fixes heads :: "head_result list"
  assumes "pool_ok rl pl"
  defines "F \<equiv> moved (behind (highest_head heads)) heads"
  shows "\<exists>pl1. make_poverty rl pl heads = (highest_head heads, filter (\<lambda>r. rpc_id r \<notin> F) rl, pl1) \<and>
           ids pl1 = ids pl \<union> (ids rl \<inter> F) \<and> pool_ok (filter (\<lambda>r. rpc_id r \<notin> F) rl) pl1 \<and> prefix pl pl1"
proof -
  note ok = pool_okD [OF assms(1)]
  obtain src1 dst1 where m: "foldl (\<lambda>st h. if behind (highest_head heads) h then flag_and_copy True (hr_id h) st else st) (rl, pl) heads = (src1, dst1)"
    "filter (\<lambda>r. is_erroring (status r) \<noteq> True) src1 = filter (\<lambda>r. rpc_id r \<notin> F) rl"
    "ids dst1 = ids pl \<union> (ids rl \<inter> F)" "distinct (map rpc_id dst1)"
    "\<forall>r\<in>set dst1. is_erroring (status r) = True" "prefix pl dst1"
    unfolding F_def using move_out [of rl pl True "behind (highest_head heads)" heads] ok by blast
  have "ids (filter (\<lambda>r. rpc_id r \<notin> F) rl) \<inter> ids dst1 = {}" using m(3) ok(3) by auto
  moreover have "distinct (map rpc_id (filter (\<lambda>r. rpc_id r \<notin> F) rl))"
    using ok(1) by (simp add: distinct_map_filter)
  ultimately have "pool_ok (filter (\<lambda>r. rpc_id r \<notin> F) rl) dst1"
    unfolding pool_ok_def using m(4,5) ok(5) by auto
  with m show ?thesis by (simp add: make_poverty_def)
qed

lemma escape_poverty_effect:
  fixes heads :: "head_result list" and agreed :: u64
  assumes "pool_ok rl pl"
  defines "G \<equiv> moved (following agreed) heads"
  shows "\<exists>upd rl1. escape_poverty rl pl heads agreed = (upd, rl1, filter (\<lambda>r. rpc_id r \<notin> G) pl) \<and>
           ids rl1 = ids rl \<union> (ids pl \<inter> G) \<and> pool_ok rl1 (filter (\<lambda>r. rpc_id r \<notin> G) pl) \<and> prefix rl rl1 \<and>
           upd = HealthUpd (if rl1 = [] then Unhealthy
                            else if filter (\<lambda>r. rpc_id r \<notin> G) pl = [] then Healthy else MissingRpcs)"
proof -
  note ok = pool_okD [OF assms(1)]
  obtain src1 dst1 where m: "foldl (\<lambda>st h. if following agreed h then flag_and_copy False (hr_id h) st else st) (pl, rl) heads = (src1, dst1)"
    "filter (\<lambda>r. is_erroring (status r) \<noteq> False) src1 = filter (\<lambda>r. rpc_id r \<notin> G) pl"
    "ids dst1 = ids rl \<union> (ids pl \<inter> G)" "distinct (map rpc_id dst1)"
    "\<forall>r\<in>set dst1. is_erroring (status r) = False" "prefix rl dst1"
    unfolding G_def using move_out [of pl rl False "following agreed" heads] ok by blast
  have "ids dst1 \<inter> ids (filter (\<lambda>r. rpc_id r \<notin> G) pl) = {}" using m(3) ok(3) by auto
  moreover have "distinct (map rpc_id (filter (\<lambda>r. rpc_id r \<notin> G) pl))"
    using ok(2) by (simp add: distinct_map_filter)
  ultimately have "pool_ok dst1 (filter (\<lambda>r. rpc_id r \<notin> G) pl)"
    unfolding pool_ok_def using m(4,5) ok(6) by auto
  with m show ?thesis by (simp add: escape_poverty_def Let_def)
qed

lemma highest_head_max: "h \<in> set heads \<Longrightarrow> hr_head h \<le> highest_head heads"
proof -
  have ge: "a \<le> foldl (\<lambda>h r. if h < hr_head r then hr_head r else h) a heads" for a heads
    by (induction heads arbitrary: a) (auto intro: order_trans less_imp_le)
  have "h \<in> set heads \<Longrightarrow> hr_head h \<le> foldl (\<lambda>h r. if h < hr_head r then hr_head r else h) a heads" for a
  proof (induction heads arbitrary: a)
    case (Cons x heads)
    show ?case
    proof (cases "h = x")
      case True
      have "hr_head h \<le> (if a < hr_head x then hr_head x else a)" using True by auto
      then show ?thesis using ge [of "if a < hr_head x then hr_head x else a" heads]
        by (auto intro: order_trans)
    qed (use Cons in auto)
  qed simp
  then show "h \<in> set heads \<Longrightarrow> hr_head h \<le> highest_head heads" by (simp add: highest_head_def)
qed

lemma highest_head_mem: "highest_head heads = 0 \<or> highest_head heads \<in> hr_head ` set heads"
proof -
  have "foldl (\<lambda>h r. if h < hr_head r then hr_head r else h) a heads = a \<or>
        foldl (\<lambda>h r. if h < hr_head r then hr_head r else h) a heads \<in> hr_head ` set heads" for a
  proof (induction heads arbitrary: a)
    case (Cons x heads)
    from Cons.IH [of "if a < hr_head x then hr_head x else a"] show ?case by auto
  qed simp
  then show ?thesis by (simp add: highest_head_def)
qed

section \<open>Properties of a round\<close>

lemma make_poverty_highest:
  "make_poverty rl pl heads = (agreed, rl1, pl1) \<Longrightarrow> agreed = highest_head heads"
  by (simp add: make_poverty_def Let_def split: prod.splits)

lemma check_Some:
  assumes "check S n1 n2 ttl rl pl = Some (upd, rl', pl')"
  obtains heads rl1 pl1 pheads where
    "head_check S (net_post n1) (net_timely n1) (net_arrival n1) ttl rl = Some heads"
    "make_poverty rl pl heads = (highest_head heads, rl1, pl1)"
    "head_check S (net_post n2) (net_timely n2) (net_arrival n2) ttl pl1 = Some pheads"
    "escape_poverty rl1 pl1 pheads (highest_head heads) = (upd, rl', pl')"
proof -
  from assms obtain heads where heads:
    "head_check S (net_post n1) (net_timely n1) (net_arrival n1) ttl rl = Some heads"
    by (auto simp: check_def bind_eq_Some_conv)
  obtain agreed rl1 pl1 where m: "make_poverty rl pl heads = (agreed, rl1, pl1)" by (metis prod.collapse)
  with heads assms obtain pheads where
    "head_check S (net_post n2) (net_timely n2) (net_arrival n2) ttl pl1 = Some pheads"
    "escape_poverty rl1 pl1 pheads agreed = (upd, rl', pl')"
    by (auto simp: check_def)
  with heads m that [of heads rl1 pl1 pheads] make_poverty_highest [OF m] show thesis by simp
qed

text \<open>A round ends when the time limit fits 64 bits; with a larger limit it waits for ever as soon as
  there is an endpoint to ask, and has changed nothing.\<close>

lemma check_ends: "unat ttl < 2 ^ 64 \<Longrightarrow> \<exists>upd rl' pl'. check S n1 n2 ttl rl pl = Some (upd, rl', pl')"
  by (auto simp: check_def head_check_def split: prod.splits) (metis prod.collapse)+

lemma check_stalls:
  assumes "2 ^ 64 \<le> unat ttl" "rl \<noteq> [] \<or> pl \<noteq> []"
  shows "check S n1 n2 ttl rl pl = None"
  using assms by (auto simp: check_def head_check_def make_poverty_def highest_head_def)

text \<open>A round of the health check loses and duplicates no endpoint, whatever the network
  answers and in whatever order: well-formed pools stay well formed (each endpoint in one of
  the two lists, once, flagged as erroring exactly in the poverty list), the set of endpoints
  is the same, and the health reported is unhealthy, missing or healthy as the active list is
  empty, the poverty list is not empty, or neither.\<close>

theorem round_conserves_endpoints:
  assumes "pool_ok rl pl" "check S n1 n2 ttl rl pl = Some (upd, rl', pl')"
  shows "pool_ok rl' pl' \<and> ids rl' \<union> ids pl' = ids rl \<union> ids pl \<and>
         upd = HealthUpd (if rl' = [] then Unhealthy else if pl' = [] then Healthy else MissingRpcs)"
proof -
  obtain heads rl1 pl1 pheads where c: "make_poverty rl pl heads = (highest_head heads, rl1, pl1)"
    "escape_poverty rl1 pl1 pheads (highest_head heads) = (upd, rl', pl')"
    by (rule check_Some [OF assms(2)])
  let ?F = "moved (behind (highest_head heads)) heads"
  have mp: "rl1 = filter (\<lambda>r. rpc_id r \<notin> ?F) rl" "ids pl1 = ids pl \<union> (ids rl \<inter> ?F)" "pool_ok rl1 pl1"
    using make_poverty_effect [OF assms(1), of heads] c(1) by auto
  let ?G = "moved (following (highest_head heads)) pheads"
  from escape_poverty_effect [OF mp(3), of pheads "highest_head heads"] c(2)
  have e: "pl' = filter (\<lambda>r. rpc_id r \<notin> ?G) pl1" "ids rl' = ids rl1 \<union> (ids pl1 \<inter> ?G)"
    "pool_ok rl' pl'"
    "upd = HealthUpd (if rl' = [] then Unhealthy else if pl' = [] then Healthy else MissingRpcs)"
    by auto
  have "ids rl' \<union> ids pl' = ids rl \<union> ids pl"
    unfolding e(1,2) ids_filter mp(1,2) by blast
  with e show ?thesis by blast
qed

lemma set_head_check:
  assumes "head_check S post timely arrival ttl l = Some heads" "\<And>xs. set (arrival xs) = set xs"
  shows "set heads = probe S post timely ` set l"
  using assms by (auto simp: head_check_def split: if_splits)

lemma head_check_subset:
  assumes "head_check S post timely arrival ttl l = Some heads" "\<And>xs. set (arrival xs) \<subseteq> set xs"
  shows "set heads \<subseteq> probe S post timely ` set l"
  using assms(1) assms(2) [of "map (probe S post timely) l"] by (auto simp: head_check_def split: if_splits)

lemma probe_id: "hr_id (probe S post timely r) = rpc_id r"
  by (simp add: probe_def Let_def split: outcome.split)

text \<open>C13. Who is active after a round, when every result arrives: an endpoint is in the active
  list only if in this round it reported a head at least as high as every head the active
  endpoints reported, and was not syncing; and an active endpoint that reported the highest
  head and was not syncing stays active.\<close>

theorem active_endpoints_follow_the_head:
  assumes "pool_ok rl pl" "check S n1 n2 ttl rl pl = Some (upd, rl', pl')"
    and "\<And>xs. set (net_arrival n1 xs) = set xs" "\<And>xs. set (net_arrival n2 xs) = set xs"
  shows "(\<forall>i\<in>ids rl'. \<exists>r n. rpc_id r = i \<and> n \<in> {n1, n2} \<and>
            (let h = probe S (net_post n) (net_timely n) r
             in \<not> hr_syncing h \<and> (\<forall>q\<in>set rl. hr_head (probe S (net_post n1) (net_timely n1) q) \<le> hr_head h))) \<and>
         (\<forall>r\<in>set rl. let h = probe S (net_post n1) (net_timely n1) r
             in \<not> hr_syncing h \<longrightarrow>
                (\<forall>q\<in>set rl. hr_head (probe S (net_post n1) (net_timely n1) q) \<le> hr_head h) \<longrightarrow>
                rpc_id r \<in> ids rl')"
proof -
  let ?p1 = "probe S (net_post n1) (net_timely n1)" and ?p2 = "probe S (net_post n2) (net_timely n2)"
  obtain heads rl1 pl1 pheads where c:
    "head_check S (net_post n1) (net_timely n1) (net_arrival n1) ttl rl = Some heads"
    "make_poverty rl pl heads = (highest_head heads, rl1, pl1)"
    "head_check S (net_post n2) (net_timely n2) (net_arrival n2) ttl pl1 = Some pheads"
    "escape_poverty rl1 pl1 pheads (highest_head heads) = (upd, rl', pl')"
    by (rule check_Some [OF assms(2)])
  let ?H = "highest_head heads"
  let ?F = "moved (behind ?H) heads" and ?G = "moved (following ?H) pheads"
  have heads: "set heads = ?p1 ` set rl" by (rule set_head_check [OF c(1) assms(3)])
  have top: "hr_head (?p1 q) \<le> ?H" if "q \<in> set rl" for q
    using highest_head_max [of "?p1 q" heads] heads that by blast
  have mp: "rl1 = filter (\<lambda>r. rpc_id r \<notin> ?F) rl" "pool_ok rl1 pl1"
    using make_poverty_effect [OF assms(1), of heads] c(2) by auto
  have pheads: "set pheads = ?p2 ` set pl1" by (rule set_head_check [OF c(3) assms(4)])
  from escape_poverty_effect [OF mp(2), of pheads ?H] c(4)
  have e: "ids rl' = ids (filter (\<lambda>r. rpc_id r \<notin> ?F) rl) \<union> (ids pl1 \<inter> ?G)"
    unfolding mp(1) by auto
  have inF: "rpc_id r \<in> ?F \<longleftrightarrow> behind ?H (?p1 r)" if "r \<in> set rl" for r
  proof -
    have "q = r" if "q \<in> set rl" "rpc_id q = rpc_id r" for q
      using pool_okD(1) [OF assms(1)] that \<open>r \<in> set rl\<close> by (simp add: distinct_map inj_on_def)
    then show ?thesis using that heads by (force simp: moved_def probe_id)
  qed
  have "\<exists>r n. rpc_id r = i \<and> n \<in> {n1, n2} \<and>
      (let h = probe S (net_post n) (net_timely n) r in \<not> hr_syncing h \<and> (\<forall>q\<in>set rl. hr_head (?p1 q) \<le> hr_head h))"
    if i: "i \<in> ids rl'" for i
  proof -
    from i e consider r where "r \<in> set rl" "rpc_id r = i" "rpc_id r \<notin> ?F" | "i \<in> ?G" by auto
    then show ?thesis
    proof cases
      case 1
      then have "\<not> behind ?H (?p1 r)" using inF by blast
      then have "\<not> hr_syncing (?p1 r)" "\<forall>q\<in>set rl. hr_head (?p1 q) \<le> hr_head (?p1 r)"
        using top by (auto simp: behind_def not_less intro: order_trans)
      with 1(2) show ?thesis by (intro exI [of _ r] exI [of _ n1]) (simp add: Let_def)
    next
      case 2
      then obtain r where r: "rpc_id r = i" "following ?H (?p2 r)"
        using pheads by (auto simp: moved_def probe_id)
      then have "\<not> hr_syncing (?p2 r)" "\<forall>q\<in>set rl. hr_head (?p1 q) \<le> hr_head (?p2 r)"
        using top by (auto simp: following_def intro: order_trans)
      with r(1) show ?thesis by (intro exI [of _ r] exI [of _ n2]) (simp add: Let_def)
    qed
  qed
  moreover have "rpc_id r \<in> ids rl'"
    if r: "r \<in> set rl" "\<not> hr_syncing (?p1 r)" "\<forall>q\<in>set rl. hr_head (?p1 q) \<le> hr_head (?p1 r)" for r
  proof -
    have "?H \<le> hr_head (?p1 r)" using highest_head_mem [of heads] heads r(3) by auto
    then have "rpc_id r \<notin> ?F" using inF [OF r(1)] r(2) by (simp add: behind_def not_less)
    then show ?thesis using e r(1) by auto
  qed
  ultimately show ?thesis by (auto simp: Let_def)
qed

text \<open>C25. An endpoint whose websocket connection drops is moved to the poverty list without being
  flagged as erroring. If it does not answer in the next round of the health check, that round
  removes it from the poverty list, which keeps only flagged endpoints, and does not return it
  to the active list: the endpoint is gone from both lists for good.\<close>

theorem dropped_endpoint_is_lost:
  assumes "pool_ok rl pl" "i \<in> ids rl" "send_dropped_to_poverty i rl pl = (rl0, pl0)"
    and "check S n1 n2 ttl rl0 pl0 = Some (upd, rl', pl')"
    and "\<And>r. rpc_id r = i \<Longrightarrow> \<not> net_timely n2 r" "\<And>xs. set (net_arrival n2 xs) \<subseteq> set xs"
  shows "i \<in> ids pl0 \<and> i \<notin> ids rl' \<union> ids pl'"
proof -
  note ok = pool_okD [OF assms(1)]
  obtain p where p: "position (\<lambda>r. rpc_id r = i) rl = Some p"
    using assms(2) position_None [of "\<lambda>r. rpc_id r = i" rl] by fastforce
  from position_Some [OF p] have p2: "p < length rl" "rpc_id (rl ! p) = i" by auto
  let ?r = "rl ! p"
  have notin: "i \<notin> ids pl" using assms(2) ok(3) by auto
  then have d: "rl0 = remove_at p rl" "pl0 = pl @ [?r]"
    using assms(3) p by (auto simp: send_dropped_to_poverty_def has_id_iff)
  have keys: "add_mset i (mset (map rpc_id rl0)) = mset (map rpc_id rl)"
    unfolding d mset_map mset_remove_at [OF p2(1)] by (simp add: p2(2))
  then have rl0: "distinct (map rpc_id rl0)" "i \<notin> ids rl0" "ids rl0 \<subseteq> ids rl"
  proof -
    have "distinct (i # map rpc_id rl0)"
      using ok(1) keys by (metis mset.simps(2) mset_eq_imp_distinct_iff)
    then show "distinct (map rpc_id rl0)" "i \<notin> ids rl0" by auto
    show "ids rl0 \<subseteq> ids rl" unfolding d by (auto simp: remove_at_def dest: in_set_takeD in_set_dropD)
  qed
  have pl0: "distinct (map rpc_id pl0)" "ids rl0 \<inter> ids pl0 = {}"
  proof -
    show "distinct (map rpc_id pl0)" using ok(2) notin p2(2) by (simp add: d(2))
    have e: "ids pl0 = insert i (ids pl)" using p2(2) by (simp add: d(2))
    have "ids rl0 \<inter> ids pl \<subseteq> ids rl \<inter> ids pl" by (rule Int_mono [OF rl0(3) subset_refl])
    then have "ids rl0 \<inter> ids pl = {}" unfolding ok(3) by simp
    with rl0(2) show "ids rl0 \<inter> ids pl0 = {}" unfolding e by simp
  qed
  obtain heads rl1 pl1 pheads where c:
    "make_poverty rl0 pl0 heads = (highest_head heads, rl1, pl1)"
    "head_check S (net_post n2) (net_timely n2) (net_arrival n2) ttl pl1 = Some pheads"
    "escape_poverty rl1 pl1 pheads (highest_head heads) = (upd, rl', pl')"
    by (rule check_Some [OF assms(4)])
  let ?H = "highest_head heads"
  let ?F = "moved (behind ?H) heads"
  obtain new where f1: "foldl (\<lambda>st h. if behind ?H h then flag_and_copy True (hr_id h) st else st) (rl0, pl0) heads =
      (map (\<lambda>r. if rpc_id r \<in> ?F then set_erroring True r else r) rl0, pl0 @ new)"
    "ids new = ids rl0 \<inter> ?F" "distinct (map rpc_id new)"
    using move_fold [OF rl0(1) pl0, of "behind ?H" True heads] by blast
  have healthy: "\<forall>r\<in>set rl0. is_erroring (status r) \<noteq> True"
    using ok(5) unfolding d by (auto simp: remove_at_def dest: in_set_takeD in_set_dropD)
  let ?P = "pl0 @ new" and ?rl2 = "filter (\<lambda>r. rpc_id r \<notin> ?F) rl0"
  have mp: "rl1 = ?rl2" "pl1 = ?P"
    using c(1) f1(1) filter_moved [OF healthy, of ?F] by (simp_all add: make_poverty_def Let_def)
  let ?G = "moved (following ?H) pheads"
  have P: "distinct (map rpc_id ?P)" "distinct (map rpc_id ?rl2)" "ids ?P \<inter> ids ?rl2 = {}"
  proof -
    show "distinct (map rpc_id ?P)" using pl0 f1(2,3) by auto
    show "distinct (map rpc_id ?rl2)" using rl0(1) by (simp add: distinct_map_filter)
    have "ids ?P = ids pl0 \<union> (ids rl0 \<inter> ?F)" unfolding f1(2) [symmetric] by (simp add: image_Un)
    then show "ids ?P \<inter> ids ?rl2 = {}" unfolding ids_filter using pl0(2) by blast
  qed
  obtain new2 where f2: "foldl (\<lambda>st h. if following ?H h then flag_and_copy False (hr_id h) st else st) (?P, ?rl2) pheads =
      (map (\<lambda>r. if rpc_id r \<in> ?G then set_erroring False r else r) ?P, ?rl2 @ new2)"
    "ids new2 = ids ?P \<inter> ?G"
    using move_fold [OF P, of "following ?H" False pheads] by blast
  have iG: "i \<notin> ?G"
  proof
    assume "i \<in> ?G"
    then obtain h where h: "h \<in> set pheads" "hr_id h = i" "\<not> hr_syncing h"
      by (auto simp: moved_def following_def)
    then obtain r where "h = probe S (net_post n2) (net_timely n2) r"
      using head_check_subset [OF c(2) assms(6)] by auto
    with h assms(5) [of r] show False by (auto simp: probe_id) (simp add: probe_def)
  qed
  from c(3) f2(1) have res: "rl' = ?rl2 @ new2"
    "pl' = filter (\<lambda>r. is_erroring (status r)) (map (\<lambda>r. if rpc_id r \<in> ?G then set_erroring False r else r) ?P)"
    by (auto simp: escape_poverty_def mp Let_def)
  have "i \<notin> ids rl'" unfolding res(1) using rl0(2) f2(2) iG by auto
  moreover have "i \<notin> ids pl'"
  proof
    assume "i \<in> ids pl'"
    then obtain q where q: "q \<in> set ?P" "rpc_id q = i" "is_erroring (status q)"
      unfolding res(2) using iG by (auto simp: pool_simps split: if_splits)
    moreover have "?r \<in> set ?P" by (simp add: d(2))
    moreover have "inj_on rpc_id (set ?P)" using P(1) unfolding distinct_map by (rule conjunct2)
    ultimately have "q = ?r" using p2(2) inj_onD [of rpc_id "set ?P" q ?r] by metis
    with q(3) ok(5) [of ?r] p2(1) show False by simp
  qed
  ultimately show ?thesis using p2(2) by (simp add: d(2))
qed

section \<open>A concrete round\<close>

text \<open>Two endpoints: number 1 answers head 16 and is in step, number 2 does not answer.\<close>

definition round_codec :: serde where
  "round_codec = sample_serde [(''head'', JObj [(''result'', JStr ''0x10'')]), (''sync'', JObj [(''result'', JBool False)])]"

definition round_post :: poster where
  "round_post u body =
     (if as_str (jindex body ''method'') = Some ''eth_syncing'' then Inr (Inr ''sync'') else Inr (Inr ''head''))"

definition round_net :: network where
  "round_net = \<lparr>net_post = round_post, net_timely = (\<lambda>r. rpc_id r = 1), net_arrival = rev\<rparr>"

definition round_pool :: "rpc list" where
  "round_pool = [demo_rpc 1 7 2, demo_rpc 2 3 2]"

lemma round_pool_ok: "pool_ok round_pool []"
  by (simp add: pool_ok_def round_pool_def demo_rpc_def status_default_def)

theorem round_conserves_endpoints_witness:
  "\<exists>upd rl' pl'. check round_codec round_net round_net 100 round_pool [] = Some (upd, rl', pl') \<and>
     ids rl' \<union> ids pl' = {1, 2}"
proof -
  obtain upd rl' pl' where c: "check round_codec round_net round_net 100 round_pool [] = Some (upd, rl', pl')"
    using check_ends [of 100 round_codec round_net round_net round_pool "[]"] by auto
  from round_conserves_endpoints [OF round_pool_ok c] c show ?thesis
    by (auto simp: round_pool_def demo_rpc_def)
qed

theorem active_endpoints_follow_the_head_witness:
  "\<exists>upd rl' pl'. check round_codec round_net round_net 100 round_pool [] = Some (upd, rl', pl') \<and> 2 \<notin> ids rl'"
proof -
  obtain upd rl' pl' where c: "check round_codec round_net round_net 100 round_pool [] = Some (upd, rl', pl')"
    using check_ends [of 100 round_codec round_net round_net round_pool "[]"] by auto
  have "hr_syncing (probe round_codec (net_post n) (net_timely n) r)" if "rpc_id r = 2" "n \<in> {round_net, round_net}" for r n
    using that by (simp add: probe_def round_net_def)
  with active_endpoints_follow_the_head [OF round_pool_ok c] have "2 \<notin> ids rl'"
    by (fastforce simp: round_net_def Let_def)
  with c show ?thesis by blast
qed

theorem dropped_endpoint_is_lost_witness:
  "\<exists>rl0 pl0 upd rl' pl'. send_dropped_to_poverty 2 round_pool [] = (rl0, pl0) \<and>
     check round_codec round_net round_net 100 rl0 pl0 = Some (upd, rl', pl') \<and> 2 \<in> ids pl0 \<and> 2 \<notin> ids rl' \<union> ids pl'"
proof -
  obtain rl0 pl0 where d: "send_dropped_to_poverty 2 round_pool [] = (rl0, pl0)" by (metis prod.collapse)
  obtain upd rl' pl' where c: "check round_codec round_net round_net 100 rl0 pl0 = Some (upd, rl', pl')"
    using check_ends [of 100 round_codec round_net round_net rl0 pl0] by auto
  have "2 \<in> ids round_pool" by (simp add: round_pool_def demo_rpc_def)
  from dropped_endpoint_is_lost [OF round_pool_ok this d c] d c show ?thesis
    by (auto simp: round_net_def)
qed

end
