(* ===== verification/AcceptHttp.thy ===== *)
theory AcceptHttp
  imports Health
begin

text \<open>
  \<open>src/src/balancer/accept_http.rs\<close> and \<open>src/src/balancer/response_errors.rs\<close>: how an HTTP
  request is answered. A request that may be cached is looked up in the database; otherwise,
  or when it is not there, it is sent to the endpoints the selection picks until one answers
  or the retries are used up, and the answer is offered to the cache. Arguments stand for what
  is outside: the hash function, the reply of the database task, the answers of the endpoints
  (\<open>attempt_reply\<close> of attempt \<open>k\<close>), the selection algorithm of each attempt (it reads the
  clock) and what other tasks do to the endpoint list before each attempt.
\<close>

section \<open>Error responses\<close>

definition no_rpc_available :: response where
  "no_rpc_available =
     plain_response 500 ''{code:-32002, message:\"error: No working RPC available! Try again later...\"}''"

definition timed_out :: response where
  "timed_out =
     plain_response 408 ''{code:-32001, message:\"error: Request timed out! Try again later...\"}''"

definition cache_error :: response where
  "cache_error =
     plain_response 500 ''{code:-32003, message:\"error: Cache error! Try again later...\"}''"

definition rpc_response :: "nat \<Rightarrow> string \<Rightarrow> response" where
  "rpc_response st body = plain_response st body"

definition invalid_request_body :: string where
  "invalid_request_body =
     ''{\"jsonrpc\":\"2.0\",\"id\":null,\"error\":{\"code\":-32600,\"message\":\"Invalid request: expected a single JSON-RPC request object\"}}''"

definition invalid_request :: response where
  "invalid_request =
     \<lparr>resp_status = 400, resp_headers = [(''Content-Type'', ''application/json'')],
      resp_body = invalid_request_body\<rparr>"

definition json_response :: "string \<Rightarrow> response" where
  "json_response body =
     \<lparr>resp_status = 200,
      resp_headers = [(''Content-Type'', ''application/json''), (''Access-Control-Allow-Origin'', ''*'')],
      resp_body = body\<rparr>"

lemma json_response_inj [simp]: "json_response a = json_response b \<longleftrightarrow> a = b"
  by (simp add: json_response_def)

section \<open>Asking endpoints\<close>

record request_params =
  ttl :: u128
  max_retries :: u32
  header_check :: bool

text \<open>An attempt is answered in time, fails in time, or does not end within the time limit.\<close>

datatype attempt_reply = InTime "rpc_error + string" | TooLate

record outside =
  select :: "nat \<Rightarrow> rpc list \<Rightarrow> (rpc \<times> nat option) \<times> rpc list"
  default_rpc :: rpc
  attempt :: "nat \<Rightarrow> rpc \<Rightarrow> json \<Rightarrow> attempt_reply"
  others :: "nat \<Rightarrow> rpc list rwlock \<Rightarrow> rpc list rwlock"

datatype fetched = Got usize string | NoRpc | OutOfRetries

text \<open>\<open>fetch_from_rpc!\<close>: the loop, with the endpoints asked so far. \<open>ttl.try_into().unwrap()\<close>
  panics on a limit over 64 bits. Every failed attempt is charged the whole limit.\<close>

function fetch_loop ::
  "outside \<Rightarrow> u128 \<Rightarrow> u32 \<Rightarrow> nat \<Rightarrow> rpc list rwlock \<Rightarrow> json \<Rightarrow> usize list \<times> rpc list rwlock \<times> fetched outcome" where
  "fetch_loop X limit tries k rl tx =
     (let rl1 = others X k rl;
          ((r, pos), l) = pick (select X k) (default_rpc X) (contents rl1);
          rl2 = rl1\<lparr>contents := l\<rparr>
      in case pos of
           None \<Rightarrow> ([], rl2, Ret NoRpc)
         | Some _ \<Rightarrow>
             (if 2 ^ 64 \<le> unat limit then ([], rl2, Panic)
              else
                case attempt X k r tx of
                  InTime (Inr answer) \<Rightarrow> ([rpc_id r], rl2, Ret (Got (rpc_id r) answer))
                | _ \<Rightarrow>
                    (case update_rpc_latency rl2 (rpc_id r) (unat limit * 1000000) of
                       (Panic, rl3) \<Rightarrow> ([rpc_id r], rl3, Panic)
                     | (Ret _, rl3) \<Rightarrow>
                         (if unat tries \<le> Suc k then ([rpc_id r], rl3, Ret OutOfRetries)
                          else
                            case fetch_loop X limit tries (Suc k) rl3 tx of
                              (asked, rl4, res) \<Rightarrow> (rpc_id r # asked, rl4, res)))))"
  by pat_completeness auto
termination
  by (relation "measure (\<lambda>(X, limit, tries, k, rl, tx). unat tries - k)") auto

declare fetch_loop.simps [simp del]

section \<open>Answering a request\<close>

text \<open>What the cache side needs, and the state a request works on: the endpoint list, the head
  cache, the requests sent to the database task. The last field lists the endpoints asked.\<close>

record cache_side =
  codec :: serde
  no_cache :: bool
  hash_of :: "string \<Rightarrow> string"
  named_now :: "named_blocknumbers rwlock"
  final_now :: u64
  db_reply :: "string \<Rightarrow> unit + string option"

record work =
  w_rpcs :: "rpc list rwlock"
  w_head :: "head_cache rwlock"
  w_sent :: "request_kind list"
  w_asked :: "usize list"

definition request_id :: "json \<Rightarrow> u64" where
  "request_id v = (case as_u64 v of Some n \<Rightarrow> n | None \<Rightarrow> 0)"

text \<open>The branch of \<open>get_response!\<close> that asks an endpoint: the id goes back in, and the answer is
  offered to the cache under the hash of the request without it.\<close>

definition fetch_and_cache ::
  "cache_side \<Rightarrow> outside \<Rightarrow> request_params \<Rightarrow> json \<Rightarrow> string \<Rightarrow> u64 \<Rightarrow> work \<Rightarrow>
     work \<times> (response \<times> usize option) outcome" where
  "fetch_and_cache C X P tx tx_hash i w =
     (case jset ''id'' (JNum (PosInt i)) tx of
        Panic \<Rightarrow> (w, Panic)
      | Ret tx1 \<Rightarrow>
          (case fetch_loop X (ttl P) (max_retries P) 0 (w_rpcs w) tx1 of
             (asked, rl, res) \<Rightarrow>
               (let w1 = w\<lparr>w_rpcs := rl, w_asked := w_asked w @ asked\<rparr>
                in case res of
                     Panic \<Rightarrow> (w1, Panic)
                   | Ret NoRpc \<Rightarrow> (w1, Ret (no_rpc_available, None))
                   | Ret OutOfRetries \<Rightarrow> (w1, Ret (timed_out, None))
                   | Ret (Got rid rx) \<Rightarrow>
                       (case cache_query (codec C) (no_cache C)
                               \<lparr>finalized_rx = final_now C, named_numbers = named_now C,
                                args_head_cache = w_head w1\<rparr> rx tx1 tx_hash of
                          Panic \<Rightarrow> (w1, Panic)
                        | Ret (hc, reqs) \<Rightarrow>
                            (w1\<lparr>w_head := hc, w_sent := w_sent w1 @ reqs\<rparr>,
                             Ret (json_response rx, Some rid))))))"

text \<open>\<open>get_response!\<close>: the stored answer with the client's id put in, or the answer of an endpoint.\<close>

definition get_response ::
  "cache_side \<Rightarrow> outside \<Rightarrow> request_params \<Rightarrow> json \<Rightarrow> string \<Rightarrow> bool \<Rightarrow> u64 \<Rightarrow> work \<Rightarrow>
     work \<times> (response \<times> usize option) outcome" where
  "get_response C X P tx tx_hash cacheable i w =
     (let cached = (if cacheable then db_reply C tx_hash else Inr None)
      in case cached of
           Inr (Some rax) \<Rightarrow>
             (case simd_parse (codec C) rax of
                Inl _ \<Rightarrow> (w, Panic)
              | Inr v \<Rightarrow>
                  (case jset ''id'' (JNum (PosInt i)) v of
                     Panic \<Rightarrow> (w, Panic)
                   | Ret v' \<Rightarrow> (w, Ret (json_response (to_text (codec C) v'), None))))
         | Inr None \<Rightarrow> fetch_and_cache C X P tx tx_hash i w
         | Inl _ \<Rightarrow> (w, Ret (cache_error, None)))"

definition forward_value ::
  "cache_side \<Rightarrow> outside \<Rightarrow> request_params \<Rightarrow> json \<Rightarrow> work \<Rightarrow> work \<times> (response \<times> usize option) outcome" where
  "forward_value C X P tx w =
     (if \<not> is_object tx then (w, Ret (invalid_request, None))
      else
        case jtake ''id'' tx of
          Panic \<Rightarrow> (w, Panic)
        | Ret (idv, tx1) \<Rightarrow>
            (let i = request_id idv
             in case replace_block_tags (codec C) tx1 (named_now C) of
                  Panic \<Rightarrow> (w, Panic)
                | Ret tx2 \<Rightarrow>
                    (let tx_string = to_text (codec C) tx2;
                         tx_hash = hash_of C tx_string;
                         cacheable = (\<not> has_block_tag tx_string)
                     in get_response C X P tx2 tx_hash cacheable i w)))"

record http_request =
  content_type :: "string option"
  body :: "string + string"
  upgrade_request :: bool

definition forward_body ::
  "cache_side \<Rightarrow> outside \<Rightarrow> request_params \<Rightarrow> http_request \<Rightarrow> work \<Rightarrow>
     work \<times> (response \<times> usize option) outcome" where
  "forward_body C X P req w =
     (if header_check P \<and> content_type req \<noteq> Some ''application/json''
      then (w, Ret (plain_response 400 ''Improper content-type header'', None))
      else
        case incoming_to_value (codec C) (body req) of
          Panic \<Rightarrow> (w, Panic)
        | Ret (Inl e) \<Rightarrow> (w, Panic)
        | Ret (Inr tx) \<Rightarrow> forward_value C X P tx w)"

text \<open>\<open>accept_request\<close>. \<open>upgraded\<close> is what the websocket library makes of an upgrade request, and
  \<open>elapsed\<close> the time the request took, in nanoseconds.\<close>

definition accept_request ::
  "cache_side \<Rightarrow> outside \<Rightarrow> bool rwlock \<Rightarrow> request_params \<Rightarrow> (string + response) \<Rightarrow> nat \<Rightarrow> http_request \<Rightarrow>
     work \<Rightarrow> work \<times> response outcome" where
  "accept_request C X is_ws P upgraded elapsed req w =
     (if poisoned is_ws then (w, Panic)
      else if upgrade_request req
      then
        (if \<not> contents is_ws
         then (w, Ret (rpc_response 500 ''{code:-32005, message:\"error: WebSockets are disabled!\"}''))
         else
           case upgraded of
             Inr resp \<Rightarrow> (w, Ret resp)
           | Inl _ \<Rightarrow>
               (w, Ret (rpc_response 500
                  ''{code:-32004, message:\"error: Websocket upgrade error! Try again later...\"}'')))
      else
        case forward_body C X P req w of
          (w1, Panic) \<Rightarrow> (w1, Panic)
        | (w1, Ret (resp, rid)) \<Rightarrow>
            (case rid of
               None \<Rightarrow> (w1, Ret resp)
             | Some i \<Rightarrow>
                 (case update_rpc_latency (w_rpcs w1) i elapsed of
                    (Panic, rl) \<Rightarrow> (w1\<lparr>w_rpcs := rl\<rparr>, Panic)
                  | (Ret _, rl) \<Rightarrow> (w1\<lparr>w_rpcs := rl\<rparr>, Ret resp))))"

section \<open>The retry loop\<close>

text \<open>One attempt, as an unfolding rule: the state after the pick, and the five ways to go on.\<close>

lemma fetch_loop_cases [consumes 1, case_names none big got poison stop more]:
  assumes "fetch_loop X limit tries k rl tx = (asked, rl', res)"
  obtains (none) "asked = []" "res = Ret NoRpc" "contents (others X k rl) = [] \<or> snd (fst (pick (select X k) (default_rpc X) (contents (others X k rl)))) = None"
  | (big) "asked = []" "res = Panic"
  | (got) r answer l i where "asked = [rpc_id r]" "res = Ret (Got (rpc_id r) answer)"
      "pick (select X k) (default_rpc X) (contents (others X k rl)) = ((r, Some i), l)"
      "attempt X k r tx = InTime (Inr answer)" "rl' = (others X k rl)\<lparr>contents := l\<rparr>"
  | (poison) r :: rpc where "asked = [rpc_id r]" "res = Panic"
  | (stop) r :: rpc where "asked = [rpc_id r]" "res = Ret OutOfRetries" "unat tries \<le> Suc k"
  | (more) r :: rpc and rl3 asked' where "asked = rpc_id r # asked'" "Suc k < unat tries"
      "fetch_loop X limit tries (Suc k) rl3 tx = (asked', rl', res)"
proof -
  obtain r pos l where p: "pick (select X k) (default_rpc X) (contents (others X k rl)) = ((r, pos), l)"
    by (metis prod.collapse)
  let ?rl2 = "(others X k rl)\<lparr>contents := l\<rparr>"
  note u = assms [unfolded fetch_loop.simps [of X limit tries k rl tx] p Let_def, simplified]
  show thesis
  proof (cases pos)
    case None
    with u p none show ?thesis by simp
  next
    case (Some i)
    show ?thesis
    proof (cases "2 ^ 64 \<le> unat limit")
      case True
      with u Some big show ?thesis by simp
    next
      case lim: False
      obtain o3 rl3 where upd: "update_rpc_latency ?rl2 (rpc_id r) (unat limit * 1000000) = (o3, rl3)"
        by (metis prod.collapse)
      obtain asked' rl4 res' where rec: "fetch_loop X limit tries (Suc k) rl3 tx = (asked', rl4, res')"
        by (metis prod.collapse)
      have failed: ?thesis if "\<forall>answer. attempt X k r tx \<noteq> InTime (Inr answer)"
      proof -
        have f: "(case o3 of
            Panic \<Rightarrow> ([rpc_id r], rl3, Panic)
          | Ret _ \<Rightarrow>
             (if unat tries \<le> Suc k then ([rpc_id r], rl3, Ret OutOfRetries)
              else case fetch_loop X limit tries (Suc k) rl3 tx of
                 (asked, rl4, res) \<Rightarrow> (rpc_id r # asked, rl4, res))) = (asked, rl', res)"
        proof (cases "attempt X k r tx")
          case (InTime res1)
          with that obtain e where "res1 = Inl e" by (cases res1) auto
          with InTime u Some lim upd show ?thesis by simp
        qed (use u Some lim upd in simp)
        from f rec poison [of r] stop [of r] more [of r asked' rl3] show ?thesis
          by (cases o3) (auto split: if_splits)
      qed
      show ?thesis
      proof (cases "attempt X k r tx")
        case (InTime res1)
        then show ?thesis
          using u Some lim p failed got [of r] by (cases res1) auto
      qed (use failed in simp)
    qed
  qed
qed

lemma fetch_loop_bound:
  "fetch_loop X limit tries k rl tx = (asked, rl', res) \<Longrightarrow>
     length asked \<le> (if k < unat tries then unat tries - k else 1)"
proof (induction "unat tries - k" arbitrary: k rl asked rl' res rule: less_induct)
  case less
  from less.prems show ?case
  proof (cases rule: fetch_loop_cases)
    case (more r rl3 asked')
    then have "unat tries - Suc k < unat tries - k" by linarith
    from less.hyps [OF this more(3)] more show ?thesis by auto
  qed auto
qed

lemma fetch_loop_exhausted:
  "fetch_loop X limit tries k rl tx = (asked, rl', Ret OutOfRetries) \<Longrightarrow>
     length asked = (if k < unat tries then unat tries - k else 1)"
proof (induction "unat tries - k" arbitrary: k rl asked rl' rule: less_induct)
  case less
  from less.prems show ?case
  proof (cases rule: fetch_loop_cases)
    case (more r rl3 asked')
    then have "unat tries - Suc k < unat tries - k" by linarith
    from less.hyps [OF this more(3)] more show ?thesis by auto
  qed auto
qed

lemma fetch_loop_answer:
  "fetch_loop X limit tries k rl tx = (asked, rl', Ret (Got i answer)) \<Longrightarrow>
     asked \<noteq> [] \<and> last asked = i \<and> (\<exists>r. rpc_id r = i \<and> attempt X (k + length asked - 1) r tx = InTime (Inr answer))"
proof (induction "unat tries - k" arbitrary: k rl asked rl' rule: less_induct)
  case less
  from less.prems show ?case
  proof (cases rule: fetch_loop_cases)
    case (more r rl3 asked')
    then have "unat tries - Suc k < unat tries - k" by linarith
    from less.hyps [OF this more(3)] more show ?thesis by auto
  qed auto
qed

lemma update_rpc_latency_ids:
  "update_rpc_latency rl i n = (res, rl') \<Longrightarrow> map rpc_id (contents rl') = map rpc_id (contents rl)"
proof (cases "position (\<lambda>r. rpc_id r = i) (contents rl)")
  case (Some j)
  assume u: "update_rpc_latency rl i n = (res, rl')"
  from position_Some [OF Some] have j: "j < length (contents rl)" by simp
  show ?thesis
  proof (cases "update_latency (f64_of_nat n) (contents rl ! j)")
    case (Ret r)
    from update_latency_ids(1) [OF Ret] u Some Ret j show ?thesis
      by (auto simp: update_rpc_latency_def map_update list_update_same_conv)
  qed (use u Some in \<open>auto simp: update_rpc_latency_def\<close>)
qed (auto simp: update_rpc_latency_def)

text \<open>Under the laws of a selection algorithm and without interference the loop keeps the list.\<close>

definition undisturbed :: "outside \<Rightarrow> bool" where
  "undisturbed X \<longleftrightarrow> (\<forall>k rl. others X k rl = rl)"

lemma fetch_loop_ids:
  assumes "\<And>k. selector (select X k)" "undisturbed X"
  shows "fetch_loop X limit tries k rl tx = (asked, rl', res) \<Longrightarrow>
           map rpc_id (contents rl') = map rpc_id (contents rl)"
proof (induction "unat tries - k" arbitrary: k rl asked rl' res rule: less_induct)
  case less
  obtain r pos l where p: "pick (select X k) (default_rpc X) (contents rl) = ((r, pos), l)"
    by (metis prod.collapse)
  have keep: "map rpc_id l = map rpc_id (contents rl)"
    using selector.pick_ids [OF assms(1), of k "default_rpc X" "contents rl"] p by simp
  have un: "others X k rl = rl" using assms(2) by (simp add: undisturbed_def)
  obtain o3 rl3 where upd: "update_rpc_latency (rl\<lparr>contents := l\<rparr>) (rpc_id r) (unat limit * 1000000) = (o3, rl3)"
    by (metis prod.collapse)
  have keep3: "map rpc_id (contents rl3) = map rpc_id (contents rl)"
    using update_rpc_latency_ids [OF upd] keep by simp
  obtain asked' rl4 res' where rec: "fetch_loop X limit tries (Suc k) rl3 tx = (asked', rl4, res')"
    by (metis prod.collapse)
  have keep4: "map rpc_id (contents rl4) = map rpc_id (contents rl)" if "Suc k < unat tries"
    using less.hyps [OF _ rec] that keep3 by simp
  note u = less.prems [unfolded fetch_loop.simps [of X limit tries k rl tx] p un Let_def, simplified]
  show ?case
    using u upd rec keep keep3 keep4
    by (cases pos; cases "attempt X k r tx"; cases o3) (auto split: if_splits sum.splits)
qed

lemma fetch_loop_asks:
  assumes "selector (select X k)" "undisturbed X" "contents rl \<noteq> []" "unat limit < 2 ^ 64"
    and "fetch_loop X limit tries k rl tx = (asked, rl', res)"
  shows "\<exists>i more. asked = i # more \<and> i \<in> rpc_id ` set (contents rl)"
proof -
  obtain r pos l where p: "pick (select X k) (default_rpc X) (contents rl) = ((r, pos), l)"
    by (metis prod.collapse)
  then obtain i where i: "pos = Some i"
    using selector.pick_None [OF assms(1), of "default_rpc X" "contents rl"] assms(3) by auto
  have "i < length l" "r = l ! i"
    using selector.pick_Some [OF assms(1), of "default_rpc X" "contents rl" i]
      selector.pick_length [OF assms(1), of "default_rpc X" "contents rl"] p i by auto
  then have "rpc_id r \<in> set (map rpc_id l)" by simp
  moreover have "map rpc_id l = map rpc_id (contents rl)"
    using selector.pick_ids [OF assms(1), of "default_rpc X" "contents rl"] p by simp
  ultimately have mem: "rpc_id r \<in> rpc_id ` set (contents rl)" by (metis set_map)
  have un: "others X k rl = rl" using assms(2) by (simp add: undisturbed_def)
  obtain o3 rl3 where upd: "update_rpc_latency (rl\<lparr>contents := l\<rparr>) (rpc_id r) (unat limit * 1000000) = (o3, rl3)"
    by (metis prod.collapse)
  obtain asked' rl4 res' where rec: "fetch_loop X limit tries (Suc k) rl3 tx = (asked', rl4, res')"
    by (metis prod.collapse)
  note u = assms(5) [unfolded fetch_loop.simps [of X limit tries k rl tx] p un Let_def, simplified]
  have "\<exists>more. asked = rpc_id r # more"
    using u upd rec i assms(4)
    by (cases "attempt X k r tx"; cases o3) (auto split: if_splits sum.splits)
  with mem show ?thesis by blast
qed

section \<open>Properties of requests\<close>

text \<open>C7. The retry loop ends, whatever the endpoints answer and whatever other tasks do to the
  list meanwhile: it asks at most \<open>max(1, max_retries)\<close> endpoints, gives up only after asking that
  many, and returns an answer only from the last endpoint it asked; without interference every
  endpoint stays in its place.\<close>

theorem fetch_ends:
  assumes "fetch_loop X limit tries 0 rl tx = (asked, rl', res)"
  shows "length asked \<le> max 1 (unat tries) \<and>
         (res = Ret OutOfRetries \<longrightarrow> length asked = max 1 (unat tries)) \<and>
         (\<forall>i answer. res = Ret (Got i answer) \<longrightarrow> asked \<noteq> [] \<and> last asked = i \<and>
            (\<exists>r. rpc_id r = i \<and> attempt X (length asked - 1) r tx = InTime (Inr answer))) \<and>
         ((\<forall>k. selector (select X k)) \<and> undisturbed X \<longrightarrow>
            map rpc_id (contents rl') = map rpc_id (contents rl))"
  using fetch_loop_bound [OF assms] fetch_loop_exhausted [of X limit tries 0 rl tx asked rl']
    fetch_loop_answer [of X limit tries 0 rl tx asked rl'] fetch_loop_ids [OF _ _ assms] assms
  by (auto split: if_splits)

text \<open>The request after the id is taken out and the tags are rewritten.\<close>

definition prepared :: "cache_side \<Rightarrow> json \<Rightarrow> json outcome" where
  "prepared C tx = obind (jset ''id'' JNull tx) (\<lambda>tx1. replace_block_tags (codec C) tx1 (named_now C))"

lemma jtake_object:
  "is_object tx \<Longrightarrow> \<exists>tx1. jset ''id'' JNull tx = Ret tx1 \<and> jtake ''id'' tx = Ret (jindex tx ''id'', tx1)"
  using jset_object [of tx "''id''" JNull] by (auto simp: jtake_def)

lemma forward_value_prepared:
  assumes "is_object tx"
  shows "forward_value C X P tx w =
    (case prepared C tx of
       Panic \<Rightarrow> (w, Panic)
     | Ret tx2 \<Rightarrow>
        (let i = request_id (jindex tx ''id''); tx_string = to_text (codec C) tx2;
             tx_hash = hash_of C tx_string;
             cached = (if \<not> has_block_tag tx_string then db_reply C tx_hash else Inr None)
         in case cached of
              Inr (Some rax) \<Rightarrow>
                (case simd_parse (codec C) rax of
                   Inl _ \<Rightarrow> (w, Panic)
                 | Inr v \<Rightarrow>
                     (case jset ''id'' (JNum (PosInt i)) v of
                        Panic \<Rightarrow> (w, Panic)
                      | Ret v' \<Rightarrow> (w, Ret (json_response (to_text (codec C) v'), None))))
            | Inr None \<Rightarrow> fetch_and_cache C X P tx2 tx_hash i w
            | Inl _ \<Rightarrow> (w, Ret (cache_error, None))))"
proof -
  obtain tx1 where t: "jset ''id'' JNull tx = Ret tx1" "jtake ''id'' tx = Ret (jindex tx ''id'', tx1)"
    using jtake_object [OF assms] by blast
  show ?thesis
    using assms t
    by (cases "replace_block_tags (codec C) tx1 (named_now C)")
      (simp_all add: forward_value_def get_response_def prepared_def Let_def)
qed

lemma fetch_and_cache_sent:
  assumes "fetch_and_cache C X P tx h i w = (w', out)"
  shows "\<exists>reqs. w_sent w' = w_sent w @ reqs \<and>
     (reqs = [] \<or> (\<exists>v tx1 rx. reqs = [Write h v] \<and> jset ''id'' (JNum (PosInt i)) tx = Ret tx1 \<and>
        \<not> has_block_tag (to_text (codec C) tx1) \<and> out = Ret (json_response rx, Some (last (w_asked w'))) \<and>
        \<not> contains rx ''error'' \<and>
        (\<exists>j j'. simd_parse (codec C) rx = Inr j \<and> jset ''id'' JNull j = Ret j' \<and> v = simd_to_vec (codec C) j')))"
proof (cases "jset ''id'' (JNum (PosInt i)) tx")
  case (Ret tx1)
  obtain asked rl res where f: "fetch_loop X (ttl P) (max_retries P) 0 (w_rpcs w) tx1 = (asked, rl, res)"
    by (metis prod.collapse)
  show ?thesis
  proof (cases "\<exists>rid rx. res = Ret (Got rid rx)")
    case True
    then obtain rid rx where g: "res = Ret (Got rid rx)" by blast
    let ?args = "\<lparr>finalized_rx = final_now C, named_numbers = named_now C, args_head_cache = w_head w\<rparr>"
    have last: "asked \<noteq> []" "last asked = rid"
      using fetch_loop_answer f g by blast+
    show ?thesis
    proof (cases "cache_query (codec C) (no_cache C) ?args rx tx1 h")
      case Panic
      with assms Ret f g show ?thesis by (auto simp: fetch_and_cache_def Let_def)
    next
      case q: (Ret x)
      obtain hc reqs where x: "x = (hc, reqs)" by (cases x)
      from assms Ret f g q x have w': "w_sent w' = w_sent w @ reqs" "w_asked w' = w_asked w @ asked"
        "out = Ret (json_response rx, Some rid)"
        by (auto simp: fetch_and_cache_def Let_def)
      from q x have "cache_query (codec C) (no_cache C) ?args rx tx1 h = Ret (hc, reqs)" by simp
      note qr = this
      show ?thesis
      proof (cases "reqs = []")
        case False
        then obtain v where v: "reqs = [Write h v]" using cache_query_effect [OF qr] by auto
        from cache_write_facts [OF qr, of "Write h v"] v obtain j j' where
          "\<not> has_block_tag (to_text (codec C) tx1)" "\<not> contains rx ''error''"
          "simd_parse (codec C) rx = Inr j" "jset ''id'' JNull j = Ret j'" "v = simd_to_vec (codec C) j'"
          by auto
        with w' last Ret v show ?thesis by auto
      qed (use w' in simp)
    qed
  next
    case False
    with assms Ret f have "w_sent w' = w_sent w"
      by (auto simp: fetch_and_cache_def Let_def split: outcome.splits fetched.splits)
    then show ?thesis by simp
  qed
qed (use assms in \<open>simp add: fetch_and_cache_def\<close>)

lemma no_db_reply [simp]:
  "prepared (C\<lparr>db_reply := f\<rparr>) tx = prepared C tx"
  "fetch_and_cache (C\<lparr>db_reply := f\<rparr>) X P tx h i w = fetch_and_cache C X P tx h i w"
proof -
  show "prepared (C\<lparr>db_reply := f\<rparr>) tx = prepared C tx" by (simp add: prepared_def)
  show "fetch_and_cache (C\<lparr>db_reply := f\<rparr>) X P tx h i w = fetch_and_cache C X P tx h i w"
  proof (cases C)
    case (fields a b c d e g)
    show ?thesis
      unfolding fields fetch_and_cache_def cache_side.update_convs cache_side.select_convs by (rule refl)
  qed
qed


text \<open>C9. The cache answers like the endpoint did: once the response to a request was stored, the
  same request under any other id is answered from the database with the stored response
  carrying the new id; no endpoint is asked and nothing changes. The text format is assumed to
  read the stored text back as the value it was printed from.\<close>

theorem cache_answers_like_the_endpoint:
  assumes "\<And>j. simd_to_vec (codec C) j = v \<Longrightarrow> simd_parse (codec C) v = Inr j"
    and "is_object tx" "is_object tx'" "jset ''id'' JNull tx = jset ''id'' JNull tx'"
    and "prepared C tx = Ret tx2" "\<not> has_block_tag (to_text (codec C) tx2)"
    and "db_reply C (hash_of C (to_text (codec C) tx2)) = Inr None"
    and "forward_value C X P tx w = (w1, Ret (resp, Some rid))" "w_sent w1 = w_sent w @ [Write h v]"
    and "reply h = Inr (Some v)"
  shows "\<exists>rx j j'. resp = json_response rx \<and> simd_parse (codec C) rx = Inr j \<and>
           jset ''id'' (JNum (PosInt (request_id (jindex tx' ''id'')))) j = Ret j' \<and>
           forward_value (C\<lparr>db_reply := reply\<rparr>) X' P' tx' w2 = (w2, Ret (json_response (to_text (codec C) j'), None))"
proof -
  let ?h = "hash_of C (to_text (codec C) tx2)" and ?y = "JNum (PosInt (request_id (jindex tx' ''id'')))"
  have "fetch_and_cache C X P tx2 ?h (request_id (jindex tx ''id'')) w = (w1, Ret (resp, Some rid))"
    using assms(5-8) by (simp add: forward_value_prepared [OF assms(2)] Let_def)
  from fetch_and_cache_sent [OF this] assms(9) obtain rx j j0 where r: "h = ?h" "resp = json_response rx"
    "simd_parse (codec C) rx = Inr j" "jset ''id'' JNull j = Ret j0" "v = simd_to_vec (codec C) j0"
    by auto
  have "jset ''id'' ?y j0 = jset ''id'' ?y j" using jset_twice [of "''id''" JNull j ?y] r(4) by simp
  moreover obtain j' where j': "jset ''id'' ?y j = Ret j'"
    using r(4) jset_object by (cases j) auto
  moreover have "prepared C tx' = Ret tx2" using assms(4,5) by (simp add: prepared_def)
  ultimately have "forward_value (C\<lparr>db_reply := reply\<rparr>) X' P' tx' w2 = (w2, Ret (json_response (to_text (codec C) j'), None))"
    using assms(1) [of j0] assms(6,10) r(1,5) by (simp add: forward_value_prepared [OF assms(3)] Let_def)
  with r j' show ?thesis by blast
qed

text \<open>Only ids that are unsigned 64-bit numbers survive: a request with any other id (a string,
  a negative number, none) is treated as the same request with the id \<open>0\<close>, so the endpoint is
  asked, and the client answered, under an id the client did not choose.\<close>

theorem other_ids_become_zero:
  assumes "as_u64 (jindex tx ''id'') = None" "jset ''id'' (JNum (PosInt 0)) tx = Ret tx0" "is_object tx"
  shows "forward_value C X P tx w = forward_value C X P tx0 w"
proof -
  have obj: "is_object tx0" using assms(2,3) by (cases tx) auto
  have "jset ''id'' JNull tx0 = jset ''id'' JNull tx"
    using jset_twice [of "''id''" "JNum (PosInt 0)" tx JNull] assms(2) by simp
  then have p: "prepared C tx0 = prepared C tx" by (simp add: prepared_def)
  have i: "request_id (jindex tx0 ''id'') = request_id (jindex tx ''id'')"
    using assms(1) jindex_jset [OF assms(2)] by (simp add: request_id_def)
  show ?thesis
    unfolding forward_value_prepared [OF assms(3)] forward_value_prepared [OF obj] p i by (rule refl)
qed

text \<open>A body that is not JSON is not rejected: the value that was meant to report it is taken
  for a request, and unless the database happens to hold its hash an endpoint is asked to
  answer it.\<close>

theorem malformed_body_is_forwarded:
  assumes "body req = Inr bytes" "utf8_ok (map of_char bytes)" "simd_parse (codec C) bytes = Inl e"
    and "\<not> (header_check P \<and> content_type req \<noteq> Some ''application/json'')"
    and "\<And>key. db_reply C key = Inr None" "selector (select X 0)" "undisturbed X"
    and "contents (w_rpcs w) \<noteq> []" "unat (ttl P) < 2 ^ 64"
    and "forward_body C X P req w = (w', out)"
  shows "\<exists>i more. w_asked w' = w_asked w @ i # more \<and> i \<in> rpc_id ` set (contents (w_rpcs w))"
proof -
  let ?tx = "invalid_json_value"
  have obj: "is_object ?tx" and nopar: "jindex ?tx ''params'' = JNull" and idn: "jindex ?tx ''id'' = JNull"
    by (simp_all add: invalid_json_value_def obj_of_def jindex_def)
  have same: "jset ''id'' JNull ?tx = Ret ?tx" by (simp add: invalid_json_value_def obj_of_def)
  have prep: "prepared C ?tx = Ret ?tx"
    using same nopar by (simp add: prepared_def replace_block_tags_def)
  obtain tx1 where tx1: "jset ''id'' (JNum (PosInt 0)) ?tx = Ret tx1" using jset_object [OF obj] by blast
  let ?h = "hash_of C (to_text (codec C) ?tx)"
  have "forward_value C X P ?tx w = fetch_and_cache C X P ?tx ?h 0 w"
    using prep assms(5) idn by (cases "has_block_tag (to_text (codec C) ?tx)")
      (simp_all add: forward_value_prepared [OF obj] Let_def request_id_def)
  then have fc: "fetch_and_cache C X P ?tx ?h 0 w = (w', out)"
    using assms(1-4,10) by (auto simp: forward_body_def incoming_to_value_def)
  obtain asked rl res where f: "fetch_loop X (ttl P) (max_retries P) 0 (w_rpcs w) tx1 = (asked, rl, res)"
    by (metis prod.collapse)
  have "\<exists>i more. asked = i # more \<and> i \<in> rpc_id ` set (contents (w_rpcs w))"
    by (rule fetch_loop_asks [OF assms(6-9) f])
  then show ?thesis
    using fc tx1 f by (auto simp: fetch_and_cache_def Let_def split: outcome.splits fetched.splits prod.splits)
qed

section \<open>A concrete request\<close>

definition stored_response :: json where
  "stored_response = JObj [(''id'', JNull), (''result'', JStr ''0x1'')]"

definition side_codec :: serde where
  "side_codec =
     \<lparr>to_text = print_json, simd_to_vec = (\<lambda>j. if j = stored_response then ''v'' else []),
      simd_parse = (\<lambda>s. if s = ''rx'' then Inr sample_response
                        else if s = ''v'' then Inr stored_response else Inl ''syntax error''),
      serde_parse = (\<lambda>s. Inl ''unused'')\<rparr>"

definition side :: cache_side where
  "side =
     \<lparr>codec = side_codec, no_cache = False, hash_of = (\<lambda>s. ''h''), named_now = named_at 30,
      final_now = 5, db_reply = (\<lambda>k. Inr None)\<rparr>"

definition one_endpoint :: outside where
  "one_endpoint =
     \<lparr>select = (\<lambda>k. algo sort_key 100), default_rpc = demo_rpc 9 0 0,
      attempt = (\<lambda>k r tx. InTime (Inr ''rx'')), others = (\<lambda>k rl. rl)\<rparr>"

definition start_work :: work where
  "start_work = \<lparr>w_rpcs = new_lock [demo_rpc 1 7 2], w_head = new_lock [], w_sent = [], w_asked = []\<rparr>"

definition params3 :: request_params where
  "params3 = \<lparr>ttl = 100, max_retries = 3, header_check = False\<rparr>"

definition request_with_id :: "json \<Rightarrow> json" where
  "request_with_id i =
     JObj [(''id'', i), (''method'', JStr ''eth_getBalance''), (''params'', JArr [JStr ''0xab'', JStr ''0x1a''])]"

lemma request_null: "jset ''id'' JNull (request_with_id i) = Ret (balance_request (JStr ''0x1a''))"
  by (simp add: request_with_id_def balance_request_def)

lemma side_prepared: "prepared side (request_with_id i) = Ret (balance_request (JStr ''0x1a''))"
proof -
  have hex: "''0x1a'' = hex_text 26" by code_simp
  have q: "remove_char (CHR 0x22) (CHR 0x22 # ''0x1a'' @ [CHR 0x22]) = hex_text 26"
    by (simp add: remove_char_def flip: hex)
  have "replace_block_tags side_codec (balance_request (JStr ''0x1a'')) named = Ret (balance_request (JStr ''0x1a''))" for named
    using balance_block_param [of "JStr ''0x1a''"] q named_hex [of 26]
    by (simp add: replace_block_tags_def block_param_def side_codec_def Let_def)
  then show ?thesis by (simp add: prepared_def request_null side_def)
qed

lemma side_no_tag: "\<not> has_block_tag (print_json (balance_request (JStr ''0x1a'')))"
  by code_simp

lemma one_endpoint_loop:
  "fetch_loop one_endpoint 100 3 0 (new_lock [demo_rpc 1 7 2]) tx =
     ([1], new_lock [demo_rpc 1 7 2], Ret (Got 1 ''rx''))"
  by (simp add: fetch_loop.simps one_endpoint_def pick_def new_lock_def demo_rpc_def)

lemma side_forward:
  "forward_value side one_endpoint params3 (request_with_id (JNum (PosInt 4))) start_work =
     (start_work\<lparr>w_head := new_lock [(26, [''h''])], w_sent := [Write ''h'' ''v''], w_asked := [1]\<rparr>,
      Ret (json_response ''rx'', Some 1))"
proof -
  have obj: "is_object (request_with_id i)" for i by (simp add: request_with_id_def)
  have i: "request_id (jindex (request_with_id (JNum (PosInt n))) ''id'') = n" for n
    by (simp add: request_with_id_def jindex_def request_id_def)
  let ?tx1 = "request_with_id (JNum (PosInt 4))"
  have refill: "jset ''id'' (JNum (PosInt 4)) (balance_request (JStr ''0x1a'')) = Ret ?tx1"
    by (simp add: request_with_id_def balance_request_def)
  have c: "can_cache False (print_json ?tx1) ''rx''" by code_simp
  have g: "get_block_number_from_request side_codec ?tx1 named = Ret (Some 26)" for named
  proof -
    have "''0x1a'' = hex_text 26" by code_simp
    moreover have "block_param ?tx1 [JStr ''0xab'', JStr ''0x1a''] 1"
      using get_position_str [of GetBalance] by (simp add: block_param_def request_with_id_def jindex_def)
    moreover have "quotes_plain side_codec" by (simp add: quotes_plain_def side_codec_def)
    ultimately show ?thesis using get_block_hex [of side_codec ?tx1 _ 1 26 named] by simp
  qed
  have cq: "cache_query side_codec False \<lparr>finalized_rx = 5, named_numbers = named_at 30, args_head_cache = new_lock []\<rparr>
      ''rx'' ?tx1 ''h'' = Ret (new_lock [(26, [''h''])], [Write ''h'' ''v''])"
  proof -
    have "to_text side_codec = print_json" by (simp add: side_codec_def)
    moreover have "cache_store side_codec ''rx'' ''h'' = [Write ''h'' ''v'']"
      by (simp add: cache_store_def side_codec_def sample_response_def stored_response_def)
    ultimately show ?thesis
      using c g by (simp add: cache_query_def cache_record_def new_lock_def push_key_def Let_def)
  qed
  have f: "fetch_and_cache side one_endpoint params3 (balance_request (JStr ''0x1a'')) ''h'' 4 start_work =
     (start_work\<lparr>w_head := new_lock [(26, [''h''])], w_sent := [Write ''h'' ''v''], w_asked := [1]\<rparr>,
      Ret (json_response ''rx'', Some 1))"
    using refill cq by (simp add: fetch_and_cache_def params3_def start_work_def one_endpoint_loop side_def)
  show ?thesis
    using side_no_tag f i by (simp add: forward_value_prepared [OF obj] side_prepared Let_def)
      (simp add: side_def side_codec_def)
qed

theorem fetch_ends_witness:
  "length [1::usize] \<le> max 1 (unat (3 :: u32)) \<and>
   fetch_loop one_endpoint 100 3 0 (new_lock [demo_rpc 1 7 2]) JNull = ([1], new_lock [demo_rpc 1 7 2], Ret (Got 1 ''rx''))"
  using fetch_ends [OF one_endpoint_loop [of JNull]] one_endpoint_loop [of JNull] by blast


theorem cache_answers_like_the_endpoint_witness:
  "\<exists>body. forward_value (side\<lparr>db_reply := (\<lambda>k. Inr (Some ''v''))\<rparr>) one_endpoint params3
       (request_with_id (JNum (PosInt 8))) start_work = (start_work, Ret (json_response body, None))"
proof -
  have obj: "is_object (request_with_id i)" for i by (simp add: request_with_id_def)
  have v: "simd_parse (codec side) ''v'' = Inr j" if "simd_to_vec (codec side) j = ''v''" for j
    using that by (auto simp: side_def side_codec_def split: if_splits)
  have n: "jset ''id'' JNull (request_with_id (JNum (PosInt 4))) = jset ''id'' JNull (request_with_id (JNum (PosInt 8)))"
    by (simp add: request_null)
  have t: "\<not> has_block_tag (to_text (codec side) (balance_request (JStr ''0x1a'')))"
    using side_no_tag by (simp add: side_def side_codec_def)
  from cache_answers_like_the_endpoint [OF v obj obj n side_prepared t _ side_forward, of "''h''" "\<lambda>k. Inr (Some ''v'')" one_endpoint params3 start_work]
  show ?thesis by (auto simp: side_def start_work_def)
qed

theorem other_ids_become_zero_witness:
  "forward_value side one_endpoint params3 (request_with_id (JStr ''abc'')) start_work =
   forward_value side one_endpoint params3 (request_with_id (JNum (PosInt 0))) start_work"
  by (rule other_ids_become_zero) (simp_all add: request_with_id_def jindex_def)

theorem malformed_body_is_forwarded_witness:
  "\<exists>i more. w_asked (fst (forward_body side one_endpoint params3
      \<lparr>content_type = None, body = Inr ''{bad'', upgrade_request = False\<rparr> start_work)) = i # more"
proof -
  let ?req = "\<lparr>content_type = None, body = Inr ''{bad'', upgrade_request = False\<rparr>"
  obtain w' out where f: "forward_body side one_endpoint params3 ?req start_work = (w', out)" by fastforce
  have "selector (select one_endpoint 0)"
    using default_algo.selector_axioms by (simp add: one_endpoint_def)
  from malformed_body_is_forwarded [OF _ _ _ _ _ this _ _ _ f, of "''{bad''" "''syntax error''"] f
  show ?thesis
    by (auto simp: side_def side_codec_def params3_def undisturbed_def one_endpoint_def start_work_def new_lock_def)
qed

end
