(* ===== verification/SubData.thy ===== *)
theory SubData
  imports AcceptHttp "HOL-Library.AList"
begin

text \<open>
  \<open>src/src/websocket/types.rs\<close> and \<open>src/src/websocket/error.rs\<close>: the tables of websocket
  subscriptions. \<open>incoming\<close> maps the parameters of a subscription, printed as text, to the node
  that holds it and the id that node gave it; \<open>subscriptions\<close> maps a node and an id to the users
  that want its messages; \<open>users\<close> maps a user to the channel of its connection. A \<open>HashMap\<close> is an
  association list with distinct keys, in the order it happens to be iterated; no operation
  panics while it holds one of the locks, so they are never poisoned and left out. What is sent
  on the users' channels is part of the result; \<open>alive\<close> tells which channels still have a
  receiver.
\<close>

datatype ws_error =
    Ws string
  | Connection string
  | MessageSendFailed string
  | MessageReceptionFailed string
  | ReceiverLagged
  | ChannelClosed
  | InvalidData string
  | NoIdInResponse string
  | FailedParsing
  | MissingSubscription
  | EmptyList string
  | NoWsResponse

fun ws_error_display :: "ws_error \<Rightarrow> string" where
  "ws_error_display (Ws msg) = ''Error in WS: '' @ msg"
| "ws_error_display (Connection msg) = ''Connection Error: '' @ msg"
| "ws_error_display (MessageSendFailed msg) = ''Message Sending Internal Message Failed: '' @ msg"
| "ws_error_display (MessageReceptionFailed msg) = ''Error While Receiving Internal Message: '' @ msg"
| "ws_error_display ReceiverLagged = ''Receiver Lagged!''"
| "ws_error_display ChannelClosed = ''Channel Closed!''"
| "ws_error_display (InvalidData msg) = ''Invalid Data: '' @ msg"
| "ws_error_display (NoIdInResponse msg) = ''No ID in response: '' @ msg"
| "ws_error_display FailedParsing = ''Failed to Parse Input Data!''"
| "ws_error_display MissingSubscription = ''Tried to Perform Action On Non-Existing Subscription!''"
| "ws_error_display (EmptyList msg) = ''Tried to Access Empty List: '' @ msg"
| "ws_error_display NoWsResponse = ''Failed to Receive Response from WS''"

text \<open>The errors of the websocket library the conversion tells apart, and of the channels.\<close>

datatype tungstenite_error = ConnectionClosed | AlreadyClosed | IoError string | OtherError string

fun ws_error_from_tungstenite :: "tungstenite_error \<Rightarrow> ws_error" where
  "ws_error_from_tungstenite ConnectionClosed = Connection ''Connection closed''"
| "ws_error_from_tungstenite AlreadyClosed = Connection ''Connection already closed''"
| "ws_error_from_tungstenite (IoError e) = Connection (''IO Error: '' @ e)"
| "ws_error_from_tungstenite (OtherError e) = Connection (''WebSocket error: '' @ e)"

datatype recv_error = Lagged u64 | Closed

fun ws_error_from_recv :: "recv_error \<Rightarrow> ws_error" where
  "ws_error_from_recv (Lagged n) = ReceiverLagged"
| "ws_error_from_recv Closed = ChannelClosed"

definition ws_error_from_send :: ws_error where
  "ws_error_from_send = MessageSendFailed ''Failed to send message through channel''"

datatype request_result = CallResult json | SubscriptionResult json

fun request_result_value :: "request_result \<Rightarrow> json" where
  "request_result_value (CallResult v) = v"
| "request_result_value (SubscriptionResult v) = v"

datatype wsconn_message = Message json "usize option" | Reconnect

fun wsconn_message_value :: "wsconn_message \<Rightarrow> json" where
  "wsconn_message_value (Message v n) = v"
| "wsconn_message_value Reconnect = JNull"

datatype ws_channel_err = WsClosed usize

record node_sub_info =
  node_id :: usize
  subscription_id :: string

record incoming_response =
  content :: json
  from_node :: usize

type_synonym channel = nat

record sub_data =
  users :: "(u32 \<times> channel) list"
  subscriptions :: "(node_sub_info \<times> u32 list) list"
  incoming :: "(string \<times> node_sub_info) list"

definition sub_data_new :: sub_data where
  "sub_data_new = \<lparr>users = [], subscriptions = [], incoming = []\<rparr>"

section \<open>Users\<close>

definition add_user :: "u32 \<Rightarrow> channel \<Rightarrow> sub_data \<Rightarrow> sub_data" where
  "add_user u ch sd = sd\<lparr>users := AList.update u ch (users sd)\<rparr>"

definition drop_subscriber :: "(node_sub_info \<Rightarrow> bool) \<Rightarrow> u32 \<Rightarrow> sub_data \<Rightarrow> sub_data" where
  "drop_subscriber P u sd =
     sd\<lparr>subscriptions := map (\<lambda>(i, us). (i, if P i then removeAll u us else us)) (subscriptions sd)\<rparr>"

definition unsubscribe_user_from_all :: "u32 \<Rightarrow> sub_data \<Rightarrow> sub_data" where
  "unsubscribe_user_from_all u sd = drop_subscriber (\<lambda>i. True) u sd"

definition remove_user :: "u32 \<Rightarrow> sub_data \<Rightarrow> sub_data" where
  "remove_user u sd =
     (let sd1 = unsubscribe_user_from_all u sd
      in if map_of (users sd1) u \<noteq> None
         then drop_subscriber (\<lambda>i. True) u (sd1\<lparr>users := AList.delete u (users sd1)\<rparr>)
         else sd1)"

section \<open>Subscriptions\<close>

definition raw_register :: "string \<Rightarrow> string \<Rightarrow> usize \<Rightarrow> sub_data \<Rightarrow> sub_data" where
  "raw_register key sub_id node sd =
     sd\<lparr>incoming := AList.update key \<lparr>node_id = node, subscription_id = sub_id\<rparr> (incoming sd)\<rparr>"

definition subscription_key :: "serde \<Rightarrow> json \<Rightarrow> string" where
  "subscription_key S request = to_text S (jindex request ''params'')"

definition register_subscription :: "serde \<Rightarrow> json \<Rightarrow> string \<Rightarrow> usize \<Rightarrow> sub_data \<Rightarrow> sub_data" where
  "register_subscription S request sub_id node sd =
     raw_register (subscription_key S request) sub_id node sd"

definition unregister_subscription :: "string \<Rightarrow> sub_data \<Rightarrow> sub_data" where
  "unregister_subscription key sd = sd\<lparr>incoming := AList.delete key (incoming sd)\<rparr>"

definition raw_subscribe :: "u32 \<Rightarrow> string \<Rightarrow> sub_data \<Rightarrow> (ws_error + string) \<times> sub_data" where
  "raw_subscribe u key sd =
     (case map_of (incoming sd) key of
        None \<Rightarrow> (Inl FailedParsing, sd)
      | Some info \<Rightarrow>
          (Inr (subscription_id info),
           sd\<lparr>subscriptions :=
             AList.update info
               (List.insert u (case map_of (subscriptions sd) info of None \<Rightarrow> [] | Some us \<Rightarrow> us))
               (subscriptions sd)\<rparr>))"

definition subscribe_user :: "serde \<Rightarrow> u32 \<Rightarrow> json \<Rightarrow> sub_data \<Rightarrow> (ws_error + string) \<times> sub_data" where
  "subscribe_user S u request sd =
     (case as_array (jindex request ''params'') of
        None \<Rightarrow> (Inl FailedParsing, sd)
      | Some ps \<Rightarrow>
          if ps = [] then (Inl FailedParsing, sd)
          else raw_subscribe u (subscription_key S request) sd)"

definition unsubscribe_user :: "u32 \<Rightarrow> string \<Rightarrow> sub_data \<Rightarrow> sub_data" where
  "unsubscribe_user u sub_id sd = drop_subscriber (\<lambda>i. subscription_id i = sub_id) u sd"

section \<open>Queries\<close>

definition get_node_from_id :: "string \<Rightarrow> sub_data \<Rightarrow> usize option" where
  "get_node_from_id sub_id sd =
     map_option (node_id \<circ> snd) (find (\<lambda>(k, i). subscription_id i = sub_id) (incoming sd))"

definition get_sub_id_by_node :: "usize \<Rightarrow> sub_data \<Rightarrow> string list" where
  "get_sub_id_by_node node sd =
     map (subscription_id \<circ> snd) (filter (\<lambda>(k, i). node_id i = node) (incoming sd))"

text \<open>\<open>serde_json::from_str::<Vec<String>>\<close>: an array of strings only.\<close>

fun all_strings :: "json list \<Rightarrow> string list option" where
  "all_strings [] = Some []"
| "all_strings (JStr s # vs) = map_option ((#) s) (all_strings vs)"
| "all_strings (v # vs) = None"

definition parse_string_array :: "serde \<Rightarrow> string \<Rightarrow> string list option" where
  "parse_string_array S s =
     (case serde_parse S s of
        Inr (JArr vs) \<Rightarrow> all_strings vs
      | _ \<Rightarrow> None)"

definition get_subscription_by_node :: "serde \<Rightarrow> usize \<Rightarrow> sub_data \<Rightarrow> string list" where
  "get_subscription_by_node S node sd =
     concat (map (\<lambda>(k, i).
       if node_id i = node
       then (case parse_string_array S k of
               None \<Rightarrow> []
             | Some ss \<Rightarrow> [to_text S (JArr (map JStr ss))])
       else []) (incoming sd))"

definition get_sub_id_by_params :: "string \<Rightarrow> sub_data \<Rightarrow> string option" where
  "get_sub_id_by_params params sd =
     map_option (subscription_id \<circ> snd) (find (\<lambda>(k, i). k = params) (incoming sd))"

definition get_users_for_subscription :: "string \<Rightarrow> sub_data \<Rightarrow> u32 list" where
  "get_users_for_subscription sub_id sd =
     (case find (\<lambda>(i, us). subscription_id i = sub_id) (subscriptions sd) of
        None \<Rightarrow> []
      | Some (i, us) \<Rightarrow> us)"

section \<open>Moving and dispatching\<close>

fun resubscribe :: "u32 list \<Rightarrow> string \<Rightarrow> sub_data \<Rightarrow> (ws_error + unit) \<times> sub_data" where
  "resubscribe [] request sd = (Inr (), sd)"
| "resubscribe (u # us) request sd =
     (case raw_subscribe u request sd of
        (Inl e, sd') \<Rightarrow> (Inl e, sd')
      | (Inr _, sd') \<Rightarrow> resubscribe us request sd')"

definition move_subscription :: "usize \<Rightarrow> string \<Rightarrow> string \<Rightarrow> sub_data \<Rightarrow> (ws_error + unit) \<times> sub_data" where
  "move_subscription target request sub_id sd =
     (let us = get_users_for_subscription sub_id sd
      in if us = [] then (Inl (EmptyList ''User list empty!''), sd)
         else
           let sd1 = fold (\<lambda>u. unsubscribe_user u request) us sd;
               sd2 = raw_register request sub_id target (unregister_subscription request sd1)
           in resubscribe us request sd2)"

type_synonym delivery = "u32 \<times> channel \<times> request_result"

fun send_all :: "(channel \<Rightarrow> bool) \<Rightarrow> request_result \<Rightarrow> (u32 \<times> channel) list \<Rightarrow> sub_data \<Rightarrow> sub_data \<times> delivery list" where
  "send_all alive msg [] sd = (sd, [])"
| "send_all alive msg ((u, ch) # rs) sd =
     (if alive ch
      then (case send_all alive msg rs sd of (sd', ds) \<Rightarrow> (sd', (u, ch, msg) # ds))
      else send_all alive msg rs (remove_user u sd))"

definition recipients :: "u32 list \<Rightarrow> sub_data \<Rightarrow> (u32 \<times> channel) list" where
  "recipients us sd =
     concat (map (\<lambda>u. case map_of (users sd) u of None \<Rightarrow> [] | Some ch \<Rightarrow> [(u, ch)]) us)"

definition dispatch_to_subscribers ::
  "(channel \<Rightarrow> bool) \<Rightarrow> string \<Rightarrow> usize \<Rightarrow> request_result \<Rightarrow> sub_data \<Rightarrow>
     (ws_error + bool) \<times> sub_data \<times> delivery list" where
  "dispatch_to_subscribers alive sub_id node msg sd =
     (case msg of
        CallResult _ \<Rightarrow> (Inl (InvalidData ''Trying to send a call as a subscription!''), sd, [])
      | SubscriptionResult _ \<Rightarrow>
          (case map_of (subscriptions sd) \<lparr>node_id = node, subscription_id = sub_id\<rparr> of
             None \<Rightarrow> (Inr False, sd, [])
           | Some us \<Rightarrow>
               if us = [] then (Inr True, unregister_subscription sub_id sd, [])
               else
                 case send_all alive msg (recipients us sd) sd of
                   (sd', ds) \<Rightarrow> (Inr False, sd', ds)))"

section \<open>How the tables change\<close>

definition subscribers :: "sub_data \<Rightarrow> node_sub_info \<Rightarrow> u32 list option" where
  "subscribers sd i = map_of (subscriptions sd) i"

definition registered :: "sub_data \<Rightarrow> string \<Rightarrow> node_sub_info option" where
  "registered sd key = map_of (incoming sd) key"

lemma map_of_map_values:
  "map_of (map (\<lambda>(k, v). (k, f k v)) m) k = map_option (f k) (map_of m k)"
  by (induction m) auto

lemma drop_subscriber_facts [sub_simps]:
  "subscribers (drop_subscriber P u sd) i =
     map_option (\<lambda>us. if P i then removeAll u us else us) (subscribers sd i)"
  "registered (drop_subscriber P u sd) = registered sd"
  "users (drop_subscriber P u sd) = users sd"
  "incoming (drop_subscriber P u sd) = incoming sd"
  by (auto simp: drop_subscriber_def subscribers_def registered_def
      map_of_map_values [of "\<lambda>i us. if P i then removeAll u us else us"])

lemma raw_register_facts [sub_simps]:
  "subscribers (raw_register key s n sd) = subscribers sd"
  "registered (raw_register key s n sd) = (registered sd)(key \<mapsto> \<lparr>node_id = n, subscription_id = s\<rparr>)"
  "users (raw_register key s n sd) = users sd"
  by (auto simp: raw_register_def subscribers_def registered_def update_conv' fun_eq_iff)

lemma unregister_facts [sub_simps]:
  "subscribers (unregister_subscription key sd) = subscribers sd"
  "registered (unregister_subscription key sd) = (registered sd)(key := None)"
  "users (unregister_subscription key sd) = users sd"
  by (auto simp: unregister_subscription_def subscribers_def registered_def delete_conv' fun_eq_iff)

lemma raw_subscribe_None: "registered sd key = None \<Longrightarrow> raw_subscribe u key sd = (Inl FailedParsing, sd)"
  by (simp add: raw_subscribe_def registered_def)

lemma raw_subscribe_Some:
  assumes "registered sd key = Some i"
  shows "\<exists>sd'. raw_subscribe u key sd = (Inr (subscription_id i), sd') \<and> registered sd' = registered sd \<and>
           users sd' = users sd \<and>
           subscribers sd' = (subscribers sd)
             (i \<mapsto> List.insert u (case subscribers sd i of None \<Rightarrow> [] | Some us \<Rightarrow> us))"
  using assms by (auto simp: raw_subscribe_def registered_def subscribers_def update_conv')

lemma remove_user_facts [sub_simps]:
  "subscribers (remove_user u sd) i = map_option (removeAll u) (subscribers sd i)"
  "registered (remove_user u sd) = registered sd"
  "map_of (users (remove_user u sd)) = (map_of (users sd))(u := None)"
proof -
  have upd: "subscribers (sd'\<lparr>users := x\<rparr>) = subscribers sd'" "registered (sd'\<lparr>users := x\<rparr>) = registered sd'" for sd' x
    by (auto simp: subscribers_def registered_def)
  show "subscribers (remove_user u sd) i = map_option (removeAll u) (subscribers sd i)"
    by (simp add: remove_user_def unsubscribe_user_from_all_def sub_simps upd Let_def option.map_comp comp_def)
  show "registered (remove_user u sd) = registered sd"
    by (simp add: remove_user_def unsubscribe_user_from_all_def sub_simps upd Let_def)
  show "map_of (users (remove_user u sd)) = (map_of (users sd))(u := None)"
    by (auto simp: remove_user_def unsubscribe_user_from_all_def sub_simps Let_def delete_conv')
qed

text \<open>Removing a user takes it out of every subscription and out of the table of users, and
  nothing else changes: the other subscribers of every subscription, the other users and the
  registered subscriptions stay.\<close>

theorem remove_user_is_complete:
  "map_of (users (remove_user u sd)) u = None \<and>
   (case subscribers (remove_user u sd) i of None \<Rightarrow> subscribers sd i = None
    | Some us \<Rightarrow> u \<notin> set us \<and> (\<exists>us0. subscribers sd i = Some us0 \<and> us = removeAll u us0)) \<and>
   map_of (users (remove_user u sd)) = (map_of (users sd))(u := None) \<and>
   registered (remove_user u sd) = registered sd"
  by (auto simp: sub_simps split: option.split)

section \<open>Dispatching\<close>

lemma send_all_eq:
  "send_all alive msg rs sd =
     (fold (\<lambda>(u, ch). if alive ch then id else remove_user u) rs sd,
      map (\<lambda>(u, ch). (u, ch, msg)) (filter (\<lambda>(u, ch). alive ch) rs))"
  by (induction rs arbitrary: sd) auto

lemma recipients_iff: "(u, ch) \<in> set (recipients us sd) \<longleftrightarrow> u \<in> set us \<and> map_of (users sd) u = Some ch"
  by (auto simp: recipients_def split: option.splits)

lemma recipients_distinct: "distinct us \<Longrightarrow> distinct (map fst (recipients us sd))"
proof (induction us)
  case (Cons u us)
  have "u \<notin> set (map fst (recipients us sd))"
    using Cons.prems by (auto simp: recipients_iff)
  moreover have "recipients (u # us) sd = (case map_of (users sd) u of None \<Rightarrow> [] | Some ch \<Rightarrow> [(u, ch)]) @ recipients us sd"
    by (simp add: recipients_def)
  ultimately show ?case using Cons by (auto split: option.split)
qed (simp add: recipients_def)

lemma dead_removed:
  "\<exists>(u, ch)\<in>set rs. \<not> alive ch \<and> u = v \<Longrightarrow>
   map_of (users (fold (\<lambda>(u, ch). if alive ch then id else remove_user u) rs sd)) v = None"
proof (induction rs arbitrary: sd)
  case (Cons p rs)
  obtain u ch where p: "p = (u, ch)" by (cases p)
  have gone: "map_of (users (fold (\<lambda>(u, ch). if alive ch then id else remove_user u) rs sd)) v = None"
    if "map_of (users sd) v = None" for sd
    using that by (induction rs arbitrary: sd) (auto simp: sub_simps)
  show ?case
  proof (cases "\<not> alive ch \<and> u = v")
    case True
    then have "map_of (users (remove_user u sd)) v = None" by (simp add: sub_simps)
    from gone [OF this] True show ?thesis by (simp add: p)
  next
    case False
    with Cons.prems p have "\<exists>(u, ch)\<in>set rs. \<not> alive ch \<and> u = v" by auto
    from Cons.IH [OF this] show ?thesis by (simp add: p)
  qed
qed simp

text \<open>A notification of a node's subscription is delivered to exactly the users subscribed to
  it whose connection is open, to each of them once; a subscribed user whose connection is gone
  is removed, and no other user is told anything.\<close>

theorem dispatch_reaches_subscribers:
  assumes "subscribers sd \<lparr>node_id = n, subscription_id = s\<rparr> = Some us" "us \<noteq> []" "distinct us"
    and "dispatch_to_subscribers alive s n (SubscriptionResult v) sd = (r, sd', ds)"
  shows "r = Inr False \<and> distinct (map fst ds) \<and>
         (\<forall>u ch m. (u, ch, m) \<in> set ds \<longleftrightarrow>
            u \<in> set us \<and> map_of (users sd) u = Some ch \<and> alive ch \<and> m = SubscriptionResult v) \<and>
         (\<forall>u ch. u \<in> set us \<and> map_of (users sd) u = Some ch \<and> \<not> alive ch \<longrightarrow> map_of (users sd') u = None)"
proof -
  let ?rs = "recipients us sd"
  from assms(1,2,4) have d: "r = Inr False" "sd' = fold (\<lambda>(u, ch). if alive ch then id else remove_user u) ?rs sd"
    "ds = map (\<lambda>(u, ch). (u, ch, SubscriptionResult v)) (filter (\<lambda>(u, ch). alive ch) ?rs)"
    by (auto simp: dispatch_to_subscribers_def subscribers_def send_all_eq)
  have "map fst ds = map fst (filter (\<lambda>(u, ch). alive ch) ?rs)"
    by (simp add: d(3) comp_def case_prod_unfold)
  then have "distinct (map fst ds)"
    using recipients_distinct [OF assms(3)] by (simp add: distinct_map_filter)
  moreover have "(u, ch, m) \<in> set ds \<longleftrightarrow>
      u \<in> set us \<and> map_of (users sd) u = Some ch \<and> alive ch \<and> m = SubscriptionResult v" for u ch m
    by (auto simp: d(3) recipients_iff)
  moreover have "map_of (users sd') u = None"
    if "u \<in> set us" "map_of (users sd) u = Some ch" "\<not> alive ch" for u ch
    unfolding d(2) using that by (intro dead_removed) (auto simp: recipients_iff intro!: bexI [of _ "(u, ch)"])
  ultimately show ?thesis using d(1) by blast
qed

definition heads_info :: node_sub_info where
  "heads_info = \<lparr>node_id = 1, subscription_id = ''0xa''\<rparr>"

definition two_users :: sub_data where
  "two_users =
     \<lparr>users = [(10, 0), (11, 1)], subscriptions = [(heads_info, [10, 11])],
      incoming = [(''[newHeads]'', heads_info)]\<rparr>"

theorem dispatch_reaches_subscribers_witness:
  "\<exists>r sd' ds. dispatch_to_subscribers (\<lambda>ch. ch = 0) ''0xa'' 1 (SubscriptionResult JNull) two_users = (r, sd', ds) \<and>
     (10, 0, SubscriptionResult JNull) \<in> set ds \<and> map_of (users sd') 11 = None"
proof -
  obtain r sd' ds where d: "dispatch_to_subscribers (\<lambda>ch. ch = 0) ''0xa'' 1 (SubscriptionResult JNull) two_users = (r, sd', ds)"
    by (metis prod.collapse)
  have "subscribers two_users \<lparr>node_id = 1, subscription_id = ''0xa''\<rparr> = Some [10, 11]"
    by (simp add: subscribers_def two_users_def heads_info_def)
  from dispatch_reaches_subscribers [OF this _ _ d] d show ?thesis
    by (auto simp: two_users_def)
qed

section \<open>Sharing a subscription\<close>

text \<open>Users share subscriptions: once a subscription is registered, any user that asks for the
  same parameters gets its id at once, joins its subscribers without disturbing the others, and
  the registered subscriptions do not change.\<close>

theorem subscriptions_are_shared:
  assumes "registered sd (subscription_key S request) = Some i"
    and "jindex request ''params'' = JArr (p # ps)"
  shows "\<exists>sd'. subscribe_user S u request sd = (Inr (subscription_id i), sd') \<and>
           registered sd' = registered sd \<and> users sd' = users sd \<and>
           (\<exists>us. subscribers sd' i = Some us \<and> u \<in> set us \<and>
                 (\<forall>us0. subscribers sd i = Some us0 \<longrightarrow> set us = insert u (set us0))) \<and>
           (\<forall>j. j \<noteq> i \<longrightarrow> subscribers sd' j = subscribers sd j)"
  using raw_subscribe_Some [OF assms(1), of u] assms(2)
  by (auto simp: subscribe_user_def)

definition heads_request :: json where
  "heads_request = JObj [(''method'', JStr ''eth_subscribe''), (''params'', JArr [JStr ''newHeads''])]"

definition heads_codec :: serde where
  "heads_codec =
     \<lparr>to_text = (\<lambda>j. if j = JArr [JStr ''newHeads''] then ''[newHeads]'' else print_json j),
      simd_to_vec = print_json, simd_parse = (\<lambda>s. Inl ''unused''),
      serde_parse = (\<lambda>s. if s = ''[newHeads]'' then Inr (JArr [JStr ''newHeads'']) else Inl ''syntax error'')\<rparr>"

theorem subscriptions_are_shared_witness:
  "\<exists>sd'. subscribe_user heads_codec 12 heads_request two_users = (Inr ''0xa'', sd') \<and>
     registered sd' = registered two_users"
proof -
  have "registered two_users (subscription_key heads_codec heads_request) = Some heads_info"
    by (simp add: registered_def two_users_def subscription_key_def heads_codec_def heads_request_def jindex_def)
  moreover have "jindex heads_request ''params'' = JArr (JStr ''newHeads'' # [])"
    by (simp add: heads_request_def jindex_def)
  ultimately show ?thesis
    using subscriptions_are_shared [of two_users heads_codec heads_request heads_info] by (fastforce simp: heads_info_def)
qed

section \<open>Where the tables go wrong\<close>

text \<open>C29. When the last user of a subscription has left, the next notification asks the node to
  end the subscription but unregisters the wrong key (the id instead of the parameters): the
  dead subscription stays registered, and the next user that asks for the same parameters is
  attached to it and never hears anything.\<close>

theorem ended_subscription_stays_registered:
  assumes "registered sd (subscription_key S request) = Some \<lparr>node_id = n, subscription_id = s\<rparr>"
    and "subscribers sd \<lparr>node_id = n, subscription_id = s\<rparr> = Some []" "s \<noteq> subscription_key S request"
    and "jindex request ''params'' = JArr (p # ps)"
  shows "\<exists>sd'. dispatch_to_subscribers alive s n (SubscriptionResult v) sd = (Inr True, sd', []) \<and>
           fst (subscribe_user S u request sd') = Inr s"
proof -
  let ?sd' = "unregister_subscription s sd"
  have "registered ?sd' (subscription_key S request) = Some \<lparr>node_id = n, subscription_id = s\<rparr>"
    using assms(1,3) by (simp add: sub_simps)
  from raw_subscribe_Some [OF this, of u] assms(4) have "fst (subscribe_user S u request ?sd') = Inr s"
    by (auto simp: subscribe_user_def)
  moreover have "dispatch_to_subscribers alive s n (SubscriptionResult v) sd = (Inr True, ?sd', [])"
    using assms(2) by (simp add: dispatch_to_subscribers_def subscribers_def)
  ultimately show ?thesis by blast
qed

theorem ended_subscription_stays_registered_witness:
  "\<exists>sd'. dispatch_to_subscribers (\<lambda>ch. True) ''0xa'' 1 (SubscriptionResult JNull)
          (two_users\<lparr>subscriptions := [(heads_info, [])]\<rparr>) = (Inr True, sd', []) \<and>
     fst (subscribe_user heads_codec 12 heads_request sd') = Inr ''0xa''"
  by (rule ended_subscription_stays_registered)
    (simp_all add: registered_def subscribers_def two_users_def subscription_key_def heads_codec_def
      heads_request_def jindex_def heads_info_def)

lemma resubscribe_ok:
  assumes "registered sd key = Some i"
  shows "\<exists>sd'. resubscribe us key sd = (Inr (), sd') \<and> registered sd' = registered sd \<and> users sd' = users sd \<and>
           (\<forall>j. j \<noteq> i \<longrightarrow> subscribers sd' j = subscribers sd j) \<and>
           (us \<noteq> [] \<longrightarrow> (\<exists>vs. subscribers sd' i = Some vs \<and> set us \<subseteq> set vs))"
  using assms
proof (induction us arbitrary: sd)
  case (Cons u us)
  from raw_subscribe_Some [OF Cons.prems, of u] obtain sd1 where s1:
    "raw_subscribe u key sd = (Inr (subscription_id i), sd1)" "registered sd1 = registered sd" "users sd1 = users sd"
    "subscribers sd1 = (subscribers sd)(i \<mapsto> List.insert u (case subscribers sd i of None \<Rightarrow> [] | Some us \<Rightarrow> us))"
    by blast
  show ?case
  proof (cases "us = []")
    case True
    then show ?thesis using s1 by (auto split: option.split)
  next
    case False
    have keep: "\<exists>vs'. subscribers (snd (resubscribe ws key sd2)) i = Some vs' \<and> set vs \<subseteq> set vs'"
      if "registered sd2 key = Some i" "subscribers sd2 i = Some vs" for ws sd2 vs
      using that
    proof (induction ws arbitrary: sd2 vs)
      case (Cons w ws)
      from raw_subscribe_Some [OF Cons.prems(1), of w] obtain sd3 where s3:
        "raw_subscribe w key sd2 = (Inr (subscription_id i), sd3)" "registered sd3 = registered sd2"
        "subscribers sd3 = (subscribers sd2)(i \<mapsto> List.insert w (case subscribers sd2 i of None \<Rightarrow> [] | Some us \<Rightarrow> us))"
        by blast
      from Cons.IH [of sd3 "List.insert w vs"] s3 Cons.prems show ?case by auto
    qed simp
    from Cons.IH [of sd1] s1(2) Cons.prems obtain sd' where i:
      "resubscribe us key sd1 = (Inr (), sd')" "registered sd' = registered sd1" "users sd' = users sd1"
      "\<forall>j. j \<noteq> i \<longrightarrow> subscribers sd' j = subscribers sd1 j" "\<exists>vs. subscribers sd' i = Some vs \<and> set us \<subseteq> set vs"
      using False by auto
    obtain vs where vs: "subscribers sd1 i = Some vs" "u \<in> set vs" by (simp add: s1(4))
    from keep [of sd1 vs us] s1(2) Cons.prems vs i(1) obtain vs' where
      "subscribers sd' i = Some vs'" "set vs \<subseteq> set vs'" by auto
    with i s1 vs(2) show ?thesis by auto
  qed
qed simp

lemma fold_unsubscribe:
  "registered (fold (\<lambda>u. unsubscribe_user u k) us sd) = registered sd"
  "users (fold (\<lambda>u. unsubscribe_user u k) us sd) = users sd"
  "subscription_id i \<noteq> k \<Longrightarrow> subscribers (fold (\<lambda>u. unsubscribe_user u k) us sd) i = subscribers sd i"
  by (induction us arbitrary: sd) (auto simp: unsubscribe_user_def sub_simps option.map_ident)

text \<open>C28. Moving a subscription to another node silences it: the users are entered for the new node
  under the id the old node had given, so a notification that comes under the id the new node
  gave is delivered to nobody; and because the users are unsubscribed from the request text
  instead of the id, they stay entered for the old node.\<close>

theorem moved_subscription_goes_silent:
  assumes "get_users_for_subscription s sd = us" "us \<noteq> []" "s \<noteq> key"
    and "s' \<noteq> s" "s' \<noteq> key" "subscribers sd \<lparr>node_id = b, subscription_id = s'\<rparr> = None"
  shows "\<exists>sd'. move_subscription b key s sd = (Inr (), sd') \<and>
           registered sd' key = Some \<lparr>node_id = b, subscription_id = s\<rparr> \<and>
           dispatch_to_subscribers alive s' b (SubscriptionResult v) sd' = (Inr False, sd', []) \<and>
           (\<forall>a. a \<noteq> b \<longrightarrow> subscribers sd' \<lparr>node_id = a, subscription_id = s\<rparr> =
                             subscribers sd \<lparr>node_id = a, subscription_id = s\<rparr>)"
proof -
  let ?sd1 = "fold (\<lambda>u. unsubscribe_user u key) us sd"
  let ?sd2 = "raw_register key s b (unregister_subscription key ?sd1)"
  let ?i = "\<lparr>node_id = b, subscription_id = s\<rparr>"
  have "registered ?sd2 key = Some ?i" by (simp add: sub_simps)
  from resubscribe_ok [OF this, of us] obtain sd' where r: "resubscribe us key ?sd2 = (Inr (), sd')"
    "registered sd' = registered ?sd2" "\<forall>j. j \<noteq> ?i \<longrightarrow> subscribers sd' j = subscribers ?sd2 j" by blast
  have "move_subscription b key s sd = (Inr (), sd')"
    using assms(1,2) r(1) by (simp add: move_subscription_def Let_def)
  moreover have "subscribers sd' \<lparr>node_id = b, subscription_id = s'\<rparr> = None"
    using r(3) assms(4-6) by (simp add: sub_simps fold_unsubscribe)
  then have "dispatch_to_subscribers alive s' b (SubscriptionResult v) sd' = (Inr False, sd', [])"
    by (simp add: dispatch_to_subscribers_def subscribers_def)
  moreover have "subscribers sd' \<lparr>node_id = a, subscription_id = s\<rparr> = subscribers sd \<lparr>node_id = a, subscription_id = s\<rparr>"
    if "a \<noteq> b" for a
    using r(3) that assms(3) by (simp add: sub_simps fold_unsubscribe)
  ultimately show ?thesis using r(2) by (auto simp: sub_simps)
qed

theorem moved_subscription_goes_silent_witness:
  "\<exists>sd'. move_subscription 2 ''[newHeads]'' ''0xa'' two_users = (Inr (), sd') \<and>
     dispatch_to_subscribers (\<lambda>ch. True) ''0xb'' 2 (SubscriptionResult JNull) sd' = (Inr False, sd', [])"
proof -
  have "get_users_for_subscription ''0xa'' two_users = [10, 11]"
    by (simp add: get_users_for_subscription_def two_users_def heads_info_def)
  moreover have "subscribers two_users \<lparr>node_id = 2, subscription_id = ''0xb''\<rparr> = None"
    by (simp add: subscribers_def two_users_def heads_info_def)
  ultimately show ?thesis
    using moved_subscription_goes_silent [of "''0xa''" two_users "[10, 11]" "''[newHeads]''" "''0xb''" 2] by simp blast
qed

end
