(* ===== verification/SubManager.thy ===== *)
theory SubManager
  imports SubData
begin

text \<open>
  \<open>src/src/websocket/subscription_manager.rs\<close> and the websocket part of
  \<open>src/src/health/check.rs\<close>: the task that passes the notifications of the nodes on to the
  users, the move of a node's subscriptions to other nodes, and the listener for connections
  that dropped. Messages to the connection manager are part of the results; what is received
  on the broadcast channel is an argument.
\<close>

definition WS_HEALTH_CHECK_USER_ID :: u32 where "WS_HEALTH_CHECK_USER_ID = 1"
definition WS_SUB_MANAGER_ID :: u32 where "WS_SUB_MANAGER_ID = 2"
definition MAGIC :: u32 where "MAGIC = 0xb153"

definition ws_request :: "u32 \<Rightarrow> eth_rpc_method \<Rightarrow> json \<Rightarrow> json" where
  "ws_request i m params =
     obj_of [(''jsonrpc'', JStr ''2.0''), (''id'', JNum (PosInt (ucast i))),
             (''method'', method_serialize m), (''params'', params)]"

text \<open>One turn of \<open>subscription_dispatcher\<close>.\<close>

definition dispatcher_step ::
  "(channel \<Rightarrow> bool) \<Rightarrow> incoming_response \<Rightarrow> sub_data \<Rightarrow> sub_data \<times> delivery list \<times> wsconn_message list" where
  "dispatcher_step alive resp sd =
     (if \<not> json_eq_method (jindex (content resp) ''method'') Subscription then (sd, [], [])
      else
        case as_str (jindex (jindex (content resp) ''params'') ''subscription'') of
          None \<Rightarrow> (sd, [], [])
        | Some i \<Rightarrow>
            (case dispatch_to_subscribers alive i (from_node resp) (SubscriptionResult (content resp)) sd of
               (Inr True, sd', ds) \<Rightarrow>
                 (sd', ds, [Message (ws_request WS_SUB_MANAGER_ID eth_rpc_method.Unsubscribe (JArr [JStr i]))
                              (Some (from_node resp))])
             | (_, sd', ds) \<Rightarrow> (sd', ds, [])))"

text \<open>The task, on what it receives; \<open>None\<close> means it is still waiting.\<close>

fun subscription_dispatcher ::
  "(channel \<Rightarrow> bool) \<Rightarrow> (recv_error + incoming_response) list \<Rightarrow> sub_data \<Rightarrow>
     ws_error option \<times> sub_data \<times> delivery list \<times> wsconn_message list" where
  "subscription_dispatcher alive [] sd = (None, sd, [], [])"
| "subscription_dispatcher alive (Inl e # evs) sd = (Some (ws_error_from_recv e), sd, [], [])"
| "subscription_dispatcher alive (Inr resp # evs) sd =
     (case dispatcher_step alive resp sd of
        (sd1, ds1, ms1) \<Rightarrow>
          (case subscription_dispatcher alive evs sd1 of
             (r, sd2, ds2, ms2) \<Rightarrow> (r, sd2, ds1 @ ds2, ms1 @ ms2)))"

section \<open>Moving the subscriptions of a node\<close>

definition unsubscribe_messages :: "usize \<Rightarrow> sub_data \<Rightarrow> wsconn_message list" where
  "unsubscribe_messages n sd =
     map (\<lambda>i. Message (ws_request WS_SUB_MANAGER_ID eth_rpc_method.Unsubscribe (JArr [JStr i])) (Some n))
       (get_sub_id_by_node n sd)"

text \<open>Requests are numbered from \<open>WS_SUB_MANAGER_ID + MAGIC + 1\<close>.\<close>

fun number_from :: "u32 \<Rightarrow> string list \<Rightarrow> (u32 \<times> string) list" where
  "number_from i [] = []"
| "number_from i (p # ps) = (i + 1, p) # number_from (i + 1) ps"

definition move_pairs :: "serde \<Rightarrow> usize \<Rightarrow> sub_data \<Rightarrow> (u32 \<times> string) list" where
  "move_pairs S n sd = number_from (WS_SUB_MANAGER_ID + MAGIC) (get_subscription_by_node S n sd)"

definition subscribe_messages :: "serde \<Rightarrow> usize \<Rightarrow> sub_data \<Rightarrow> wsconn_message list" where
  "subscribe_messages S n sd =
     map (\<lambda>(i, params). Message (ws_request i eth_rpc_method.Subscribe (JArr [JStr params])) None)
       (move_pairs S n sd)"

fun move_listen ::
  "serde \<Rightarrow> (u32 \<times> string) list \<Rightarrow> (recv_error + incoming_response) list \<Rightarrow> sub_data \<Rightarrow>
     (ws_error + unit) option \<times> sub_data" where
  "move_listen S [] evs sd = (Some (Inr ()), sd)"
| "move_listen S (p # ps) [] sd = (None, sd)"
| "move_listen S (p # ps) (Inl e # evs) sd = (Some (Inl (ws_error_from_recv e)), sd)"
| "move_listen S (p # ps) (Inr resp # evs) sd =
     (case as_u64 (jindex (content resp) ''id'') of
        None \<Rightarrow> (Some (Inl (NoIdInResponse (to_text S (content resp)))), sd)
      | Some n \<Rightarrow>
          (case map_of (p # ps) (ucast n) of
             None \<Rightarrow> move_listen S (p # ps) evs sd
           | Some params \<Rightarrow>
               (case get_sub_id_by_params params sd of
                  None \<Rightarrow> (Some (Inl MissingSubscription), sd)
                | Some sub_id \<Rightarrow>
                    (case move_subscription (from_node resp) params sub_id sd of
                       (Inl e, sd') \<Rightarrow> (Some (Inl e), sd')
                     | (Inr _, sd') \<Rightarrow> move_listen S (AList.delete (ucast n) (p # ps)) evs sd'))))"

definition move_subscriptions ::
  "serde \<Rightarrow> usize \<Rightarrow> (recv_error + incoming_response) list \<Rightarrow> sub_data \<Rightarrow>
     wsconn_message list \<times> (ws_error + unit) option \<times> sub_data" where
  "move_subscriptions S n evs sd =
     (unsubscribe_messages n sd @ subscribe_messages S n sd, move_listen S (move_pairs S n sd) evs sd)"

section \<open>Dropped connections\<close>

text \<open>\<open>send_dropped_to_poverty\<close> as a whole: the lists, then the subscriptions.\<close>

definition handle_dropped ::
  "serde \<Rightarrow> usize \<Rightarrow> (recv_error + incoming_response) list \<Rightarrow> rpc list \<times> rpc list \<Rightarrow> sub_data \<Rightarrow>
     (rpc list \<times> rpc list) \<times> wsconn_message list \<times> (ws_error + unit) option \<times> sub_data" where
  "handle_dropped S i evs pools sd =
     (case send_dropped_to_poverty i (fst pools) (snd pools) of
        pools' \<Rightarrow> (pools', move_subscriptions S i evs sd))"

text \<open>One turn of \<open>dropped_listener\<close>: an error of the move is ignored, and the connections are
  opened anew. While the move still waits for a response nothing more is sent.\<close>

definition dropped_listener ::
  "serde \<Rightarrow> ws_channel_err option \<Rightarrow> (recv_error + incoming_response) list \<Rightarrow> rpc list \<times> rpc list \<Rightarrow> sub_data \<Rightarrow>
     (rpc list \<times> rpc list) \<times> wsconn_message list \<times> sub_data \<times> bool" where
  "dropped_listener S err evs pools sd =
     (case err of
        None \<Rightarrow> (pools, [], sd, False)
      | Some (WsClosed i) \<Rightarrow>
          (case handle_dropped S i evs pools sd of
             (pools', ms, res, sd') \<Rightarrow>
               (pools', ms @ (case res of None \<Rightarrow> [] | Some _ \<Rightarrow> [Reconnect]), sd', True)))"

section \<open>Properties\<close>

text \<open>The dispatcher changes the tables and delivers something only for subscription
  notifications; it asks a node to end a subscription exactly when that node's notification
  found a subscription without subscribers, and then names that subscription and that node.\<close>

theorem dispatcher_only_acts_on_notifications:
  assumes "dispatcher_step alive resp sd = (sd', ds, ms)"
  shows "(sd' \<noteq> sd \<or> ds \<noteq> [] \<or> ms \<noteq> [] \<longrightarrow> jindex (content resp) ''method'' = JStr ''eth_subscription'') \<and>
         (ms \<noteq> [] \<longleftrightarrow>
            (jindex (content resp) ''method'' = JStr ''eth_subscription'' \<and>
             (\<exists>i. jindex (jindex (content resp) ''params'') ''subscription'' = JStr i \<and>
                  subscribers sd \<lparr>node_id = from_node resp, subscription_id = i\<rparr> = Some [] \<and>
                  ms = [Message (ws_request 2 eth_rpc_method.Unsubscribe (JArr [JStr i])) (Some (from_node resp))])))"
proof (cases "json_eq_method (jindex (content resp) ''method'') Subscription")
  case True
  then have m: "jindex (content resp) ''method'' = JStr ''eth_subscription''"
    by (simp add: json_eq_method_def as_str_Some)
  show ?thesis
  proof (cases "as_str (jindex (jindex (content resp) ''params'') ''subscription'')")
    case None
    then have "jindex (jindex (content resp) ''params'') ''subscription'' \<noteq> JStr i" for i by auto
    with assms True None m show ?thesis by (auto simp: dispatcher_step_def)
  next
    case (Some i)
    then have i: "jindex (jindex (content resp) ''params'') ''subscription'' = JStr i" by (simp add: as_str_Some)
    obtain r sd1 ds1 where d: "dispatch_to_subscribers alive i (from_node resp) (SubscriptionResult (content resp)) sd = (r, sd1, ds1)"
      by (metis prod.collapse)
    have r: "r = Inr True \<longleftrightarrow> subscribers sd \<lparr>node_id = from_node resp, subscription_id = i\<rparr> = Some []"
      "r \<noteq> Inr True \<Longrightarrow> r = Inr False"
      using d by (auto simp: dispatch_to_subscribers_def subscribers_def split: option.splits if_splits prod.splits)
    show ?thesis
      using assms True Some m i d r
      by (cases "r = Inr True") (auto simp: dispatcher_step_def WS_SUB_MANAGER_ID_def)
  qed
next
  case False
  then have "jindex (content resp) ''method'' \<noteq> JStr ''eth_subscription''" by (auto simp: json_eq_method_def)
  with assms False show ?thesis by (auto simp: dispatcher_step_def)
qed

definition head_notification :: incoming_response where
  "head_notification =
     \<lparr>content = JObj [(''method'', JStr ''eth_subscription''),
                      (''params'', JObj [(''result'', JNull), (''subscription'', JStr ''0xa'')])],
      from_node = 1\<rparr>"

theorem dispatcher_only_acts_on_notifications_witness:
  "\<exists>sd' ds ms. dispatcher_step (\<lambda>ch. True) head_notification (two_users\<lparr>subscriptions := [(heads_info, [])]\<rparr>) = (sd', ds, ms) \<and>
     ms \<noteq> []"
proof -
  obtain sd' ds ms where d: "dispatcher_step (\<lambda>ch. True) head_notification (two_users\<lparr>subscriptions := [(heads_info, [])]\<rparr>) = (sd', ds, ms)"
    by (metis prod.collapse)
  have "ms = [Message (ws_request 2 eth_rpc_method.Unsubscribe (JArr [JStr ''0xa''])) (Some 1)]"
    using d by (simp add: dispatcher_step_def head_notification_def jindex_def json_eq_method_def
        dispatch_to_subscribers_def heads_info_def WS_SUB_MANAGER_ID_def)
  with dispatcher_only_acts_on_notifications [OF d] d show ?thesis by auto
qed

text \<open>A move is abandoned by the first message on the broadcast channel that has no numeric id,
  and every subscription notification is such a message: one notification from any node before
  the answers have come in ends the move with an error, and no subscription is moved.\<close>

theorem notification_aborts_move:
  assumes "get_subscription_by_node S n sd \<noteq> []" "as_u64 (jindex (content resp) ''id'') = None"
  shows "snd (move_subscriptions S n (Inr resp # evs) sd) =
           (Some (Inl (NoIdInResponse (to_text S (content resp)))), sd)"
proof -
  obtain p ps where "move_pairs S n sd = p # ps"
    using assms(1) by (cases "get_subscription_by_node S n sd") (auto simp: move_pairs_def)
  with assms(2) show ?thesis by (simp add: move_subscriptions_def)
qed

lemma two_users_by_node: "get_subscription_by_node heads_codec 1 two_users = [''[newHeads]'']"
  by (simp add: get_subscription_by_node_def two_users_def heads_info_def parse_string_array_def heads_codec_def)

theorem notification_aborts_move_witness:
  "snd (snd (move_subscriptions heads_codec 1 [Inr head_notification] two_users)) = two_users"
  using notification_aborts_move [of heads_codec 1 two_users head_notification "[]"]
  by (simp add: two_users_by_node head_notification_def jindex_def)

lemma number_from_simps [simp]: "set (map snd (number_from i ps)) = set ps" "length (number_from i ps) = length ps"
  by (induction ps arbitrary: i) auto

lemma subscription_text:
  assumes "params \<in> set (get_subscription_by_node S n sd)"
  obtains ss where "params = to_text S (JArr (map JStr ss))"
proof -
  define f where "f = (\<lambda>(k, i :: node_sub_info). if node_id i = n
       then (case parse_string_array S k of None \<Rightarrow> [] | Some ss \<Rightarrow> [to_text S (JArr (map JStr ss))]) else [])"
  have "get_subscription_by_node S n sd = concat (map f (incoming sd))"
    by (simp only: get_subscription_by_node_def f_def)
  with assms obtain x where "params \<in> set (f x)" by auto
  moreover have "f x = [] \<or> (\<exists>ss. f x = [to_text S (JArr (map JStr ss))])"
    by (cases x; cases "node_id (snd x) = n"; cases "parse_string_array S (fst x)") (simp_all add: f_def, blast)
  ultimately have "\<exists>ss. params = to_text S (JArr (map JStr ss))" by auto
  then show thesis using that by blast
qed

lemma subscribe_message_shape:
  assumes "m \<in> set (subscribe_messages S n sd)"
  shows "\<exists>i ss. m = Message (ws_request i eth_rpc_method.Subscribe
           (JArr [JStr (to_text S (JArr (map JStr ss)))])) None"
proof -
  obtain i params where m: "(i, params) \<in> set (move_pairs S n sd)"
    "m = Message (ws_request i eth_rpc_method.Subscribe (JArr [JStr params])) None"
    using assms by (auto simp: subscribe_messages_def)
  have "set (map snd (move_pairs S n sd)) = set (get_subscription_by_node S n sd)"
    by (simp only: move_pairs_def number_from_simps)
  moreover have "params \<in> set (map snd (move_pairs S n sd))" using m(1) by (metis in_set_conv_nth image_eqI list.set_map snd_conv)
  ultimately have "params \<in> set (get_subscription_by_node S n sd)" by (rule subst)
  then obtain ss where "params = to_text S (JArr (map JStr ss))" by (rule subscription_text)
  with m(2) show ?thesis by (intro exI) simp
qed

lemma length_get_subscription_by_node:
  "length (get_subscription_by_node S n sd) =
     length (filter (\<lambda>(k, i). node_id i = n \<and> parse_string_array S k \<noteq> None) (incoming sd))"
proof -
  have "length (concat (map (\<lambda>(k, i). if node_id i = n
       then (case parse_string_array S k of None \<Rightarrow> [] | Some ss \<Rightarrow> [to_text S (JArr (map JStr ss))])
       else []) m)) = length (filter (\<lambda>(k, i). node_id i = n \<and> parse_string_array S k \<noteq> None) m)" for m
  proof (induction m)
    case (Cons a m)
    then show ?case by (cases a; cases "parse_string_array S (fst a)") simp_all
  qed simp
  then show ?thesis by (simp add: get_subscription_by_node_def)
qed



end
