(* ===== verification/WsClient.thy ===== *)
theory WsClient
  imports SubManager AcceptHttp
begin

text \<open>
  \<open>src/src/websocket/client.rs\<close> and \<open>src/src/websocket/server.rs\<close>: the connections to the
  endpoints and the manager that routes requests to them, one connection's two tasks, the
  processing of one request of a websocket user, and the connection of a user. Channels are
  lists of what was put into them; the answers of the websocket library are arguments. The
  selection of turn \<open>k\<close> is an argument too, because it reads the clock.
\<close>

section \<open>The connections to the endpoints\<close>

text \<open>A handle is the sending end of a channel. It is open while the task that reads from it runs:
  \<open>ws_conn\<close> drops the reading end where the endpoint has no websocket address or does not answer.\<close>

record ws_handle =
  handle_open :: bool
  handle_sent :: "json list"

record ws_outside =
  ws_select :: "nat \<Rightarrow> rpc list \<Rightarrow> (rpc \<times> nat option) \<times> rpc list"
  ws_default :: rpc
  ws_connects :: "nat \<Rightarrow> rpc \<Rightarrow> bool"

record ws_manager =
  ws_rpcs :: "rpc list rwlock"
  handles :: "(usize \<times> ws_handle) list"
  ws_buffer :: "json list"
  ws_turn :: nat

definition ws_open :: "ws_outside \<Rightarrow> nat \<Rightarrow> rpc \<Rightarrow> ws_handle" where
  "ws_open X k r = \<lparr>handle_open = (ws_url r \<noteq> None \<and> ws_connects X k r), handle_sent = []\<rparr>"

definition ws_reconnect :: "ws_outside \<Rightarrow> ws_manager \<Rightarrow> ws_manager" where
  "ws_reconnect X m =
     m\<lparr>handles := foldl (\<lambda>hs r. AList.update (rpc_id r) (ws_open X (ws_turn m) r) hs) [] (contents (ws_rpcs m)),
       ws_turn := Suc (ws_turn m)\<rparr>"

definition ws_deliver :: "usize \<Rightarrow> json \<Rightarrow> (usize \<times> ws_handle) list \<Rightarrow> (usize \<times> ws_handle) list" where
  "ws_deliver n call =
     AList.map_entry n (\<lambda>h. if handle_open h then h\<lparr>handle_sent := handle_sent h @ [call]\<rparr> else h)"

definition ws_send :: "ws_outside \<Rightarrow> json \<Rightarrow> usize option \<Rightarrow> ws_manager \<Rightarrow> ws_manager" where
  "ws_send X call specified m =
     (case specified of
        Some n \<Rightarrow> m\<lparr>handles := ws_deliver n call (handles m)\<rparr>
      | None \<Rightarrow>
          (let ((r, pos), l) = pick (ws_select X (ws_turn m)) (ws_default X) (contents (ws_rpcs m));
               m1 = m\<lparr>ws_rpcs := (ws_rpcs m)\<lparr>contents := l\<rparr>, ws_turn := Suc (ws_turn m)\<rparr>
           in case pos of
                Some _ \<Rightarrow>
                  (let hs = (if map_of (handles m) (rpc_id r) = None
                             then AList.update (rpc_id r) (ws_open X (ws_turn m) r) (handles m)
                             else handles m)
                   in m1\<lparr>handles := ws_deliver (rpc_id r) call hs\<rparr>)
              | None \<Rightarrow>
                  (if json_eq_method (jindex call ''method'') Subscription \<or>
                      json_eq_method (jindex call ''method'') eth_rpc_method.Subscribe
                   then m1\<lparr>ws_buffer := ws_buffer m1 @ [call]\<rparr>
                   else m1)))"

definition unload_buffer :: "ws_outside \<Rightarrow> ws_manager \<Rightarrow> ws_manager" where
  "unload_buffer X m = foldl (\<lambda>m v. ws_send X v None m) (m\<lparr>ws_buffer := []\<rparr>) (ws_buffer m)"

definition ws_manager_step :: "ws_outside \<Rightarrow> wsconn_message \<Rightarrow> ws_manager \<Rightarrow> ws_manager" where
  "ws_manager_step X msg m =
     (case msg of
        Message call specified \<Rightarrow> ws_send X call specified m
      | Reconnect \<Rightarrow> unload_buffer X (ws_reconnect X m))"

text \<open>Between two messages other tasks change the list, and connections end.\<close>

datatype ws_event = Received wsconn_message | ListIs "rpc list rwlock" | ConnectionEnds usize

definition ws_conn_manager_step :: "ws_outside \<Rightarrow> ws_manager \<Rightarrow> ws_event \<Rightarrow> ws_manager" where
  "ws_conn_manager_step X m ev =
     (case ev of
        Received msg \<Rightarrow> ws_manager_step X msg m
      | ListIs rl \<Rightarrow> m\<lparr>ws_rpcs := rl\<rparr>
      | ConnectionEnds n \<Rightarrow> m\<lparr>handles := AList.map_entry n (\<lambda>h. h\<lparr>handle_open := False\<rparr>) (handles m)\<rparr>)"

definition ws_conn_manager :: "ws_outside \<Rightarrow> ws_event list \<Rightarrow> rpc list rwlock \<Rightarrow> ws_manager" where
  "ws_conn_manager X evs rl =
     foldl (ws_conn_manager_step X)
       (ws_reconnect X \<lparr>ws_rpcs = rl, handles = [], ws_buffer = [], ws_turn = 0\<rparr>) evs"

section \<open>One connection\<close>

text \<open>The sending task: \<open>accepted k\<close> tells whether the socket takes the \<open>k\<close>-th message. It gives the
  texts that left and the error it reports, and ends there.\<close>

fun ws_sender :: "serde \<Rightarrow> usize \<Rightarrow> (nat \<Rightarrow> bool) \<Rightarrow> nat \<Rightarrow> json list \<Rightarrow> string list \<times> ws_channel_err list" where
  "ws_sender S n accepted k [] = ([], [])"
| "ws_sender S n accepted k (v # vs) =
     (if accepted k
      then (case ws_sender S n accepted (Suc k) vs of (out, errs) \<Rightarrow> (to_text S v # out, errs))
      else ([], [WsClosed n]))"

text \<open>The receiving task, on what the socket gives and the nanoseconds each message takes. A stream that
  ends (\<open>StreamEnd\<close>), as after an orderly close, ends the task without a report.\<close>

datatype ws_frame = TextFrame string nat | NotText | FrameError | StreamEnd

record ws_received =
  broadcasts :: "incoming_response list"
  reported :: "ws_channel_err list"
  after_rpcs :: "rpc list rwlock"
  still_open :: bool

fun ws_receiver :: "serde \<Rightarrow> usize \<Rightarrow> ws_frame list \<Rightarrow> rpc list rwlock \<Rightarrow> ws_received" where
  "ws_receiver S n [] rl = \<lparr>broadcasts = [], reported = [], after_rpcs = rl, still_open = True\<rparr>"
| "ws_receiver S n (NotText # fs) rl =
     \<lparr>broadcasts = [], reported = [WsClosed n], after_rpcs = rl, still_open = False\<rparr>"
| "ws_receiver S n (FrameError # fs) rl =
     \<lparr>broadcasts = [], reported = [WsClosed n], after_rpcs = rl, still_open = False\<rparr>"
| "ws_receiver S n (StreamEnd # fs) rl =
     \<lparr>broadcasts = [], reported = [], after_rpcs = rl, still_open = False\<rparr>"
| "ws_receiver S n (TextFrame s t # fs) rl =
     (case simd_parse S s of
        Inl _ \<Rightarrow> ws_receiver S n fs rl
      | Inr v \<Rightarrow>
          (case update_rpc_latency rl n t of
             (Panic, rl') \<Rightarrow>
               \<lparr>broadcasts = [\<lparr>content = v, from_node = n\<rparr>], reported = [], after_rpcs = rl', still_open = False\<rparr>
           | (Ret _, rl') \<Rightarrow>
               (let rest = ws_receiver S n fs rl'
                in rest\<lparr>broadcasts := \<lparr>content = v, from_node = n\<rparr> # broadcasts rest\<rparr>)))"

text \<open>\<open>ws_conn\<close>: nothing happens for an endpoint without a websocket address or one that does not
  accept the connection; otherwise both tasks run, with what they are given until they end.\<close>

definition ws_conn ::
  "serde \<Rightarrow> bool \<Rightarrow> rpc \<Rightarrow> (nat \<Rightarrow> bool) \<Rightarrow> json list \<Rightarrow> ws_frame list \<Rightarrow> rpc list rwlock \<Rightarrow>
     ((string list \<times> ws_channel_err list) \<times> ws_received) option" where
  "ws_conn S connects r accepted calls fs rl =
     (if ws_url r = None \<or> \<not> connects then None
      else Some (ws_sender S (rpc_id r) accepted 0 calls, ws_receiver S (rpc_id r) fs rl))"

lemma ws_conn_starts_open:
  "ws_conn S (ws_connects X k r) r accepted calls fs rl \<noteq> None \<longleftrightarrow> handle_open (ws_open X k r)"
  by (simp add: ws_conn_def ws_open_def)

section \<open>Where a message goes\<close>

text \<open>The handles, seen as a lookup.\<close>

lemma ws_deliver_lookup [sub_simps]:
  "map_of (ws_deliver n v hs) k =
     (if k = n then map_option (\<lambda>h. if handle_open h then h\<lparr>handle_sent := handle_sent h @ [v]\<rparr> else h) (map_of hs n)
      else map_of hs k)"
  by (simp add: ws_deliver_def map_of_map_entry option.map_comp split: option.split)

lemma ws_deliver_keys [sub_simps]: "map fst (ws_deliver n v hs) = map fst hs"
  by (induction hs) (auto simp: ws_deliver_def)

definition is_subscription_call :: "json \<Rightarrow> bool" where
  "is_subscription_call v \<longleftrightarrow>
     json_eq_method (jindex v ''method'') Subscription \<or> json_eq_method (jindex v ''method'') eth_rpc_method.Subscribe"

lemma ws_send_picked:
  assumes "selector (ws_select X (ws_turn m))" "contents (ws_rpcs m) \<noteq> []"
  obtains r l where "r \<in> set l" "map core l = map core (contents (ws_rpcs m))"
    "ws_send X v None m =
       m\<lparr>ws_rpcs := (ws_rpcs m)\<lparr>contents := l\<rparr>, ws_turn := Suc (ws_turn m),
         handles := ws_deliver (rpc_id r) v
           (if map_of (handles m) (rpc_id r) = None
            then AList.update (rpc_id r) (ws_open X (ws_turn m) r) (handles m) else handles m)\<rparr>"
proof -
  obtain r pos l where p: "pick (ws_select X (ws_turn m)) (ws_default X) (contents (ws_rpcs m)) = ((r, pos), l)"
    by (metis prod.collapse)
  note sel = selector.pick_None [OF assms(1), of "ws_default X" "contents (ws_rpcs m)"]
    selector.pick_Some [OF assms(1), of "ws_default X" "contents (ws_rpcs m)"]
    selector.pick_core [OF assms(1), of "ws_default X" "contents (ws_rpcs m)"]
    selector.pick_length [OF assms(1), of "ws_default X" "contents (ws_rpcs m)"]
  from sel(1) p assms(2) obtain i where i: "pos = Some i" by auto
  from sel(2-4) p i have "r \<in> set l" "map core l = map core (contents (ws_rpcs m))" by auto
  with p i show thesis by (intro that) (simp_all add: ws_send_def Let_def)
qed

lemma ws_send_no_endpoint:
  assumes "contents (ws_rpcs m) = []"
  shows "ws_send X v None m =
    m\<lparr>ws_turn := Suc (ws_turn m), ws_buffer := ws_buffer m @ (if is_subscription_call v then [v] else [])\<rparr>"
  using assms by (simp add: ws_send_def pick_def Let_def is_subscription_call_def)

lemma core_ids:
  assumes "map core l = map core l'"
  shows "map rpc_id l = map rpc_id l'" "map ws_url l = map ws_url l'"
proof -
  have "rpc_id \<circ> core = rpc_id" "ws_url \<circ> core = ws_url" by (auto simp: core_def)
  then show "map rpc_id l = map rpc_id l'" "map ws_url l = map ws_url l'"
    using arg_cong [OF assms, of "map rpc_id"] arg_cong [OF assms, of "map ws_url"] by simp_all
qed

lemma core_id_set: "map core l = map core l' \<Longrightarrow> rpc_id ` set l = rpc_id ` set l'"
  using core_ids(1) by (metis list.set_map)


section \<open>Reconnecting delivers the buffer\<close>

definition queued :: "(usize \<times> ws_handle) list \<Rightarrow> json list" where
  "queued hs = concat (map (handle_sent \<circ> snd) hs)"

definition all_open :: "(usize \<times> ws_handle) list \<Rightarrow> bool" where
  "all_open hs \<longleftrightarrow> list_all (\<lambda>(n, h). handle_open h) hs"

lemma open_update:
  "all_open hs \<Longrightarrow> handle_open h \<Longrightarrow> all_open (AList.update k h hs)"
  by (induction hs) (auto simp: all_open_def)

lemma queued_update:
  "queued hs = [] \<Longrightarrow> handle_sent h = [] \<Longrightarrow> queued (AList.update k h hs) = []"
proof -
  have q: "queued hs = [] \<longleftrightarrow> list_all (\<lambda>(n, h). handle_sent h = []) hs" for hs
    by (induction hs) (auto simp: queued_def)
  have "list_all (\<lambda>(n, h). handle_sent h = []) hs \<Longrightarrow> handle_sent h = [] \<Longrightarrow>
      list_all (\<lambda>(n, h). handle_sent h = []) (AList.update k h hs)"
    by (induction hs) auto
  then show "queued hs = [] \<Longrightarrow> handle_sent h = [] \<Longrightarrow> queued (AList.update k h hs) = []"
    by (simp only: q)
qed

lemma open_fold:
  assumes "\<forall>r\<in>set l. handle_open (g r) \<and> handle_sent (g r) = []"
    "all_open hs" "queued hs = []"
  shows "all_open (foldl (\<lambda>hs r. AList.update (rpc_id r) (g r) hs) hs l)"
    "queued (foldl (\<lambda>hs r. AList.update (rpc_id r) (g r) hs) hs l) = []"
  using assms by (induction l arbitrary: hs) (simp_all add: open_update queued_update)

lemma keys_fold:
  "fst ` set (foldl (\<lambda>hs r. AList.update (rpc_id r) (g r) hs) hs l) = fst ` set hs \<union> rpc_id ` set l"
  by (induction l arbitrary: hs) (simp_all add: dom_update)

lemma queued_deliver:
  assumes "n \<in> fst ` set hs" "all_open hs"
  shows "mset (queued (ws_deliver n v hs)) = add_mset v (mset (queued hs)) \<and> all_open (ws_deliver n v hs)"
  using assms by (induction hs) (auto simp: ws_deliver_def queued_def all_open_def)

lemma unload_fold:
  assumes "\<And>k. selector (ws_select X k)" "contents (ws_rpcs m) \<noteq> []"
    and "fst ` set (handles m) = rpc_id ` set (contents (ws_rpcs m))" "all_open (handles m)"
  shows "let m' = foldl (\<lambda>m v. ws_send X v None m) m vs
         in ws_buffer m' = ws_buffer m \<and> mset (queued (handles m')) = mset (queued (handles m)) + mset vs \<and>
            fst ` set (handles m') = fst ` set (handles m) \<and> all_open (handles m')"
  using assms(2-4)
proof (induction vs arbitrary: m)
  case (Cons v vs)
  from ws_send_picked [OF assms(1) Cons.prems(1), of v] obtain r l where r: "r \<in> set l"
    "map core l = map core (contents (ws_rpcs m))"
    "ws_send X v None m =
       m\<lparr>ws_rpcs := (ws_rpcs m)\<lparr>contents := l\<rparr>, ws_turn := Suc (ws_turn m),
         handles := ws_deliver (rpc_id r) v
           (if map_of (handles m) (rpc_id r) = None
            then AList.update (rpc_id r) (ws_open X (ws_turn m) r) (handles m) else handles m)\<rparr>" .
  let ?m = "ws_send X v None m"
  have ids: "rpc_id ` set l = rpc_id ` set (contents (ws_rpcs m))" by (rule core_id_set [OF r(2)])
  with r(1) Cons.prems(2) have key: "rpc_id r \<in> fst ` set (handles m)" by blast
  then have some: "map_of (handles m) (rpc_id r) \<noteq> None" by (simp add: map_of_eq_None_iff)
  with r(3) have hs: "handles ?m = ws_deliver (rpc_id r) v (handles m)"
    and rpcs: "contents (ws_rpcs ?m) = l" and buf: "ws_buffer ?m = ws_buffer m" by simp_all
  have keys: "fst ` set (handles ?m) = fst ` set (handles m)"
    using ws_deliver_keys [of "rpc_id r" v "handles m"] by (metis hs list.set_map)
  note q = queued_deliver [OF key Cons.prems(3), of v, folded hs]
  have "l \<noteq> []" using r(1) by auto
  from Cons.IH [of ?m] this ids keys q Cons.prems(2) rpcs buf show ?case by (simp add: Let_def)
qed (use assms(4) in \<open>simp add: Let_def\<close>)


definition all_connect :: ws_outside where
  "all_connect =
     \<lparr>ws_select = (\<lambda>k. algo sort_key 100), ws_default = demo_rpc 9 0 0, ws_connects = (\<lambda>k r. True)\<rparr>"

text \<open>One endpoint without a connection yet, and two requests in the buffer.\<close>

definition one_endpoint_manager :: "url option \<Rightarrow> ws_manager" where
  "one_endpoint_manager ws =
     \<lparr>ws_rpcs = new_lock [(demo_rpc 1 7 2)\<lparr>ws_url := ws\<rparr>], handles = [], ws_buffer = [JNull, JBool True], ws_turn = 0\<rparr>"



section \<open>One request of a user\<close>

text \<open>\<open>listen_for_response\<close>: \<open>None\<close> while nothing fitting has come.\<close>

fun listen_for_response :: "u32 \<Rightarrow> (recv_error + incoming_response) list \<Rightarrow> (ws_error + incoming_response) option" where
  "listen_for_response u [] = None"
| "listen_for_response u (Inl e # evs) = Some (Inl NoWsResponse)"
| "listen_for_response u (Inr resp # evs) =
     (if ucast (case as_u64 (jindex (content resp) ''id'') of Some n \<Rightarrow> n | None \<Rightarrow> ucast (- 1 :: u32)) = u
      then Some (Inr resp)
      else listen_for_response u evs)"

text \<open>What a request works on: the subscriptions, the head cache, what was sent to the database and
  to the connection manager. \<open>while_waiting\<close> is what other tasks do to the first two before the
  answer comes.\<close>

record ws_io =
  io_subs :: sub_data
  io_head :: "head_cache rwlock"
  io_sent :: "request_kind list"
  io_calls :: "wsconn_message list"

record ws_surroundings =
  side_of :: cache_side
  manager_up :: bool
  while_waiting :: "sub_data \<times> head_cache rwlock \<Rightarrow> sub_data \<times> head_cache rwlock"
  heard :: "(recv_error + incoming_response) list"

definition error_text :: "serde \<Rightarrow> json \<Rightarrow> string \<Rightarrow> string" where
  "error_text S i e = ''{\"jsonrpc\":\"2.0\", \"id\":'' @ to_text S i @ '', \"error\": \"'' @ e @ ''\"}''"

text \<open>The answer to \<open>eth_unsubscribe\<close>, given without asking an endpoint.\<close>

definition unsubscribe_call :: "serde \<Rightarrow> u32 \<Rightarrow> json \<Rightarrow> json \<Rightarrow> sub_data \<Rightarrow> string \<times> sub_data" where
  "unsubscribe_call S u i call sd =
     (case as_str (jnth (jindex call ''params'') 0) of
        None \<Rightarrow> (error_text S i ''Bad Subscription ID!'', sd)
      | Some sub_id \<Rightarrow>
          (case get_node_from_id sub_id sd of
             None \<Rightarrow> (error_text S i ''false'', sd)
           | Some _ \<Rightarrow>
               (''{\"jsonrpc\":\"2.0\",\"id\":'' @ to_text S i @ '',\"result\":true}'', unsubscribe_user u sub_id sd)))"

text \<open>What happens to an answer: \<open>call\<close> carries the id of the user, \<open>i\<close> is the id of the client.\<close>

definition ws_answer ::
  "cache_side \<Rightarrow> u32 \<Rightarrow> json \<Rightarrow> string \<Rightarrow> json \<Rightarrow> bool \<Rightarrow> incoming_response \<Rightarrow> ws_io \<Rightarrow>
     ws_io \<times> (ws_error + string) outcome" where
  "ws_answer C u i tx_hash call is_sub resp io =
     (let finish = (\<lambda>io. case jset ''id'' i (content resp) of
                           Panic \<Rightarrow> (io, Panic)
                         | Ret v \<Rightarrow> (io, Ret (Inr (to_text (codec C) v))))
      in if is_sub
         then
           (case as_str (jindex (content resp) ''result'') of
              None \<Rightarrow>
                (io, Ret (Inr (''\"jsonrpc\":\"2.0\", \"id\":'' @ to_text (codec C) i @
                               '', \"error\": \"Bad Subscription ID!\"'')))
            | Some sub_id \<Rightarrow>
                (case subscribe_user (codec C) u call
                        (register_subscription (codec C) call sub_id (from_node resp) (io_subs io)) of
                   (Inl e, sd) \<Rightarrow> (io\<lparr>io_subs := sd\<rparr>, Ret (Inl e))
                 | (Inr _, sd) \<Rightarrow> finish (io\<lparr>io_subs := sd\<rparr>)))
         else
           (case cache_query (codec C) (no_cache C)
                   \<lparr>finalized_rx = final_now C, named_numbers = named_now C, args_head_cache = io_head io\<rparr>
                   (to_text (codec C) (content resp)) call tx_hash of
              Panic \<Rightarrow> (io, Panic)
            | Ret (hc, reqs) \<Rightarrow> finish (io\<lparr>io_head := hc, io_sent := io_sent io @ reqs\<rparr>)))"

text \<open>The request is sent on, and the first message with the id of the user is its answer.\<close>

definition ws_forward ::
  "ws_surroundings \<Rightarrow> u32 \<Rightarrow> json \<Rightarrow> string \<Rightarrow> json \<Rightarrow> bool \<Rightarrow> ws_io \<Rightarrow> ws_io \<times> (ws_error + string) option outcome" where
  "ws_forward W u i tx_hash call is_sub io =
     (case jset ''id'' (JNum (PosInt (ucast u))) call of
        Panic \<Rightarrow> (io, Panic)
      | Ret call1 \<Rightarrow>
          (if \<not> manager_up W then (io, Ret (Some (Inl ws_error_from_send)))
           else
             (let io1 = io\<lparr>io_calls := io_calls io @ [Message call1 None]\<rparr>;
                  (sd, hc) = while_waiting W (io_subs io1, io_head io1);
                  io2 = io1\<lparr>io_subs := sd, io_head := hc\<rparr>
              in case listen_for_response u (heard W) of
                   None \<Rightarrow> (io2, Ret None)
                 | Some (Inl e) \<Rightarrow> (io2, Ret (Some (Inl e)))
                 | Some (Inr resp) \<Rightarrow>
                     (case ws_answer (side_of W) u i tx_hash call1 is_sub resp io2 of
                        (io3, Panic) \<Rightarrow> (io3, Panic)
                      | (io3, Ret res) \<Rightarrow> (io3, Ret (Some res))))))"

definition execute_ws_call ::
  "ws_surroundings \<Rightarrow> u32 \<Rightarrow> json \<Rightarrow> ws_io \<Rightarrow> ws_io \<times> (ws_error + string) option outcome" where
  "execute_ws_call W u call io =
     (let C = side_of W; S = codec C
      in if \<not> is_object call then (io, Ret (Some (Inr invalid_request_body)))
         else
           case jtake ''id'' call of
             Panic \<Rightarrow> (io, Panic)
           | Ret (i, call1) \<Rightarrow>
               (case replace_block_tags S call1 (named_now C) of
                  Panic \<Rightarrow> (io, Panic)
                | Ret call2 \<Rightarrow>
                    (let call_string = to_text S call2;
                         tx_hash = hash_of C call_string;
                         cached = (if has_block_tag call_string then None
                                   else case db_reply C tx_hash of Inr (Some rax) \<Rightarrow> Some rax | _ \<Rightarrow> None)
                     in case cached of
                          Some rax \<Rightarrow>
                            (case simd_parse S rax of
                               Inl _ \<Rightarrow> (io, Panic)
                             | Inr v \<Rightarrow>
                                 (case jset ''id'' i v of
                                    Panic \<Rightarrow> (io, Panic)
                                  | Ret v' \<Rightarrow> (io, Ret (Some (Inr (to_text S v'))))))
                        | None \<Rightarrow>
                            (if json_eq_method (jindex call2 ''method'') eth_rpc_method.Unsubscribe
                             then (case unsubscribe_call S u i call2 (io_subs io) of
                                     (text, sd) \<Rightarrow> (io\<lparr>io_subs := sd\<rparr>, Ret (Some (Inr text))))
                             else if json_eq_method (jindex call2 ''method'') eth_rpc_method.Subscribe
                             then
                               (case subscribe_user S u call2 (io_subs io) of
                                  (Inr sub_id, sd) \<Rightarrow>
                                    (io\<lparr>io_subs := sd\<rparr>,
                                     Ret (Some (Inr (''{\"jsonrpc\":\"2.0\",\"id\":'' @ to_text S i @
                                                     '',\"result\":\"'' @ sub_id @ ''\"}''))))
                                | (Inl _, sd) \<Rightarrow> ws_forward W u i tx_hash call2 True (io\<lparr>io_subs := sd\<rparr>))
                             else ws_forward W u i tx_hash call2 False io))))"

section \<open>What a user of a websocket gets\<close>

lemma prepared_take:
  assumes "is_object call"
  obtains call1 where "jtake ''id'' call = Ret (jindex call ''id'', call1)"
    "prepared C call = replace_block_tags (codec C) call1 (named_now C)"
  using jtake_object [OF assms] by (auto simp: prepared_def)

text \<open>The request after its id is taken out and its tags are rewritten, answered from the database,
  at once, or by an endpoint.\<close>

lemma execute_ws_call_prepared:
  assumes "is_object call" "prepared (side_of W) call = Ret call2"
  defines "S \<equiv> codec (side_of W)" and "i \<equiv> jindex call ''id''"
  shows "execute_ws_call W u call io =
    (let tx_hash = hash_of (side_of W) (to_text S call2)
     in case (if has_block_tag (to_text S call2) then None
              else case db_reply (side_of W) tx_hash of Inr (Some rax) \<Rightarrow> Some rax | _ \<Rightarrow> None) of
          Some rax \<Rightarrow>
            (case simd_parse S rax of
               Inl _ \<Rightarrow> (io, Panic)
             | Inr v \<Rightarrow>
                 (case jset ''id'' i v of
                    Panic \<Rightarrow> (io, Panic)
                  | Ret v' \<Rightarrow> (io, Ret (Some (Inr (to_text S v'))))))
        | None \<Rightarrow>
            (if json_eq_method (jindex call2 ''method'') eth_rpc_method.Unsubscribe
             then (case unsubscribe_call S u i call2 (io_subs io) of
                     (text, sd) \<Rightarrow> (io\<lparr>io_subs := sd\<rparr>, Ret (Some (Inr text))))
             else if json_eq_method (jindex call2 ''method'') eth_rpc_method.Subscribe
             then
               (case subscribe_user S u call2 (io_subs io) of
                  (Inr sub_id, sd) \<Rightarrow>
                    (io\<lparr>io_subs := sd\<rparr>,
                     Ret (Some (Inr (''{\"jsonrpc\":\"2.0\",\"id\":'' @ to_text S i @
                                     '',\"result\":\"'' @ sub_id @ ''\"}''))))
                | (Inl _, sd) \<Rightarrow> ws_forward W u i tx_hash call2 True (io\<lparr>io_subs := sd\<rparr>))
             else ws_forward W u i tx_hash call2 False io))"
proof -
  obtain call1 where c: "jtake ''id'' call = Ret (jindex call ''id'', call1)"
    "prepared (side_of W) call = replace_block_tags (codec (side_of W)) call1 (named_now (side_of W))"
    using prepared_take [OF assms(1)] by metis
  with assms(1,2) show ?thesis
    unfolding execute_ws_call_def S_def i_def Let_def by simp
qed

lemma listen_for_response_append:
  assumes "\<And>ev. ev \<in> set evs \<Longrightarrow> \<exists>r. ev = Inr r \<and> listen_for_response u [Inr r] = None"
  shows "listen_for_response u (evs @ later) = listen_for_response u later"
  using assms
proof (induction evs)
  case (Cons ev evs)
  then obtain r where r: "ev = Inr r" "listen_for_response u [Inr r] = None" by auto
  with Cons.IH Cons.prems show ?case by (auto split: if_splits)
qed simp

text \<open>C34. A user is answered with the first message that carries the number of the user, whatever
  request it answers: messages of other users and notifications are passed over, and the
  content of the first fitting one is returned with the id of the client put in; the answer is
  stored under the hash of the request that is waiting. (A late answer to an earlier request
  of the same user, one that was given up after a lagging channel, is therefore returned and
  cached as the answer to the next request.)\<close>

theorem first_message_of_the_user_answers:
  assumes "heard W = evs @ Inr resp # later"
    and "\<And>ev. ev \<in> set evs \<Longrightarrow> \<exists>r. ev = Inr r \<and> listen_for_response u [Inr r] = None"
    and "as_u64 (jindex (content resp) ''id'') = Some (ucast u)" "manager_up W"
    and "is_object call" "jset ''id'' (JNum (PosInt (ucast u))) call = Ret call1"
    and "jset ''id'' i (content resp) = Ret answer"
    and "while_waiting W (io_subs io, io_head io) = (sd, hc)"
    and "cache_query (codec (side_of W)) (no_cache (side_of W))
           \<lparr>finalized_rx = final_now (side_of W), named_numbers = named_now (side_of W), args_head_cache = hc\<rparr>
           (to_text (codec (side_of W)) (content resp)) call1 tx_hash = Ret (hc', reqs)"
  shows "ws_forward W u i tx_hash call False io =
    (io\<lparr>io_subs := sd, io_head := hc', io_sent := io_sent io @ reqs, io_calls := io_calls io @ [Message call1 None]\<rparr>,
     Ret (Some (Inr (to_text (codec (side_of W)) answer))))"
proof -
  have "ucast (ucast u :: u64) = u" by transfer simp
  with assms(3) have "listen_for_response u (Inr resp # later) = Some (Inr resp)" by simp
  with listen_for_response_append [OF assms(2), of later] assms(1)
  have "listen_for_response u (heard W) = Some (Inr resp)"
    using listen_for_response_append [OF assms(2)] by metis
  with assms(4-9) show ?thesis by (simp add: ws_forward_def ws_answer_def Let_def)
qed

text \<open>A user gives up a block number request after a lagging channel and asks for the chain id; the
  late answer comes first.\<close>

definition late_answer :: incoming_response where
  "late_answer =
     \<lparr>content = JObj [(''id'', JNum (PosInt 7)), (''result'', JStr ''0x1b4'')], from_node = 1\<rparr>"

definition chain_id_call :: json where
  "chain_id_call = JObj [(''id'', JNull), (''method'', JStr ''eth_chainId'')]"

definition ws_side :: cache_side where
  "ws_side =
     \<lparr>codec = sample_serde [], no_cache = True, hash_of = (\<lambda>s. s), named_now = named_at 30,
      final_now = 5, db_reply = (\<lambda>k. Inr None)\<rparr>"

definition late_world :: ws_surroundings where
  "late_world =
     \<lparr>side_of = ws_side, manager_up = True, while_waiting = (\<lambda>x. x), heard = [Inr head_notification, Inr late_answer]\<rparr>"

definition quiet_io :: ws_io where
  "quiet_io = \<lparr>io_subs = sub_data_new, io_head = new_lock [], io_sent = [], io_calls = []\<rparr>"

theorem first_message_of_the_user_answers_witness:
  "snd (ws_forward late_world 7 (JStr ''a'') ''h'' chain_id_call False quiet_io) =
     Ret (Some (Inr (print_json (JObj [(''id'', JStr ''a''), (''result'', JStr ''0x1b4'')]))))"
proof -
  have "ucast (ucast (- 1 :: u32) :: u64) \<noteq> (7 :: u32)" by code_simp
  then have "listen_for_response 7 [Inr head_notification] = None"
    by (simp add: head_notification_def jindex_def)
  moreover have "heard late_world = [Inr head_notification] @ Inr late_answer # []" by (simp add: late_world_def)
  moreover have "as_u64 (jindex (content late_answer) ''id'') = Some (ucast (7 :: u32))"
    by (simp add: late_answer_def jindex_def)
  moreover have "jset ''id'' (JNum (PosInt (ucast (7 :: u32)))) chain_id_call =
      Ret (JObj [(''id'', JNum (PosInt 7)), (''method'', JStr ''eth_chainId'')])"
    by (simp add: chain_id_call_def)
  moreover have "jset ''id'' (JStr ''a'') (content late_answer) = Ret (JObj [(''id'', JStr ''a''), (''result'', JStr ''0x1b4'')])"
    by (simp add: late_answer_def)
  moreover have "cache_query (codec (side_of late_world)) (no_cache (side_of late_world))
       \<lparr>finalized_rx = final_now (side_of late_world), named_numbers = named_now (side_of late_world),
        args_head_cache = io_head quiet_io\<rparr> rx m h = Ret (io_head quiet_io, [])" for rx m h
    by (simp add: cache_query_def cache_record_def can_cache_def cache_method_def Let_def late_world_def ws_side_def)
  ultimately show ?thesis
    using first_message_of_the_user_answers [of late_world "[Inr head_notification]" late_answer "[]" 7
        chain_id_call "JObj [(''id'', JNum (PosInt 7)), (''method'', JStr ''eth_chainId'')]"
        "JStr ''a''" "JObj [(''id'', JStr ''a''), (''result'', JStr ''0x1b4'')]" quiet_io
        "io_subs quiet_io" "io_head quiet_io" "''h''" "io_head quiet_io" "[]"]
    by (simp add: late_world_def chain_id_call_def ws_side_def sample_serde_def del: print_json.simps)
qed

section \<open>The connection of a user\<close>

text \<open>\<open>serve_websocket\<close>, the reading half: what it queues for the user, and its result. The list is
  what the socket gives until it ends.\<close>

datatype client_frame = ClientText string | ClientClose | ClientOther | ClientError string

fun serve_reader ::
  "serde \<Rightarrow> u32 \<Rightarrow> client_frame list \<Rightarrow> sub_data \<Rightarrow> request_result list \<times> (ws_error + unit) \<times> sub_data" where
  "serve_reader S u [] sd = ([], Inr (), sd)"
| "serve_reader S u (ClientText s # fs) sd =
     (case simd_parse S s of
        Inl _ \<Rightarrow> serve_reader S u fs sd
      | Inr v \<Rightarrow> (case serve_reader S u fs sd of (q, res, sd') \<Rightarrow> (CallResult v # q, res, sd')))"
| "serve_reader S u (ClientError e # fs) sd = ([], Inl (MessageReceptionFailed e), remove_user u sd)"
| "serve_reader S u (_ # fs) sd = serve_reader S u fs sd"

text \<open>The writing half: each queued message with the surroundings it meets and whether the socket
  takes the text (\<open>Some e\<close> when it fails).\<close>

datatype writer_end = WriterIdle | WriterWaits | WriterPanics | WriterFailed string

fun serve_writer ::
  "serde \<Rightarrow> u32 \<Rightarrow> (request_result \<times> ws_surroundings \<times> string option) list \<Rightarrow> ws_io \<Rightarrow>
     ws_io \<times> string list \<times> writer_end" where
  "serve_writer S u [] io = (io, [], WriterIdle)"
| "serve_writer S u ((SubscriptionResult v, W, refused) # qs) io =
     (case refused of
        None \<Rightarrow> (case serve_writer S u qs io of (io', out, res) \<Rightarrow> (io', to_text S v # out, res))
      | Some e \<Rightarrow> (io\<lparr>io_subs := remove_user u (io_subs io)\<rparr>, [], WriterFailed e))"
| "serve_writer S u ((CallResult v, W, refused) # qs) io =
     (case execute_ws_call W u v io of
        (io1, Panic) \<Rightarrow> (io1, [], WriterPanics)
      | (io1, Ret None) \<Rightarrow> (io1, [], WriterWaits)
      | (io1, Ret (Some res)) \<Rightarrow>
          (let text = (case res of Inr s \<Rightarrow> s | Inl e \<Rightarrow> ''{\"error\": \"'' @ ws_error_display e @ ''\"}'')
           in case refused of
                None \<Rightarrow> (case serve_writer S u qs io1 of (io', out, res) \<Rightarrow> (io', text # out, res))
              | Some e \<Rightarrow> (io1\<lparr>io_subs := remove_user u (io_subs io1)\<rparr>, [], WriterFailed e)))"

text \<open>The two halves start with the user added under its number \<open>u\<close> (drawn at random).\<close>

definition serve_start :: "u32 \<Rightarrow> channel \<Rightarrow> sub_data \<Rightarrow> sub_data" where
  "serve_start u ch sd = add_user u ch sd"

text \<open>\<open>serve_websocket\<close> up to the end of the reading half: a handshake that fails ends it before the
  user is added.\<close>

definition serve_websocket ::
  "serde \<Rightarrow> tungstenite_error + unit \<Rightarrow> u32 \<Rightarrow> channel \<Rightarrow> client_frame list \<Rightarrow> sub_data \<Rightarrow>
     request_result list \<times> (ws_error + unit) \<times> sub_data" where
  "serve_websocket S handshake u ch fs sd =
     (case handshake of
        Inl e \<Rightarrow> ([], Inl (ws_error_from_tungstenite e), sd)
      | Inr _ \<Rightarrow> serve_reader S u fs (serve_start u ch sd))"

text \<open>A user who leaves in order is not removed: unless the socket reports an error the reading
  half changes no table, so after a close frame and the end of the stream the user is still
  registered and subscribed; an error of the socket removes the user from every table.\<close>

theorem leaving_user_stays_registered:
  assumes "serve_reader S u fs sd = (q, res, sd')"
  shows "(res = Inr () \<longrightarrow> sd' = sd) \<and>
         (res \<noteq> Inr () \<longrightarrow> sd' = remove_user u sd \<and> (\<exists>e. res = Inl (MessageReceptionFailed e))) \<and>
         (res = Inr () \<longleftrightarrow> (\<forall>e. ClientError e \<notin> set fs))"
  using assms
proof (induction S u fs sd arbitrary: q res sd' rule: serve_reader.induct)
  case (2 S u s fs sd)
  show ?case
  proof (cases "simd_parse S s")
    case Inl
    with 2 show ?thesis by simp
  next
    case (Inr v)
    obtain q1 r1 sd1 where r: "serve_reader S u fs sd = (q1, r1, sd1)" by (metis prod.collapse)
    with 2 Inr show ?thesis by simp
  qed
qed auto

theorem leaving_user_stays_registered_witness:
  "serve_reader heads_codec 10 [ClientClose] two_users = ([], Inr (), two_users) \<and> 10 \<in> fst ` set (users two_users)"
proof -
  obtain q res sd' where r: "serve_reader heads_codec 10 [ClientClose] two_users = (q, res, sd')"
    by (metis prod.collapse)
  with leaving_user_stays_registered [OF r] show ?thesis by (auto simp: two_users_def)
qed

end
