(* ===== verification/SafeBlock.thy ===== *)
theory SafeBlock
  imports WsClient
begin

text \<open>
  \<open>src/src/health/safe_block.rs\<close>, \<open>src/src/health/error.rs\<close> and the loop of
  \<open>src/src/health/check.rs\<close>: the finalized block, asked of every endpoint after each health
  check, and the head of the chain, followed through a subscription that a user of the
  program itself holds. The order in which the tasks report, and what the tasks of other
  components do while the subscription is set up, are arguments.
\<close>

section \<open>Errors\<close>

datatype health_error =
    Unresponsive
  | TimedOut
  | GetSafeBlockError string
  | OutOfBounds
  | HealthInvalidResponse string

fun health_error_display :: "health_error \<Rightarrow> string" where
  "health_error_display Unresponsive = ''RPC is unresponsive''"
| "health_error_display TimedOut = ''Health check timed out!''"
| "health_error_display (GetSafeBlockError reason) = ''Could not get safe block: '' @ reason"
| "health_error_display OutOfBounds =
     ''Request out of bounds. Most likeley a bad response from the current RPC node.''"
| "health_error_display (HealthInvalidResponse reason) = ''Invalid RPC response: '' @ reason"

definition health_error_from_rpc :: "rpc_error \<Rightarrow> health_error" where
  "health_error_from_rpc e = GetSafeBlockError (rpc_error_display e)"

definition health_error_from_ws :: "ws_error \<Rightarrow> health_error" where
  "health_error_from_ws e = HealthInvalidResponse (ws_error_display e)"

section \<open>The finalized block\<close>

definition reported_finalized :: "serde \<Rightarrow> poster \<Rightarrow> (rpc \<Rightarrow> bool) \<Rightarrow> rpc \<Rightarrow> u64" where
  "reported_finalized S post timely r =
     (if timely r then case get_finalized_block S post r of Inr n \<Rightarrow> n | Inl _ \<Rightarrow> 0 else 0)"

text \<open>The watched value \<open>fin\<close> is written before the lock is taken, so it changes even where the lock
  is poisoned; the flag tells whether its readers are woken.\<close>

definition get_safe_block ::
  "serde \<Rightarrow> poster \<Rightarrow> (rpc \<Rightarrow> bool) \<Rightarrow> (u64 list \<Rightarrow> u64 list) \<Rightarrow> rpc list \<Rightarrow> u64 \<Rightarrow> named_blocknumbers rwlock \<Rightarrow>
     (u64 \<times> bool) \<times> (u64 \<times> named_blocknumbers rwlock) outcome" where
  "get_safe_block S post timely arrival rl fin named =
     (if rl = [] then ((fin, False), Ret (0, named))
      else
        let safe = foldl (\<lambda>s n. if s < n then n else s) 0 (arrival (map (reported_finalized S post timely) rl))
        in ((safe, fin \<noteq> safe),
            if poisoned named then Panic
            else Ret (safe, named\<lparr>contents := (contents named)\<lparr>finalized := safe\<rparr>\<rparr>)))"

text \<open>One turn of \<open>health_check\<close>: the check, then the finalized block of the list it left; \<open>None\<close>
  where the check waits for ever.\<close>

record health_world =
  list_network :: network
  poverty_network :: network
  block_post :: poster
  block_timely :: "rpc \<Rightarrow> bool"
  block_arrival :: "u64 list \<Rightarrow> u64 list"

record health_pools =
  pool_rpcs :: "rpc list"
  pool_poverty :: "rpc list"
  pool_update :: live_ready_update
  pool_finalized :: u64
  pool_named :: "named_blocknumbers rwlock"

definition health_check_turn ::
  "serde \<Rightarrow> health_world \<Rightarrow> u128 \<Rightarrow> health_pools \<Rightarrow> health_pools option outcome" where
  "health_check_turn S H limit p =
     (case check S (list_network H) (poverty_network H) limit (pool_rpcs p) (pool_poverty p) of
        None \<Rightarrow> Ret None
      | Some (upd, rl, pl) \<Rightarrow>
          (case get_safe_block S (block_post H) (block_timely H) (block_arrival H) rl (pool_finalized p) (pool_named p) of
             ((fin, woken), Panic) \<Rightarrow> Panic
           | ((fin, woken), Ret (n, named)) \<Rightarrow>
               Ret (Some \<lparr>pool_rpcs = rl, pool_poverty = pl, pool_update = upd, pool_finalized = fin, pool_named = named\<rparr>)))"

section \<open>The head of the chain\<close>

definition newheads_text :: "u32 \<Rightarrow> string" where
  "newheads_text u =
     ''{\"jsonrpc\":\"2.0\",\"method\":\"'' @ method_str eth_rpc_method.Subscribe @
     ''\",\"params\":[\"newHeads\"],\"id\":\"'' @ show_dec u @ ''\"}''"

text \<open>\<open>None\<close> where the call still waits for its answer.\<close>

definition send_newheads_sub_message :: "ws_surroundings \<Rightarrow> u32 \<Rightarrow> ws_io \<Rightarrow> ws_io \<times> unit option outcome" where
  "send_newheads_sub_message W u io =
     (case simd_parse (codec (side_of W)) (newheads_text u) of
        Inl _ \<Rightarrow> (io, Panic)
      | Inr call \<Rightarrow>
          (case execute_ws_call W u call io of
             (io1, Panic) \<Rightarrow> (io1, Panic)
           | (io1, Ret None) \<Rightarrow> (io1, Ret None)
           | (io1, Ret (Some (Inl _))) \<Rightarrow> (io1, Panic)
           | (io1, Ret (Some (Inr _))) \<Rightarrow>
               (io1\<lparr>io_subs := snd (subscribe_user (codec (side_of W)) u call (io_subs io1))\<rparr>, Ret (Some ()))))"

text \<open>The loop of \<open>subscribe_to_new_heads\<close>: a message, the end of the channel, or no message within
  the expected block time.\<close>

datatype head_event =
    HeadMessage request_result
  | HeadClosed
  | HeadTimeout bool "(recv_error + incoming_response) list"

record head_watch =
  hw_named :: "named_blocknumbers rwlock"
  hw_blocknum :: u64
  hw_subscription :: string
  hw_subs :: sub_data
  hw_sent :: "wsconn_message list"

text \<open>The result tells whether the loop goes on: \<open>None\<close> while a move of subscriptions waits.\<close>

definition new_head_step :: "serde \<Rightarrow> head_event \<Rightarrow> head_watch \<Rightarrow> head_watch \<times> unit option outcome" where
  "new_head_step S ev w =
     (case ev of
        HeadMessage (CallResult _) \<Rightarrow> (w, Ret (Some ()))
      | HeadMessage (SubscriptionResult sub) \<Rightarrow>
          (let params = jindex sub ''params'';
               broken = (w\<lparr>hw_named := (hw_named w)\<lparr>poisoned := True\<rparr>\<rparr>, Panic)
           in if poisoned (hw_named w) then (w, Panic)
              else
                case as_str (jindex (jindex params ''result'') ''number'') of
                  None \<Rightarrow> broken
                | Some s \<Rightarrow>
                    (case hex_to_decimal s of
                       Inl _ \<Rightarrow> broken
                     | Inr a \<Rightarrow>
                         (case as_str (jindex params ''subscription'') of
                            None \<Rightarrow> broken
                          | Some i \<Rightarrow>
                              (w\<lparr>hw_subscription := i, hw_blocknum := a,
                                 hw_named := (hw_named w)\<lparr>contents := (contents (hw_named w))\<lparr>latest := a\<rparr>\<rparr>\<rparr>,
                               Ret (Some ())))))
      | HeadClosed \<Rightarrow> (w, Panic)
      | HeadTimeout up evs \<Rightarrow>
          (let w1 = w\<lparr>hw_named := (hw_named w)\<lparr>contents := (contents (hw_named w))\<lparr>latest := 0\<rparr>\<rparr>\<rparr>
           in if \<not> up then (w1\<lparr>hw_named := (hw_named w1)\<lparr>poisoned := True\<rparr>\<rparr>, Panic)
              else
                let w2 = w1\<lparr>hw_sent := hw_sent w1 @ [Reconnect]\<rparr>
                in case get_node_from_id (hw_subscription w2) (hw_subs w2) of
                     None \<Rightarrow> (w2, Ret (Some ()))
                   | Some n \<Rightarrow>
                       (case move_subscriptions S n evs (hw_subs w2) of
                          (ms, res, sd) \<Rightarrow>
                            (w2\<lparr>hw_sent := hw_sent w2 @ ms, hw_subs := sd\<rparr>, Ret (map_option (\<lambda>_. ()) res)))))"

text \<open>The task from its start: the user of the program is added, the subscription is asked for, and
  the loop runs on what comes. The second component is \<open>None\<close> while the task waits for an answer.\<close>

fun new_head_loop :: "serde \<Rightarrow> head_event list \<Rightarrow> head_watch \<Rightarrow> head_watch \<times> unit option outcome" where
  "new_head_loop S [] w = (w, Ret (Some ()))"
| "new_head_loop S (ev # evs) w =
     (case new_head_step S ev w of
        (w1, Ret (Some _)) \<Rightarrow> new_head_loop S evs w1
      | (w1, r) \<Rightarrow> (w1, r))"

definition subscribe_to_new_heads ::
  "ws_surroundings \<Rightarrow> channel \<Rightarrow> head_event list \<Rightarrow> u64 \<Rightarrow> ws_io \<Rightarrow> head_watch \<times> unit option outcome" where
  "subscribe_to_new_heads W ch evs blocknum io =
     (let u = WS_HEALTH_CHECK_USER_ID
      in case send_newheads_sub_message W u (io\<lparr>io_subs := add_user u ch (io_subs io)\<rparr>) of
           (io1, r) \<Rightarrow>
             (let w = \<lparr>hw_named = named_now (side_of W), hw_blocknum = blocknum, hw_subscription = [],
                       hw_subs = io_subs io1, hw_sent = io_calls io1\<rparr>
              in case r of
                   Ret (Some _) \<Rightarrow> new_head_loop (codec (side_of W)) evs w
                 | _ \<Rightarrow> (w, r)))"

section \<open>The finalized block is the highest reported\<close>

lemma max_fold: "foldl (\<lambda>s n. if s < n then n else s) a xs = Max (insert a (set xs))" for a :: u64
proof (induction xs arbitrary: a)
  case (Cons x xs)
  have "(if a < x then x else a) = max a x" by (auto simp: max_def)
  with Cons show ?case by (cases "xs = []") (simp_all add: max.assoc)
qed simp

text \<open>C31. After a health check the finalized block is the highest block any endpoint of the active
  list reports in time, in whatever order the reports come in; readers of the watched number
  are woken exactly when it changes. An endpoint that fails or is late counts as block 0, and
  the number is not kept: when no endpoint answers, a known finalized block is forgotten.\<close>

theorem safe_block_is_the_highest:
  assumes "mset (arrival (map (reported_finalized S post timely) rl)) = mset (map (reported_finalized S post timely) rl)"
    and "rl \<noteq> []" "\<not> poisoned named"
  shows "\<exists>b. get_safe_block S post timely arrival rl fin named =
             ((b, fin \<noteq> b), Ret (b, named\<lparr>contents := (contents named)\<lparr>finalized := b\<rparr>\<rparr>)) \<and>
           (\<forall>r\<in>set rl. reported_finalized S post timely r \<le> b) \<and>
           (b = 0 \<or> (\<exists>r\<in>set rl. timely r \<and> get_finalized_block S post r = Inr b)) \<and>
           ((\<forall>r\<in>set rl. \<not> timely r) \<longrightarrow> b = 0)"
proof -
  let ?f = "reported_finalized S post timely"
  let ?b = "Max (insert 0 (?f ` set rl))"
  from assms(1) have s: "set (arrival (map ?f rl)) = ?f ` set rl"
    by (metis list.set_map set_mset_mset)
  have "get_safe_block S post timely arrival rl fin named =
      ((?b, fin \<noteq> ?b), Ret (?b, named\<lparr>contents := (contents named)\<lparr>finalized := ?b\<rparr>\<rparr>))"
    using assms(2,3) by (simp add: get_safe_block_def max_fold s Let_def)
  moreover have "?f r \<le> ?b" if "r \<in> set rl" for r using that by simp
  moreover have b: "?b = 0 \<or> (\<exists>r\<in>set rl. timely r \<and> get_finalized_block S post r = Inr ?b)"
  proof (cases "?b = 0")
    case False
    have "?b \<in> insert 0 (?f ` set rl)" by (rule Max_in) auto
    with False obtain r where r: "r \<in> set rl" "?b = ?f r" by blast
    with False have "timely r \<and> get_finalized_block S post r = Inr ?b"
      by (auto simp: reported_finalized_def split: if_splits sum.splits)
    with r(1) show ?thesis by blast
  qed simp
  moreover have "(\<forall>r\<in>set rl. \<not> timely r) \<longrightarrow> ?b = 0" using b by blast
  ultimately show ?thesis by blast
qed

section \<open>New heads\<close>

lemma hex_text_decimal: "hex_to_decimal (hex_text n) = Inr n"
proof -
  have "remove_char (CHR 0x22) (''0x'' @ show_hex n) = ''0x'' @ show_hex n"
    using remove_quotes_hex [of n] by (simp add: remove_char_def)
  then show ?thesis
    using from_str_radix_to_digits [of 16 n]
    by (simp only: hex_text_def hex_to_decimal_def Let_def trim_hex_prefix) (simp add: show_hex_def)
qed

definition head_number :: "json \<Rightarrow> json" where
  "head_number sub = jindex (jindex (jindex sub ''params'') ''result'') ''number''"

lemma new_head_effect:
  assumes "head_number sub = JStr (hex_text a)" "jindex (jindex sub ''params'') ''subscription'' = JStr i"
    and "\<not> poisoned (hw_named w)"
  shows "new_head_step S (HeadMessage (SubscriptionResult sub)) w =
    (w\<lparr>hw_subscription := i, hw_blocknum := a,
       hw_named := (hw_named w)\<lparr>contents := (contents (hw_named w))\<lparr>latest := a\<rparr>\<rparr>\<rparr>, Ret (Some ()))"
  using assms by (simp add: new_head_step_def head_number_def hex_text_decimal Let_def)

text \<open>C22. Requests follow the head: after the notification of block \<open>a\<close> that number is what the
  cache manager sees, and a request for the latest block is rewritten, in that parameter only,
  to \<open>a\<close> in hexadecimal and read as a request about block \<open>a\<close>.\<close>

theorem requests_follow_the_head:
  assumes "head_number sub = JStr (hex_text a)" "jindex (jindex sub ''params'') ''subscription'' = JStr i"
    and "\<not> poisoned (hw_named w)" "a \<noteq> 0"
    and "quotes_plain S" "block_param tx ps j" "ps ! j = JStr ''latest''"
    and "new_head_step S' (HeadMessage (SubscriptionResult sub)) w = (w', r)"
  shows "r = Ret (Some ()) \<and> hw_blocknum w' = a \<and> hw_subs w' = hw_subs w \<and>
         (\<exists>tx'. replace_block_tags S tx (hw_named w') = Ret tx' \<and>
            jindex tx' ''params'' = JArr (ps[j := JStr (hex_text a)]) \<and>
            get_block_number_from_request S tx' (hw_named w') = Ret (Some a))"
proof -
  from assms(8) new_head_effect [OF assms(1-3)] have w': "r = Ret (Some ())" "hw_blocknum w' = a" "hw_subs w' = hw_subs w"
    "latest (contents (hw_named w')) = a" by auto
  then show ?thesis
    using resolve_tag [OF assms(5,6), of Latest a "hw_named w'" "hw_named w'"] assms(4,7) by auto
qed

text \<open>C32. No head within the expected time: the known head is dropped, so that requests for the
  latest block are passed on with their tag instead of being answered for an old block, and
  the connections are opened anew before anything else is sent; the subscriptions of the
  node that went silent are then asked for again.\<close>

theorem silence_disables_latest:
  assumes "new_head_step S (HeadTimeout True evs) w = (w', r)"
    and "quotes_plain S" "block_param tx ps j" "ps ! j = JStr ''latest''"
  shows "latest (contents (hw_named w')) = 0 \<and> replace_block_tags S tx (hw_named w') = Ret tx \<and>
         r \<noteq> Panic \<and>
         (\<exists>ms. hw_sent w' = hw_sent w @ Reconnect # ms \<and>
            (\<forall>n. get_node_from_id (hw_subscription w) (hw_subs w) = Some n \<longrightarrow>
               ms = unsubscribe_messages n (hw_subs w) @ subscribe_messages S n (hw_subs w)))"
proof -
  have w': "latest (contents (hw_named w')) = 0 \<and> r \<noteq> Panic \<and> (\<exists>ms. hw_sent w' = hw_sent w @ Reconnect # ms \<and>
            (\<forall>n. get_node_from_id (hw_subscription w) (hw_subs w) = Some n \<longrightarrow>
               ms = unsubscribe_messages n (hw_subs w) @ subscribe_messages S n (hw_subs w)))"
  proof (cases "get_node_from_id (hw_subscription w) (hw_subs w)")
    case None
    with assms(1) show ?thesis by (auto simp: new_head_step_def Let_def)
  next
    case (Some n)
    with assms(1) show ?thesis
      by (auto simp: new_head_step_def move_subscriptions_def Let_def split: prod.splits)
  qed
  then show ?thesis using unknown_latest [OF assms(2,3)] assms(4) by auto
qed

text \<open>C33. One malformed head stops the health checks for good: a notification whose number is not a
  string panics the task with the block numbers locked for writing; from then on every health
  check that leaves an endpoint in the list panics when it writes the finalized block.\<close>

theorem malformed_head_stops_health_checks:
  assumes "as_str (head_number sub) = None"
    and "new_head_step S' (HeadMessage (SubscriptionResult sub)) w = (w', r)"
    and "pool_named p = hw_named w'"
    and "check S (list_network H) (poverty_network H) limit (pool_rpcs p) (pool_poverty p) = Some (upd, rl, pl)" "rl \<noteq> []"
  shows "r = Panic \<and> poisoned (hw_named w') \<and> health_check_turn S H limit p = Panic"
proof -
  have w': "r = Panic" "poisoned (hw_named w')"
    using assms(1,2) by (auto simp: new_head_step_def head_number_def Let_def split: if_splits)
  from assms(5) have "\<exists>f. get_safe_block S (block_post H) (block_timely H) (block_arrival H) rl (pool_finalized p) (pool_named p) = (f, Panic)"
    using w'(2) assms(3) by (simp add: get_safe_block_def Let_def)
  with w' assms(4) show ?thesis by (auto simp: health_check_turn_def)
qed

section \<open>Concrete heads\<close>

definition head_sub :: "json \<Rightarrow> json" where
  "head_sub n =
     JObj [(''method'', JStr ''eth_subscription''),
           (''params'', JObj [(''result'', JObj [(''number'', n)]), (''subscription'', JStr ''0xa'')])]"

definition watch0 :: head_watch where
  "watch0 =
     \<lparr>hw_named = named_at 25, hw_blocknum = 25, hw_subscription = ''0xa'', hw_subs = two_users, hw_sent = []\<rparr>"

lemma head_sub_fields:
  "head_number (head_sub n) = n" "jindex (jindex (head_sub n) ''params'') ''subscription'' = JStr ''0xa''"
  by (simp_all add: head_number_def head_sub_def jindex_def)

lemma watch0_lock [simp]: "\<not> poisoned (hw_named watch0)"
  by (simp add: watch0_def named_at_def new_lock_def)

theorem requests_follow_the_head_witness:
  "\<exists>w' r tx'. new_head_step (sample_serde []) (HeadMessage (SubscriptionResult (head_sub (JStr (hex_text 26))))) watch0 = (w', r) \<and>
     replace_block_tags (sample_serde []) (balance_request (JStr ''latest'')) (hw_named w') = Ret tx' \<and>
     get_block_number_from_request (sample_serde []) tx' (hw_named w') = Ret (Some 26)"
proof -
  obtain w' r where s: "new_head_step (sample_serde []) (HeadMessage (SubscriptionResult (head_sub (JStr (hex_text 26))))) watch0 = (w', r)"
    by (metis prod.collapse)
  with requests_follow_the_head [OF head_sub_fields watch0_lock _ sample_quotes [of "[]"] balance_block_param _ s] show ?thesis
    by auto
qed

theorem silence_disables_latest_witness:
  "\<exists>w' r. new_head_step heads_codec (HeadTimeout True []) watch0 = (w', r) \<and>
     latest (contents (hw_named w')) = 0"
proof -
  obtain w' r where s: "new_head_step heads_codec (HeadTimeout True []) watch0 = (w', r)" by (metis prod.collapse)
  have "quotes_plain heads_codec" by (simp add: quotes_plain_def heads_codec_def)
  from silence_disables_latest [OF s this balance_block_param, of "JStr ''latest''"] s show ?thesis by auto
qed

lemma probe_at_16: "probe round_codec round_post (\<lambda>r. rpc_id r = 1) (demo_rpc 1 7 2) =
    \<lparr>hr_id = 1, hr_syncing = False, hr_head = 16\<rparr>"
proof -
  have "''0x10'' = hex_text 16" by code_simp
  then have "hex_to_decimal ''0x10'' = Inr 16" by (simp only: hex_text_decimal)
  then show ?thesis
    by (simp add: probe_def block_number_def rpc_syncing_def send_request_def round_post_def health_request_def
        obj_of_def extract_number_def extract_sync_def round_codec_def sample_serde_def jindex_def demo_rpc_def
        method_serialize_def)
qed

definition healthy_world :: health_world where
  "healthy_world =
     \<lparr>list_network = round_net, poverty_network = round_net, block_post = round_post,
      block_timely = (\<lambda>r. True), block_arrival = rev\<rparr>"

lemma healthy_round:
  "\<exists>upd rl pl. check round_codec round_net round_net 100 [demo_rpc 1 7 2] [] = Some (upd, rl, pl) \<and> rl \<noteq> []"
proof -
  have "\<not> is_erroring (status (demo_rpc 1 7 2))" by (simp add: demo_rpc_def status_default_def)
  then show ?thesis
    by (simp add: check_def head_check_def make_poverty_def escape_poverty_def highest_head_def behind_def
        round_net_def probe_at_16 Let_def)
qed

theorem malformed_head_stops_health_checks_witness:
  "\<exists>w'. new_head_step round_codec (HeadMessage (SubscriptionResult (head_sub JNull))) watch0 = (w', Panic) \<and>
     health_check_turn round_codec healthy_world 100
       \<lparr>pool_rpcs = [demo_rpc 1 7 2], pool_poverty = [], pool_update = HealthUpd Healthy,
        pool_finalized = 0, pool_named = hw_named w'\<rparr> = Panic"
proof -
  obtain w' r where s: "new_head_step round_codec (HeadMessage (SubscriptionResult (head_sub JNull))) watch0 = (w', r)"
    by (metis prod.collapse)
  let ?p = "\<lparr>pool_rpcs = [demo_rpc 1 7 2], pool_poverty = [], pool_update = HealthUpd Healthy,
        pool_finalized = 0, pool_named = hw_named w'\<rparr>"
  from healthy_round obtain upd rl pl where
    "check round_codec (list_network healthy_world) (poverty_network healthy_world) 100 (pool_rpcs ?p) (pool_poverty ?p) =
       Some (upd, rl, pl)" "rl \<noteq> []"
    by (auto simp: healthy_world_def)
  from malformed_head_stops_health_checks [OF _ s _ this, simplified] s show ?thesis
    by (auto simp: head_sub_fields)
qed

theorem safe_block_is_the_highest_witness:
  "\<exists>b. get_safe_block round_codec round_post (\<lambda>r. rpc_id r = 1) rev [demo_rpc 1 7 2] 5 (named_at 25) =
     ((b, 5 \<noteq> b), Ret (b, (named_at 25)\<lparr>contents := (contents (named_at 25))\<lparr>finalized := b\<rparr>\<rparr>))"
  using safe_block_is_the_highest [of rev round_codec round_post "\<lambda>r. rpc_id r = 1" "[demo_rpc 1 7 2]" "named_at 25" 5]
  by (auto simp: named_at_def new_lock_def)

end
