(* ===== verification/StartUp.thy ===== *)
theory StartUp
  imports Config SafeBlock
begin

text \<open>
  \<open>src/src/config/setup.rs\<close>, \<open>src/src/config/cache_setup.rs\<close> and the start of
  \<open>src/src/main.rs\<close>: the endpoints are measured and sorted if the settings ask for it, the
  database gets its first entries, and the tasks are spawned. The answers of the endpoints,
  the measured times and the order in which the measuring tasks report are arguments.
\<close>

section \<open>Sorting by latency\<close>

datatype starting_latency_resp = StartOk rpc | StartError rpc config_error | StartDied

text \<open>The calls of one task: \<open>post k\<close> is the network at its call \<open>k\<close>.\<close>

fun sync_calls :: "serde \<Rightarrow> (nat \<Rightarrow> poster) \<Rightarrow> rpc \<Rightarrow> nat \<Rightarrow> nat \<Rightarrow> config_error option" where
  "sync_calls S post r k 0 = None"
| "sync_calls S post r k (Suc n) =
     (case rpc_syncing S (post k) r of
        Inr False \<Rightarrow> sync_calls S post r (Suc k) n
      | Inr True \<Rightarrow> Some Syncing
      | Inl e \<Rightarrow> Some (ConfigRpcError e))"

text \<open>A panic of \<open>update_latency\<close> ends the task, which then reports nothing.\<close>

definition set_starting_latency ::
  "serde \<Rightarrow> (nat \<Rightarrow> poster) \<Rightarrow> (nat \<Rightarrow> nat) \<Rightarrow> f64 \<Rightarrow> rpc \<Rightarrow> starting_latency_resp" where
  "set_starting_latency S post nanos ma r =
     (let n = unat (f64_to_uint ma :: u32)
      in case sync_calls S post r 0 n of
           Some e \<Rightarrow> StartError r e
         | None \<Rightarrow>
             (let latencies = map (\<lambda>k. f64_of_nat (nanos k)) [0..<n];
                  avg = f64_div (f64_sum latencies) (f64_of_nat n)
              in case update_latency avg r of Ret r' \<Rightarrow> StartOk r' | Panic \<Rightarrow> StartDied))"

fun started :: "starting_latency_resp list \<Rightarrow> rpc list" where
  "started [] = []"
| "started (StartOk r # rs) = r # started rs"
| "started (_ # rs) = started rs"

fun failed_start :: "starting_latency_resp list \<Rightarrow> rpc list" where
  "failed_start [] = []"
| "failed_start (StartError r e # rs) = set_erroring True r # failed_start rs"
| "failed_start (_ # rs) = failed_start rs"

text \<open>\<open>sort_by(|a, b| a.partial_cmp(b).unwrap())\<close>: stable, and it panics when it compares \<open>NaN\<close>.\<close>

definition lat :: "rpc \<Rightarrow> f64" where
  "lat r = latency (status r)"

fun insert_by_latency :: "rpc \<Rightarrow> rpc list \<Rightarrow> rpc list" where
  "insert_by_latency r [] = [r]"
| "insert_by_latency r (q # qs) =
     (if f64_le (lat r) (lat q) then r # q # qs else q # insert_by_latency r qs)"

definition sort_latency :: "rpc list \<Rightarrow> rpc list outcome" where
  "sort_latency rs =
     (if 2 \<le> length rs \<and> list_ex (\<lambda>r. lat r = NaN) rs then Panic
      else Ret (foldr insert_by_latency rs []))"

definition sort_by_latency ::
  "serde \<Rightarrow> (rpc \<Rightarrow> nat \<Rightarrow> poster) \<Rightarrow> (rpc \<Rightarrow> nat \<Rightarrow> nat) \<Rightarrow>
     (starting_latency_resp list \<Rightarrow> starting_latency_resp list) \<Rightarrow> f64 \<Rightarrow> rpc list \<Rightarrow>
     (rpc list \<times> rpc list) outcome" where
  "sort_by_latency S post nanos arrival ma rl =
     (if rl = [] then Ret ([], [])
      else
        let resps = arrival (map (\<lambda>r. set_starting_latency S (post r) (nanos r) ma r) rl)
        in obind (sort_latency (started resps)) (\<lambda>sorted. Ret (sorted, failed_start resps)))"

definition sort_on_startup ::
  "serde \<Rightarrow> (rpc \<Rightarrow> nat \<Rightarrow> poster) \<Rightarrow> (rpc \<Rightarrow> nat \<Rightarrow> nat) \<Rightarrow>
     (starting_latency_resp list \<Rightarrow> starting_latency_resp list) \<Rightarrow> settings \<Rightarrow> settings outcome" where
  "sort_on_startup S post nanos arrival s =
     obind (sort_by_latency S post nanos arrival (set_ma_length s) (set_rpc_list s))
       (\<lambda>(rl, pl). Ret (s\<lparr>set_rpc_list := rl, set_poverty_list := pl\<rparr>))"

text \<open>\<open>main\<close>, between the parsing of the settings and the opening of the database.\<close>

definition start_settings ::
  "serde \<Rightarrow> (rpc \<Rightarrow> nat \<Rightarrow> poster) \<Rightarrow> (rpc \<Rightarrow> nat \<Rightarrow> nat) \<Rightarrow>
     (starting_latency_resp list \<Rightarrow> starting_latency_resp list) \<Rightarrow> settings \<Rightarrow> settings outcome" where
  "start_settings S post nanos arrival s =
     (if set_sort_on_startup s then sort_on_startup S post nanos arrival s else Ret s)"

section \<open>The first entries of the database\<close>

definition VERSION_STR :: string where "VERSION_STR = ''0.4.0 Arianrhod''"
definition TAGLINE :: string where "TAGLINE = ''`I won'' @ [CHR 0x27] @ ''t run`''"

definition version_json :: string where
  "version_json =
     ''{\"jsonrpc\":\"2.0\",\"id\":1,\"result\":\"Blutgang '' @ VERSION_STR @ ''; '' @ TAGLINE @ ''\"}''"

definition is_lb_key :: string where
  "is_lb_key = map char_of ([176, 76, 1, 109, 13, 127, 134, 25, 55, 111, 28, 182, 82, 155, 135, 143,
      204, 161, 53, 4, 158, 140, 22, 219, 138, 5, 57, 150, 8, 154, 17, 252] :: nat list)"

definition client_version_key :: string where
  "client_version_key = map char_of ([36, 20, 170, 125, 105, 107, 149, 148, 52, 126, 215, 218, 112, 55, 222, 60,
      186, 44, 67, 121, 225, 160, 31, 209, 9, 99, 81, 233, 137, 37, 62, 79] :: nat list)"

text \<open>Write errors are ignored; a failing \<open>clear\<close> or \<open>read\<close> panics. The last component tells whether
  the entry of an older build was found, which is only logged.\<close>

definition setup_data :: "('db, 'e) database \<Rightarrow> bool \<Rightarrow> 'db \<Rightarrow> ('db \<times> bool) outcome" where
  "setup_data D do_clear s =
     obind (if do_clear then (case db_clear D s of (Inl _, s') \<Rightarrow> Panic | (Inr _, s') \<Rightarrow> Ret s') else Ret s)
       (\<lambda>s0.
          (let s1 = snd (db_write D s0 is_lb_key version_json);
               s2 = snd (db_write D s1 client_version_key version_json);
               s3 = snd (db_write D s2 ''blake3'' ''true'')
           in case db_read D s3 ''xxhash'' of
                Inl _ \<Rightarrow> Panic
              | Inr found \<Rightarrow> Ret (s3, found \<noteq> None)))"

section \<open>The tasks\<close>

datatype task =
    DatabaseTask
  | AdminTask
  | LivenessSink
  | HeadCacheTask
  | HealthCheckTask
  | DispatcherTask
  | ConnectionManagerTask
  | DroppedListenerTask
  | NewHeadsTask

record 'db program =
  prog_rpcs :: "rpc list rwlock"
  prog_poverty :: "rpc list rwlock"
  prog_head :: "head_cache rwlock"
  prog_named :: "named_blocknumbers rwlock"
  prog_blocknum :: u64
  prog_finalized :: u64
  prog_subs :: sub_data
  prog_db :: 'db
  prog_tasks :: "task list"
  prog_updates :: "live_ready_update list"

text \<open>What \<open>run\<close> has set up when it starts to accept connections; \<open>bound\<close> tells whether the
  address could be bound, without which it returns an error.\<close>

definition run_start :: "('db, 'e) database \<Rightarrow> bool \<Rightarrow> 'db \<Rightarrow> settings \<Rightarrow> 'db program option outcome" where
  "run_start D bound s c =
     obind (setup_data D (set_do_clear c) s)
       (\<lambda>(s', old).
          Ret (if \<not> bound then None
               else Some
                 \<lparr>prog_rpcs = new_lock (set_rpc_list c), prog_poverty = new_lock (set_poverty_list c),
                  prog_head = new_lock [], prog_named = named_at 0, prog_blocknum = 0, prog_finalized = 0,
                  prog_subs = sub_data_new, prog_db = s',
                  prog_tasks =
                    [DatabaseTask] @
                    (if admin_enabled (set_admin c) then [AdminTask] else [LivenessSink]) @
                    [HeadCacheTask] @
                    (if set_health_check c then [HealthCheckTask] else []) @
                    (if set_is_ws c
                     then [DispatcherTask, ConnectionManagerTask] @
                          (if set_health_check c then [DroppedListenerTask, NewHeadsTask] else [])
                     else []),
                  prog_updates = [ReadinessUpd Ready]\<rparr>))"

section \<open>The lists after sorting\<close>

lemma insert_by_latency_mset: "mset (insert_by_latency r rs) = add_mset r (mset rs)"
  by (induction rs) auto

lemma insert_by_latency_sorted:
  assumes "lat r \<noteq> NaN" "\<forall>q\<in>set rs. lat q \<noteq> NaN"
    and "sorted_wrt (\<lambda>a b. f64_le (lat a) (lat b)) rs"
  shows "sorted_wrt (\<lambda>a b. f64_le (lat a) (lat b)) (insert_by_latency r rs)"
  using assms(2,3)
proof (induction rs)
  case (Cons q qs)
  have mem: "set (insert_by_latency r qs) = insert r (set qs)"
    by (metis insert_by_latency_mset set_mset_add_mset_insert set_mset_mset)
  show ?case
  proof (cases "f64_le (lat r) (lat q)")
    case True
    with Cons.prems show ?thesis by (auto intro: f64_le_trans)
  next
    case False
    with assms(1) Cons.prems have "f64_le (lat q) (lat r)" using f64_le_total by auto
    with False Cons mem show ?thesis by auto
  qed
qed simp

lemma sort_latency_Ret:
  assumes "sort_latency rs = Ret rs'"
  shows "mset rs' = mset rs \<and> sorted_wrt (\<lambda>a b. f64_le (lat a) (lat b)) rs'"
proof -
  have rs': "rs' = foldr insert_by_latency rs []" and nan: "\<not> (2 \<le> length rs \<and> list_ex (\<lambda>r. lat r = NaN) rs)"
    using assms by (auto simp: sort_latency_def split: if_splits)
  have m: "mset (foldr insert_by_latency xs []) = mset xs" for xs
    by (induction xs) (simp_all add: insert_by_latency_mset)
  have s: "sorted_wrt (\<lambda>a b. f64_le (lat a) (lat b)) (foldr insert_by_latency xs [])" if "\<forall>q\<in>set xs. lat q \<noteq> NaN" for xs
    using that
  proof (induction xs)
    case (Cons x xs)
    have "set (foldr insert_by_latency xs []) = set xs" by (metis m set_mset_mset)
    with Cons show ?case by (auto intro!: insert_by_latency_sorted)
  qed simp
  show ?thesis
  proof (cases "2 \<le> length rs")
    case True
    with nan have "\<forall>q\<in>set rs. lat q \<noteq> NaN" by (auto simp: list_ex_iff)
    with s m rs' show ?thesis by blast
  next
    case False
    then have "length rs = 0 \<or> length rs = 1" by linarith
    then obtain x where "rs = [] \<or> rs = [x]" by (auto simp: length_Suc_conv)
    with rs' show ?thesis by auto
  qed
qed

lemma started_set:
  "r \<in> set (started rs) \<longleftrightarrow> StartOk r \<in> set rs"
  "q \<in> set (failed_start rs) \<longleftrightarrow> (\<exists>r e. StartError r e \<in> set rs \<and> q = set_erroring True r)"
  by (induction rs rule: started.induct; auto)+

fun resp_ids :: "starting_latency_resp \<Rightarrow> usize list" where
  "resp_ids (StartOk r) = [rpc_id r]"
| "resp_ids (StartError r e) = [rpc_id r]"
| "resp_ids StartDied = []"

lemma reported_ids:
  "mset (map rpc_id (started rs)) + mset (map rpc_id (failed_start rs)) = mset (concat (map resp_ids rs))"
  by (induction rs rule: started.induct) (auto simp: set_erroring_simps)

lemma starting_cases:
  "(\<exists>r'. set_starting_latency S post nanos ma r = StartOk r' \<and> (\<exists>x. update_latency x r = Ret r')) \<or>
   (\<exists>e. set_starting_latency S post nanos ma r = StartError r e) \<or>
   (set_starting_latency S post nanos ma r = StartDied \<and> window r = 0 \<and> latency_data (status r) = [])"
  by (auto simp: set_starting_latency_def Let_def update_latency_panic split: option.split outcome.split)

lemma starting_reported:
  "resp_ids (set_starting_latency S post nanos ma r) = [] \<or> resp_ids (set_starting_latency S post nanos ma r) = [rpc_id r]"
  "0 < window r \<Longrightarrow> resp_ids (set_starting_latency S post nanos ma r) = [rpc_id r]"
  using starting_cases [of S post nanos ma r] update_latency_ids(1) by fastforce+

lemma reported_mset:
  "mset (concat (map (\<lambda>r. resp_ids (f r)) rl)) \<subseteq># mset (map rpc_id rl)"
  if "\<And>r. resp_ids (f r) = [] \<or> resp_ids (f r) = [rpc_id r]"
proof (induction rl)
  case (Cons r rl)
  with that [of r] show ?case by (auto simp: subseteq_mset_def intro: le_SucI)
qed simp

lemma concat_mset:
  assumes "mset xs = mset ys"
  shows "mset (concat (map g xs)) = mset (concat (map g ys))"
proof -
  have "mset (concat (map g zs)) = sum_mset (image_mset (\<lambda>z. mset (g z)) (mset zs))" for zs
    by (induction zs) simp_all
  with assms show ?thesis by simp
qed

lemma distinct_subset_mset:
  assumes "mset xs \<subseteq># mset ys" "distinct ys"
  shows "distinct xs"
  unfolding distinct_count_atmost_1
proof
  fix a
  have "count (mset xs) a \<le> count (mset ys) a" using assms(1) by (rule mset_subset_eq_count)
  also have "\<dots> \<le> 1" using assms(2) by (simp add: distinct_count_atmost_1)
  finally have le: "count (mset xs) a \<le> 1" .
  show "count (mset xs) a = (if a \<in> set xs then 1 else 0)"
  proof (cases "a \<in> set xs")
    case True
    then have "count (mset xs) a \<noteq> 0" by (metis count_eq_zero_iff set_mset_mset)
    with le have "count (mset xs) a = 1" by linarith
    with True show ?thesis by (simp only: if_True)
  next
    case False
    then show ?thesis by (metis count_eq_zero_iff set_mset_mset)
  qed
qed

lemma sort_by_latency_result:
  assumes "sort_by_latency S post nanos arrival ma rl = Ret (rl', pl')" "rl \<noteq> []"
    and "\<And>xs. mset (arrival xs) = mset xs"
  defines "resps \<equiv> map (\<lambda>r. set_starting_latency S (post r) (nanos r) ma r) rl"
  shows "mset rl' = mset (started (arrival resps))" "pl' = failed_start (arrival resps)"
    "sorted_wrt (\<lambda>a b. f64_le (lat a) (lat b)) rl'" "set (arrival resps) = set resps"
    "mset (map rpc_id rl') + mset (map rpc_id pl') = mset (concat (map resp_ids resps))"
proof -
  from assms(1,2) have s: "sort_latency (started (arrival resps)) = Ret rl'" and pl: "pl' = failed_start (arrival resps)"
    by (auto simp: sort_by_latency_def resps_def Let_def obind_Ret_iff)
  from sort_latency_Ret [OF s] show m: "mset rl' = mset (started (arrival resps))"
    and "sorted_wrt (\<lambda>a b. f64_le (lat a) (lat b)) rl'" by auto
  show "pl' = failed_start (arrival resps)" by (rule pl)
  show "set (arrival resps) = set resps" by (metis assms(3) set_mset_mset)
  have "mset (map rpc_id rl') = mset (map rpc_id (started (arrival resps)))" using m by simp
  moreover have "mset (concat (map resp_ids (arrival resps))) = mset (concat (map resp_ids resps))"
    by (rule concat_mset [OF assms(3)])
  ultimately show "mset (map rpc_id rl') + mset (map rpc_id pl') = mset (concat (map resp_ids resps))"
    using reported_ids [of "arrival resps"] pl by simp
qed

lemma sort_on_startup_facts:
  assumes "sort_on_startup S post nanos arrival s = Ret s'"
    and "pool_ok (set_rpc_list s) []" "set_rpc_list s \<noteq> []" "\<And>xs. mset (arrival xs) = mset xs"
  shows "pool_ok (set_rpc_list s') (set_poverty_list s') \<and>
         sorted_wrt (\<lambda>a b. f64_le (latency (status a)) (latency (status b))) (set_rpc_list s') \<and>
         ids (set_rpc_list s') \<union> ids (set_poverty_list s') \<subseteq> ids (set_rpc_list s) \<and>
         ((\<forall>r\<in>set (set_rpc_list s). 0 < window r) \<longrightarrow>
            ids (set_rpc_list s') \<union> ids (set_poverty_list s') = ids (set_rpc_list s))"
proof -
  let ?rl = "set_rpc_list s" and ?rl' = "set_rpc_list s'" and ?pl' = "set_poverty_list s'"
  let ?f = "\<lambda>r. set_starting_latency S (post r) (nanos r) (set_ma_length s) r"
  from assms(1) have "sort_by_latency S post nanos arrival (set_ma_length s) ?rl = Ret (?rl', ?pl')"
    by (auto simp: sort_on_startup_def obind_Ret_iff)
  note R = sort_by_latency_result [OF this assms(3,4)]
  have cat: "mset (concat (map resp_ids (map ?f ?rl))) = mset (concat (map (\<lambda>r. resp_ids (?f r)) ?rl))"
    by (simp add: comp_def)
  have sub: "mset (map rpc_id ?rl') + mset (map rpc_id ?pl') \<subseteq># mset (map rpc_id ?rl)"
    unfolding R(5) cat by (rule reported_mset) (rule starting_reported(1))
  have dist: "distinct (map rpc_id ?rl' @ map rpc_id ?pl')"
  proof (rule distinct_subset_mset)
    show "mset (map rpc_id ?rl' @ map rpc_id ?pl') \<subseteq># mset (map rpc_id ?rl)" using sub by simp
    show "distinct (map rpc_id ?rl)" using assms(2) by (simp add: pool_ok_def)
  qed
  have "ids ?rl' \<union> ids ?pl' \<subseteq> ids ?rl"
    using set_mset_mono [OF sub] by auto
  moreover have "ids ?rl' \<union> ids ?pl' = ids ?rl" if w: "\<forall>r\<in>set ?rl. 0 < window r"
  proof -
    have "map (\<lambda>r. resp_ids (?f r)) ?rl = map (\<lambda>r. [rpc_id r]) ?rl"
      using w starting_reported(2) by (intro map_cong) auto
    then have "mset (map rpc_id ?rl') + mset (map rpc_id ?pl') = mset (map rpc_id ?rl)"
      unfolding R(5) cat by (simp only: concat_map_singleton)
    then have "set_mset (mset (map rpc_id ?rl') + mset (map rpc_id ?pl')) = set_mset (mset (map rpc_id ?rl))"
      by (rule arg_cong)
    then show ?thesis by simp
  qed
  moreover have "\<not> is_erroring (status r)" if "r \<in> set ?rl'" for r
  proof -
    have "r \<in> set (started (arrival (map ?f ?rl)))"
      using that mset_eq_setD [OF R(1)] by simp
    then have "StartOk r \<in> set (map ?f ?rl)"
      unfolding started_set(1) R(4) .
    then obtain q where q: "q \<in> set ?rl" "?f q = StartOk r" by auto
    then obtain x where "update_latency x q = Ret r"
      using starting_cases [of S "post q" "nanos q" "set_ma_length s" q] by auto
    with q(1) assms(2) show ?thesis by (simp add: update_latency_ids(2) pool_ok_def)
  qed
  moreover have "is_erroring (status r)" if "r \<in> set ?pl'" for r
    using that R(2) started_set(2) by (auto simp: set_erroring_simps)
  ultimately show ?thesis
    using dist R(3) by (auto simp: pool_ok_def lat_def)
qed


section \<open>The endpoints of the settings\<close>

definition fresh :: "usize \<Rightarrow> rpc list \<Rightarrow> bool" where
  "fresh start rs \<longleftrightarrow>
     map rpc_id rs = map (\<lambda>k. start + of_nat k) [0..<length rs] \<and> (\<forall>r\<in>set rs. \<not> is_erroring (status r))"

lemma fresh_Nil [simp]: "fresh start []"
  by (simp add: fresh_def)

lemma fresh_Cons:
  "rpc_id r = start \<Longrightarrow> \<not> is_erroring (status r) \<Longrightarrow> fresh (start + 1) rs \<Longrightarrow> fresh start (r # rs)"
  unfolding fresh_def
  by (simp add: map_upt_Suc comp_def add.assoc del: upt_Suc)

lemma rpc_new_fresh:
  "rpc_new P i u ws mc d ma = (r, j) \<Longrightarrow> rpc_id r = i \<and> j = i + 1 \<and> \<not> is_erroring (status r) \<and> ws_url r = ws"
  by (auto simp: rpc_new_def status_default_def)

lemma into_rpcs_fresh: "into_rpcs_from P ma a i us start = (rs, j) \<Longrightarrow> fresh start rs"
proof (induction us arbitrary: i start rs j)
  case (Cons u us)
  let ?new = "rpc_new P start u (list_get i (arg_ws_url a)) (or_default 150 (list_get i (arg_max_consecutive a)))
      (ucast (min_delta (or_default 200 (list_get i (arg_max_per_second a))))) ma"
  obtain r next1 where n: "?new = (r, next1)" by fastforce
  obtain rs' next2 where m: "into_rpcs_from P ma a (Suc i) us next1 = (rs', next2)" by fastforce
  from Cons.prems n m have "rs = r # rs'" by simp
  with rpc_new_fresh [OF n] Cons.IH [OF m] show ?case by (auto intro: fresh_Cons)
qed simp

lemma file_rpc_fresh:
  assumes "file_rpc P ma v i = Ret ((r, j), w)"
  shows "rpc_id r = i \<and> j = i + 1 \<and> \<not> is_erroring (status r) \<and> w = (ws_url r \<noteq> None)"
proof -
  from assms obtain u where u: "Option.bind (Option.bind (toml_get ''url'' v) toml_str) P = Some u"
    by (cases "Option.bind (Option.bind (toml_get ''url'' v) toml_str) P") (auto simp: file_rpc_def)
  with assms obtain ws mc mps where c: "(case (mc, mps) of
      (Some c, Some p) \<Rightarrow> Ret (rpc_new P i u ws c (ucast (min_delta p)) ma, ws \<noteq> None)
    | _ \<Rightarrow> Panic) = Ret ((r, j), w)"
    unfolding file_rpc_def obind_Ret_iff u option.case by blast
  then obtain c p where "mc = Some c" "mps = Some p" by (cases mc; cases mps) auto
  with c have "rpc_new P i u ws c (ucast (min_delta p)) ma = (r, j)" "w = (ws \<noteq> None)" by auto
  then show ?thesis using rpc_new_fresh by metis
qed

lemma file_rpcs_fresh:
  "file_rpcs P ma vs start = Ret (rs, w) \<Longrightarrow> fresh start rs \<and> w = (\<forall>r\<in>set rs. ws_url r \<noteq> None)"
proof (induction vs arbitrary: start rs w)
  case (Cons v vs)
  from Cons.prems obtain x where x: "file_rpc P ma v start = Ret x"
    by (auto simp: obind_Ret_iff)
  obtain r j w1 where r: "x = ((r, j), w1)" by (metis prod.collapse)
  from Cons.prems x r obtain y where y: "file_rpcs P ma vs j = Ret y"
    by (auto simp: obind_Ret_iff)
  obtain rs' w2 where s: "y = (rs', w2)" by fastforce
  have "rs = r # rs'" "w = (w1 \<and> w2)" using Cons.prems x r y s by simp_all
  with file_rpc_fresh [of P ma v start r j w1] Cons.IH [of j rs' w2] x r y s
  show ?case by (auto intro: fresh_Cons)
qed simp

lemma rpcs_of_fresh:
  assumes "rpcs_of E a config ma i = Ret (rpcs, w)"
  shows "\<exists>start. fresh start (or_default [] rpcs)"
proof -
  obtain cli next1 where c: "into_rpcs (env_parse_url E) ma (arg_rpc_list a) i = (cli, next1)" by fastforce
  then have "fresh i cli" by (auto simp: into_rpcs_def dest: into_rpcs_fresh)
  moreover have "\<exists>start. fresh start rs" if "file_rpcs (env_parse_url E) ma vs next1 = Ret (rs, w')" for vs rs w'
    using file_rpcs_fresh [OF that] by blast
  ultimately show ?thesis
    using assms c by (auto simp: rpcs_of_def or_default_def obind_Ret_iff Let_def split: option.splits if_splits)
qed

lemma try_parse_parts:
  assumes "try_parse E i a = Ret (Inr s)"
  obtains config rpcs w ebt where "load_config E a = Inr config"
    "rpcs_of E a config (set_ma_length s) i = Ret (rpcs, w)" "set_rpc_list s = or_default [] rpcs"
    "set_poverty_list s = []" "set_is_ws s = (ebt \<noteq> Some 0 \<and> w)"
    "\<exists>file_ebt. uint_of (key_in ''expected_block_time''
        (Option.bind (Option.bind config (toml_get ''blutgang'')) toml_table)) = Ret file_ebt \<and>
      ebt = or_else (arg_expected_block_time a) file_ebt"
  using assms
  by (auto simp: try_parse_def obind_Ret_iff Let_def split: sum.splits)

lemma fresh_distinct:
  assumes "fresh start rs" "length rs \<le> 2 ^ 64"
  shows "distinct (map rpc_id rs)"
proof -
  have "inj_on (\<lambda>k. start + of_nat k :: usize) {0..<length rs}"
  proof (rule inj_onI)
    fix j k assume "j \<in> {0..<length rs}" "k \<in> {0..<length rs}" "start + of_nat j = start + (of_nat k :: usize)"
    then have "(of_nat j :: usize) = of_nat k" "j < 2 ^ 64" "k < 2 ^ 64" using assms(2) by auto
    moreover have "unat (of_nat n :: usize) = n" if "n < 2 ^ 64" for n
      using that by (simp add: unat_of_nat_small)
    ultimately show "j = k" by metis
  qed
  with assms(1) show ?thesis by (simp add: fresh_def distinct_map)
qed

lemma parsed_pool_ok:
  assumes "try_parse E i a = Ret (Inr c)" "length (set_rpc_list c) \<le> 2 ^ 64"
  shows "pool_ok (set_rpc_list c) [] \<and> set_poverty_list c = []"
proof -
  obtain config rpcs w where "rpcs_of E a config (set_ma_length c) i = Ret (rpcs, w)"
    "set_rpc_list c = or_default [] rpcs" "set_poverty_list c = []"
    using try_parse_parts [OF assms(1)] by metis
  moreover from this(1) obtain start where "fresh start (or_default [] rpcs)"
    using rpcs_of_fresh by blast
  ultimately have f: "fresh start (set_rpc_list c)" by simp
  with fresh_distinct [OF f assms(2)] \<open>set_poverty_list c = []\<close> show ?thesis
    by (simp add: pool_ok_def fresh_def)
qed

lemma sort_on_startup_pool_ok:
  assumes "sort_on_startup S post nanos arrival s = Ret s'" "pool_ok (set_rpc_list s) []"
    and "\<And>xs. mset (arrival xs) = mset xs"
  shows "pool_ok (set_rpc_list s') (set_poverty_list s')"
proof (cases "set_rpc_list s = []")
  case True
  with assms(1) show ?thesis by (auto simp: sort_on_startup_def sort_by_latency_def pool_ok_def)
next
  case False
  with sort_on_startup_facts [OF assms(1,2) False assms(3)] show ?thesis by blast
qed

lemma started_program:
  assumes "try_parse E i a = Ret (Inr c)" "length (set_rpc_list c) \<le> 2 ^ 64"
    and "start_settings S post nanos arrival c = Ret c'" "\<And>xs. mset (arrival xs) = mset xs"
    and "run_start D bound s c' = Ret (Some p)"
  shows "pool_ok (contents (prog_rpcs p)) (contents (prog_poverty p)) \<and>
         \<not> poisoned (prog_rpcs p) \<and> \<not> poisoned (prog_poverty p) \<and>
         (NewHeadsTask \<in> set (prog_tasks p) \<longleftrightarrow> set_is_ws c \<and> set_health_check c)"
proof -
  note c = parsed_pool_ok [OF assms(1,2)]
  have c': "pool_ok (set_rpc_list c') (set_poverty_list c') \<and> set_is_ws c' = set_is_ws c \<and>
      set_health_check c' = set_health_check c"
  proof (cases "set_sort_on_startup c")
    case True
    with assms(3) have s: "sort_on_startup S post nanos arrival c = Ret c'" by (simp add: start_settings_def)
    with sort_on_startup_pool_ok [OF s _ assms(4)] c show ?thesis
      by (auto simp: sort_on_startup_def obind_Ret_iff)
  next
    case False
    with assms(3) c show ?thesis by (simp add: start_settings_def)
  qed
  from assms(5) show ?thesis
    using c' by (auto simp: run_start_def obind_Ret_iff new_lock_def split: if_splits)
qed

text \<open>The program starts with sound lists: whatever the command line and the file say, when it
  starts to accept connections every endpoint has an id of its own, no endpoint is in both
  lists, those in the active list are not flagged and those in the poverty list are, and the
  locks are good (this is the invariant the health check keeps); the head of the chain is
  followed exactly when both websockets and health checks are on.\<close>

theorem program_starts_with_sound_lists:
  assumes "try_parse E i a = Ret (Inr c)" "length (set_rpc_list c) \<le> 2 ^ 64"
    and "start_settings S post nanos arrival c = Ret c'" "\<And>xs. mset (arrival xs) = mset xs"
    and "run_start D bound s c' = Ret (Some p)"
  shows "pool_ok (contents (prog_rpcs p)) (contents (prog_poverty p)) \<and>
         \<not> poisoned (prog_rpcs p) \<and> \<not> poisoned (prog_poverty p) \<and>
         (NewHeadsTask \<in> set (prog_tasks p) \<longleftrightarrow> set_is_ws c \<and> set_health_check c)"
  by (rule started_program [OF assms])

text \<open>Websockets stay on without addresses: whether websockets are used is decided by the
  endpoints of the file alone. With endpoints given on the command line only, and no websocket
  address among them, every endpoint lacks one and the websocket tasks are started all the
  same.\<close>

theorem websockets_stay_on_without_addresses:
  assumes "try_parse E i a = Ret (Inr c)" "load_config E a = Inr None"
    and "arg_url (arg_rpc_list a) \<noteq> []" "arg_ws_url (arg_rpc_list a) = []"
    and "arg_expected_block_time a \<noteq> Some 0" "run_start D True s c = Ret (Some p)"
  shows "set_rpc_list c \<noteq> [] \<and> (\<forall>r\<in>set (set_rpc_list c). ws_url r = None) \<and> set_is_ws c \<and>
         ConnectionManagerTask \<in> set (prog_tasks p)"
proof -
  obtain config rpcs w ebt where q: "load_config E a = Inr config"
    "rpcs_of E a config (set_ma_length c) i = Ret (rpcs, w)" "set_rpc_list c = or_default [] rpcs"
    "set_poverty_list c = []" "set_is_ws c = (ebt \<noteq> Some 0 \<and> w)"
    "\<exists>file_ebt. uint_of (key_in ''expected_block_time''
        (Option.bind (Option.bind config (toml_get ''blutgang'')) toml_table)) = Ret file_ebt \<and>
      ebt = or_else (arg_expected_block_time a) file_ebt"
    by (rule try_parse_parts [OF assms(1)])
  from q(1) assms(2) have "config = None" by simp
  with q have r: "rpcs_of E a None (set_ma_length c) i = Ret (rpcs, w)"
    "set_rpc_list c = or_default [] rpcs" "set_is_ws c = (ebt \<noteq> Some 0 \<and> w)"
    "ebt = or_else (arg_expected_block_time a) None"
    by (simp_all add: uint_of_def key_in_def)
  obtain cli next1 where cli: "into_rpcs (env_parse_url E) (set_ma_length c) (arg_rpc_list a) i = (cli, next1)"
    by fastforce
  have none: "into_rpcs_from P ma b k us j = (rs, j') \<Longrightarrow> arg_ws_url b = [] \<Longrightarrow>
      length rs = length us \<and> (\<forall>r\<in>set rs. ws_url r = None)" for P ma b k us j rs j'
  proof (induction us arbitrary: k j rs j')
    case (Cons u us)
    then show ?case
      by (auto simp: list_get_def rpc_new_def split: prod.splits)
  qed simp
  from r(1) cli assms(3) have "rpcs = Some cli" "w" by (auto simp: rpcs_of_def Let_def)
  moreover have "length cli = length (arg_url (arg_rpc_list a)) \<and> (\<forall>r\<in>set cli. ws_url r = None)"
    by (rule none [OF cli [unfolded into_rpcs_def] assms(4)])
  moreover have "ebt \<noteq> Some 0" using r(4) assms(5) by (cases "arg_expected_block_time a") auto
  ultimately have "set_rpc_list c \<noteq> [] \<and> (\<forall>r\<in>set (set_rpc_list c). ws_url r = None) \<and> set_is_ws c"
    using r(2,3) assms(3) by (auto simp: or_default_def)
  moreover from this assms(6) have "ConnectionManagerTask \<in> set (prog_tasks p)"
    by (auto simp: run_start_def obind_Ret_iff)
  ultimately show ?thesis by blast
qed

lemma setup_data_view:
  assumes "clearable_database D view" "setup_data D do_clear s = Ret (s', old)"
    and "\<And>s k v. fst (db_write D s k v) = Inr ()"
  shows "view s' = (if do_clear then Map.empty else view s)
           (is_lb_key \<mapsto> version_json, client_version_key \<mapsto> version_json, ''blake3'' \<mapsto> ''true'') \<and>
         (old \<longleftrightarrow> view s' ''xxhash'' \<noteq> None)"
proof -
  note gen = clearable_database.axioms(1) [OF assms(1)]
  have w: "view (snd (db_write D s k v)) = (view s)(k \<mapsto> v)" for s k v
    using generic_database.write_ok [OF gen, of s k v "snd (db_write D s k v)"] assms(3) [of s k v]
    by (metis prod.collapse)
  obtain s0 where s0: "view s0 = (if do_clear then Map.empty else view s)"
    "s' = snd (db_write D (snd (db_write D (snd (db_write D s0 is_lb_key version_json)) client_version_key version_json))
            ''blake3'' ''true'')"
    "\<exists>found. db_read D s' ''xxhash'' = Inr found \<and> old = (found \<noteq> None)"
  proof -
    let ?clear = "if do_clear then (case db_clear D s of (Inl _, s') \<Rightarrow> Panic | (Inr _, s') \<Rightarrow> Ret s') else Ret s"
    from assms(2) obtain s0 where c: "?clear = Ret s0" and rest:
      "(let s1 = snd (db_write D s0 is_lb_key version_json);
            s2 = snd (db_write D s1 client_version_key version_json);
            s3 = snd (db_write D s2 ''blake3'' ''true'')
        in case db_read D s3 ''xxhash'' of Inl _ \<Rightarrow> Panic | Inr found \<Rightarrow> Ret (s3, found \<noteq> None)) = Ret (s', old)"
      unfolding setup_data_def obind_Ret_iff by blast
    have "view s0 = (if do_clear then Map.empty else view s)"
      using c clearable_database.clear_ok [OF assms(1), of s s0]
      by (cases do_clear; cases "db_clear D s") (auto split: sum.splits)
    with rest show thesis by (intro that [of s0]) (auto simp: Let_def split: sum.splits)
  qed
  then have "view s' = (view s0)(is_lb_key \<mapsto> version_json, client_version_key \<mapsto> version_json, ''blake3'' \<mapsto> ''true'')"
    by (simp add: w)
  moreover have "old \<longleftrightarrow> view s' ''xxhash'' \<noteq> None"
    using s0(3) generic_database.read_ok [OF gen] by auto
  ultimately show ?thesis using s0(1) by simp
qed

section \<open>A concrete start\<close>

definition cli_only :: blutgang_args where
  "cli_only =
     \<lparr>arg_config = None,
      arg_rpc_list = \<lparr>arg_url = [demo_url], arg_ws_url = [], arg_max_consecutive = [], arg_max_per_second = []\<rparr>,
      arg_address = None, arg_port = None, arg_ma_length = None, arg_ttl = None, arg_max_retries = None,
      arg_expected_block_time = None, arg_health_check_ttl = None, arg_clear_cache = False,
      arg_no_clear_cache = False, arg_sort_on_startup = False, arg_no_sort_on_startup = False,
      arg_health_check = True, arg_no_health_check = False, arg_header_check = False,
      arg_no_header_check = False, arg_supress_rpc_check = False, arg_no_supress_rpc_check = False,
      arg_db = None, arg_admin = False, arg_no_admin = False, arg_admin_address = None,
      arg_admin_port = None, arg_admin_readonly = False, arg_no_admin_readonly = False,
      arg_admin_jwt = False, arg_no_admin_jwt = False, arg_admin_key = None\<rparr>"

definition plain_sled :: sled_config where
  "plain_sled =
     \<lparr>sc_path = ''db'', sc_cache_capacity_bytes = 1, sc_entry_cache_percent = 20, sc_flush_every_ms = None,
      sc_zstd_compression_level = 5\<rparr>"

definition no_file :: "rocksdb_options_repr \<Rightarrow> config_env" where
  "no_file repr =
     \<lparr>default_path = None, read_file = Inl, parse_toml = Inl, env_parse_url = (\<lambda>s. Some demo_url),
      parse_socket = Some, read_sled = (\<lambda>v. None), read_rocksdb = (\<lambda>v. None), rocksdb_repr_default = repr,
      path_accepted = (\<lambda>p n. True), sled_default = plain_sled\<rparr>"

definition cli_settings :: settings where
  "cli_settings =
     (settings_default plain_sled)\<lparr>
       set_rpc_list := [fst (rpc_new (\<lambda>s. Some demo_url) 0 demo_url None 150 5000 (Fin 100))],
       set_health_check := True\<rparr>"

lemma cli_parses: "try_parse (no_file repr) 0 cli_only = Ret (Inr cli_settings)"
proof -
  have "(ucast (min_delta 200) :: u128) = 5000" by code_simp
  then show ?thesis
    by (simp add: try_parse_def load_config_def cli_only_def no_file_def cache_of_def key_in_def uint_of_def
        address_of_def admin_of_def flag_options flag_def rpcs_of_def into_rpcs_def list_get_def or_default_def
        rpc_new_def Let_def cli_settings_def settings_default_def sled_config_fields)
qed

definition cli_program :: "(string, string) btree program" where
  "cli_program =
     \<lparr>prog_rpcs = new_lock (set_rpc_list cli_settings), prog_poverty = new_lock [], prog_head = new_lock [],
      prog_named = named_at 0, prog_blocknum = 0, prog_finalized = 0, prog_subs = sub_data_new,
      prog_db = bt_insert ''blake3'' ''true''
        (bt_insert client_version_key version_json (bt_insert is_lb_key version_json [])),
      prog_tasks =
        [DatabaseTask, LivenessSink, HeadCacheTask, HealthCheckTask, DispatcherTask, ConnectionManagerTask,
         DroppedListenerTask, NewHeadsTask],
      prog_updates = [ReadinessUpd Ready]\<rparr>"

lemma cli_runs: "run_start (rocks_database mem_engine) True [] cli_settings = Ret (Some cli_program)"
  by (simp add: run_start_def setup_data_def rocks_database_def mem_engine_def cli_program_def cli_settings_def
      settings_default_def admin_settings_default_def Let_def del: bt_insert.simps)

theorem program_starts_with_sound_lists_witness:
  "pool_ok (contents (prog_rpcs cli_program)) (contents (prog_poverty cli_program))"
proof -
  have "start_settings S post nanos rev cli_settings = Ret cli_settings" for S post nanos
    by (simp add: start_settings_def cli_settings_def settings_default_def)
  moreover have "length (set_rpc_list cli_settings) \<le> 2 ^ 64" by (simp add: cli_settings_def)
  ultimately show ?thesis
    using program_starts_with_sound_lists [OF cli_parses _ _ _ cli_runs] by (metis mset_rev)
qed

theorem websockets_stay_on_without_addresses_witness:
  "set_is_ws cli_settings \<and> ConnectionManagerTask \<in> set (prog_tasks cli_program)"
proof -
  have "load_config (no_file repr) cli_only = Inr None" for repr
    by (simp add: load_config_def no_file_def cli_only_def)
  moreover have "arg_url (arg_rpc_list cli_only) \<noteq> []" "arg_ws_url (arg_rpc_list cli_only) = []"
    "arg_expected_block_time cli_only \<noteq> Some 0" by (simp_all add: cli_only_def)
  ultimately show ?thesis
    using websockets_stay_on_without_addresses [OF cli_parses _ _ _ _ cli_runs] by blast
qed

text \<open>One endpoint that is still syncing when the program starts.\<close>

definition syncing_post :: poster where
  "syncing_post u tx = Inr (Inr ''sync'')"

definition syncing_codec :: serde where
  "syncing_codec = sample_serde [(''sync'', JObj [(''result'', JBool True)])]"

definition sorting_settings :: settings where
  "sorting_settings = cli_settings\<lparr>set_rpc_list := [demo_rpc 1 7 2]\<rparr>"

lemma syncing_start:
  "sort_on_startup syncing_codec (\<lambda>r k. syncing_post) (\<lambda>r k. 0) rev sorting_settings =
     Ret (sorting_settings\<lparr>set_rpc_list := [], set_poverty_list := [set_erroring True (demo_rpc 1 7 2)]\<rparr>)"
proof -
  have n: "unat (f64_to_uint (Fin 100) :: u32) = Suc 99" by simp
  have "rpc_syncing syncing_codec syncing_post (demo_rpc 1 7 2) = Inr True"
    by (simp add: rpc_syncing_def send_request_def syncing_post_def extract_sync_def syncing_codec_def
        sample_serde_def jindex_def)
  then have "set_starting_latency syncing_codec (\<lambda>k. syncing_post) (\<lambda>k. 0) (Fin 100) (demo_rpc 1 7 2) =
      StartError (demo_rpc 1 7 2) Syncing"
    unfolding set_starting_latency_def Let_def n sync_calls.simps by simp
  then show ?thesis
    by (simp add: sort_on_startup_def sort_by_latency_def sorting_settings_def cli_settings_def
        settings_default_def sort_latency_def Let_def del: f64_to_uint.simps)
qed


end
