(* ===== verification/AdminMethods.thy ===== *)
theory AdminMethods
  imports FloatText StartUp
begin

text \<open>
  \<open>src/src/admin/methods.rs\<close>, \<open>src/src/admin/error.rs\<close> and \<open>src/src/admin/accept.rs\<close>: the admin
  endpoint. A request is checked against the token if tokens are on, its method is looked up,
  and methods that change something are refused when the endpoint is read-only. Arguments
  stand for the URL parser, \<open>Debug\<close> of a string (it needs the Unicode tables), the text of a
  measured time and the token library.
\<close>

section \<open>The methods\<close>

datatype blutgang_rpc_method =
    Quit
  | RpcList
  | FlushCache
  | ConfigMethod
  | PovertyList
  | Ttl
  | HealthCheckTtl
  | SetTtl
  | SetHealthCheckTtl
  | AddToRpcList
  | AddToPovertyList
  | RemoveFromRpcList
  | RemoveFromPovertyList

fun blutgang_method_str :: "blutgang_rpc_method \<Rightarrow> string" where
  "blutgang_method_str Quit = ''blutgang_quit''"
| "blutgang_method_str RpcList = ''blutgang_rpc_list''"
| "blutgang_method_str FlushCache = ''blutgang_flush_cache''"
| "blutgang_method_str ConfigMethod = ''blutgang_config''"
| "blutgang_method_str PovertyList = ''blutgang_poverty_list''"
| "blutgang_method_str Ttl = ''blutgang_ttl''"
| "blutgang_method_str HealthCheckTtl = ''blutgang_health_check_ttl''"
| "blutgang_method_str SetTtl = ''blutgang_set_ttl''"
| "blutgang_method_str SetHealthCheckTtl = ''blutgang_set_health_check_ttl''"
| "blutgang_method_str AddToRpcList = ''blutgang_add_to_rpc_list''"
| "blutgang_method_str AddToPovertyList = ''blutgang_add_to_poverty_list''"
| "blutgang_method_str RemoveFromRpcList = ''blutgang_remove_from_rpc_list''"
| "blutgang_method_str RemoveFromPovertyList = ''blutgang_remove_from_poverty_list''"

definition BLUTGANG_ALL :: "blutgang_rpc_method list" where
  "BLUTGANG_ALL =
     [Quit, RpcList, FlushCache, ConfigMethod, PovertyList, Ttl, HealthCheckTtl, SetTtl, SetHealthCheckTtl,
      AddToRpcList, AddToPovertyList, RemoveFromRpcList, RemoveFromPovertyList]"

text \<open>\<open>TryFrom<Option<&str>>\<close>; the error keeps what was given.\<close>

definition blutgang_method_try_from :: "string option \<Rightarrow> string option + blutgang_rpc_method" where
  "blutgang_method_try_from value =
     (case value of
        None \<Rightarrow> Inl None
      | Some s \<Rightarrow>
          (case find (\<lambda>m. blutgang_method_str m = s) BLUTGANG_ALL of
             Some m \<Rightarrow> Inr m
           | None \<Rightarrow> Inl (Some s)))"

definition blutgang_method_serialize :: "blutgang_rpc_method \<Rightarrow> json" where
  "blutgang_method_serialize m = JStr (blutgang_method_str m)"

text \<open>\<open>Deserialize\<close> on a JSON value, where the error is left to serde.\<close>

definition blutgang_method_deserialize :: "json \<Rightarrow> blutgang_rpc_method option" where
  "blutgang_method_deserialize v =
     Option.bind (as_str v) (\<lambda>s. find (\<lambda>m. blutgang_method_str m = s) BLUTGANG_ALL)"

datatype admin_error =
    InvalidMethod "string option"
  | InvalidParams
  | InvalidLen
  | ParseError
  | WriteProtectionEnabled
  | Inaccessible
  | AdminOutOfBounds

text \<open>\<open>{:?}\<close> of an optional string, \<open>{:#?}\<close> of the list of names.\<close>

definition quoted :: "string \<Rightarrow> string" where
  "quoted s = CHR 0x22 # s @ [CHR 0x22]"

definition debug_option :: "(string \<Rightarrow> string) \<Rightarrow> string option \<Rightarrow> string" where
  "debug_option debug_str v = (case v of None \<Rightarrow> ''None'' | Some s \<Rightarrow> ''Some('' @ debug_str s @ '')'')"

definition debug_names :: "string list \<Rightarrow> string" where
  "debug_names ns =
     ''['' @ [CHR 0x0A] @ concat (map (\<lambda>n. ''    '' @ quoted n @ '','' @ [CHR 0x0A]) ns) @ '']''"

fun admin_error_display :: "(string \<Rightarrow> string) \<Rightarrow> admin_error \<Rightarrow> string" where
  "admin_error_display debug_str (InvalidMethod v) =
     ''failed to convert method to `BlutgangRpcMethod`:'' @ [CHR 0x0A, CHR 0x0A] @ ''got: '' @
     debug_option debug_str v @ [CHR 0x0A] @ ''expected:'' @ [CHR 0x0A] @
     debug_names (map blutgang_method_str BLUTGANG_ALL)"
| "admin_error_display debug_str InvalidParams = ''Invalid params provided''"
| "admin_error_display debug_str InvalidLen = ''Mismatching params length''"
| "admin_error_display debug_str ParseError = ''Could not parse supplied params''"
| "admin_error_display debug_str WriteProtectionEnabled = ''Admin namespace is set to read-only''"
| "admin_error_display debug_str Inaccessible = ''Could not access shared resource''"
| "admin_error_display debug_str AdminOutOfBounds = ''Request out of bounds''"

section \<open>What a method works on\<close>

record admin_env =
  adm_codec :: serde
  adm_parse_url :: "string \<Rightarrow> url option"
  adm_debug_str :: "string \<Rightarrow> string"
  adm_time_text :: string

record admin_state =
  ad_rpcs :: "rpc list rwlock"
  ad_poverty :: "rpc list rwlock"
  ad_config :: "settings rwlock"
  ad_next_id :: usize
  ad_db :: "request_kind list"
  ad_exited :: bool

type_synonym admin_result = "(admin_error + json) outcome"

definition admin_answer :: "json \<Rightarrow> json" where
  "admin_answer v = obj_of [(''id'', JNull), (''jsonrpc'', JStr ''2.0''), (''result'', v)]"

text \<open>An unsigned 128-bit number in a \<open>json!\<close> literal: one over 64 bits makes the macro panic.\<close>

definition json_u128 :: "u128 \<Rightarrow> json outcome" where
  "json_u128 n = (if unat n < 2 ^ 64 then Ret (JNum (PosInt (ucast n))) else Panic)"

text \<open>The flush is sent and not waited for. Then the process ends.\<close>

definition admin_blutgang_quit :: "admin_state \<Rightarrow> admin_result \<times> admin_state" where
  "admin_blutgang_quit st =
     (Ret (Inr JNull), st\<lparr>ad_db := ad_db st @ [Flush], ad_exited := True\<rparr>)"

definition admin_flush_cache :: "admin_env \<Rightarrow> admin_state \<Rightarrow> admin_result \<times> admin_state" where
  "admin_flush_cache A st =
     (Ret (Inr (admin_answer (JStr (''Cache flushed in '' @ adm_time_text A)))), st\<lparr>ad_db := ad_db st @ [Flush]\<rparr>)"

definition admin_config :: "settings rwlock \<Rightarrow> admin_result" where
  "admin_config config =
     (if poisoned config then Panic
      else
        let c = contents config
        in obind (json_u128 (set_ttl c)) (\<lambda>t.
           Ret (Inr (admin_answer (obj_of
             [(''address'', JStr (set_address c)), (''do_clear'', JBool (set_do_clear c)),
              (''health_check'', JBool (set_health_check c)),
              (''admin'', obj_of [(''enabled'', JBool (admin_enabled (set_admin c))),
                                  (''readonly'', JBool (admin_readonly (set_admin c)))]),
              (''ttl'', t), (''health_check_ttl'', JNum (PosInt (set_health_check_ttl c)))])))))"

definition rpc_entry :: "rpc \<Rightarrow> string" where
  "rpc_entry r =
     ''{\"name\": \"'' @ rpc_name r @ ''\", \"max_consecutive\": '' @ show_dec (max_consecutive r) @
     '', \"last_error\": '' @ show_dec (last_error (status r)) @ ''}''"

definition admin_list_rpc :: "rpc list rwlock \<Rightarrow> admin_result" where
  "admin_list_rpc rl =
     (if poisoned rl then Ret (Inl Inaccessible)
      else Ret (Inr (admin_answer (JStr (''['' @ concat (map rpc_entry (contents rl)) @ '']'')))))"

text \<open>\<open>params[i].to_string().replace('"', "")\<close>.\<close>

definition param_text :: "serde \<Rightarrow> json \<Rightarrow> string" where
  "param_text S v = remove_char (CHR 0x22) (to_text S v)"

text \<open>The addresses are parsed while the list is locked for writing, so one that cannot be parsed
  poisons it.\<close>

definition admin_add_rpc ::
  "admin_env \<Rightarrow> usize \<Rightarrow> rpc list rwlock \<Rightarrow> json list option \<Rightarrow> admin_result \<times> rpc list rwlock \<times> usize" where
  "admin_add_rpc A next_id rl params =
     (case params of
        None \<Rightarrow> (Ret (Inl InvalidParams), rl, next_id)
      | Some ps \<Rightarrow>
          (if length ps \<noteq> 5 then (Ret (Inl InvalidLen), rl, next_id)
           else
             case (as_str (ps ! 0), if is_null (ps ! 1) then Some None else map_option Some (as_str (ps ! 1))) of
               (Some u, Some ws) \<Rightarrow>
                 (let num = (\<lambda>i. param_text (adm_codec A) (ps ! i));
                      mc = or_default 0 (parse_uint (num 2)) :: u32;
                      delta = min_delta (or_default 0 (parse_uint (num 3)));
                      ma = or_default (Fin 0) (parse_f64 (num 4))
                  in if poisoned rl then (Ret (Inl Inaccessible), rl, next_id)
                     else
                       case (adm_parse_url A u, case ws of None \<Rightarrow> Some None | Some w \<Rightarrow> map_option Some (adm_parse_url A w)) of
                         (Some u', Some ws') \<Rightarrow>
                           (case rpc_new (adm_parse_url A) next_id u' ws' mc (ucast delta) ma of
                              (r, next1) \<Rightarrow>
                                (Ret (Inr (admin_answer (JStr
                                   (''RPC: '' @ u @ '', max_consecutive: '' @ show_dec mc @ '', ma: '' @ show_f64 ma)))),
                                 rl\<lparr>contents := contents rl @ [r]\<rparr>, next1))
                       | _ \<Rightarrow> (Panic, rl\<lparr>poisoned := True\<rparr>, next_id))
             | _ \<Rightarrow> (Ret (Inl ParseError), rl, next_id)))"

definition admin_remove_rpc ::
  "admin_env \<Rightarrow> rpc list rwlock \<Rightarrow> json list option \<Rightarrow> admin_result \<times> rpc list rwlock" where
  "admin_remove_rpc A rl params =
     (case params of
        None \<Rightarrow> (Ret (Inl InvalidParams), rl)
      | Some ps \<Rightarrow>
          (if length ps \<noteq> 1 then (Ret (Inl InvalidLen), rl)
           else
             case parse_uint (param_text (adm_codec A) (ps ! 0)) :: u64 option of
               None \<Rightarrow> (Ret (Inl ParseError), rl)
             | Some i \<Rightarrow>
                 (if poisoned rl then (Ret (Inl Inaccessible), rl)
                  else if length (contents rl) \<le> unat i then (Ret (Inl AdminOutOfBounds), rl)
                  else
                    (Ret (Inr (admin_answer (JStr (rpc_name (contents rl ! unat i))))),
                     rl\<lparr>contents := remove_at (unat i) (contents rl)\<rparr>))))"

definition admin_blutgang_health_check_ttl :: "settings rwlock \<Rightarrow> admin_result" where
  "admin_blutgang_health_check_ttl config =
     (if poisoned config then Panic
      else Ret (Inr (admin_answer (JNum (PosInt (set_health_check_ttl (contents config)))))))"

definition admin_blutgang_ttl :: "settings rwlock \<Rightarrow> admin_result" where
  "admin_blutgang_ttl config =
     (if poisoned config then Panic
      else obind (json_u128 (set_ttl (contents config))) (\<lambda>t. Ret (Inr (admin_answer t))))"

text \<open>Setting a time: \<open>set\<close> writes it, \<open>get\<close> reads it back for the answer.\<close>

definition one_number :: "admin_env \<Rightarrow> json list option \<Rightarrow> admin_error + u64" where
  "one_number A params =
     (case params of
        None \<Rightarrow> Inl InvalidParams
      | Some ps \<Rightarrow>
          (if length ps \<noteq> 1 then Inl InvalidLen
           else case parse_uint (param_text (adm_codec A) (ps ! 0)) of None \<Rightarrow> Inl ParseError | Some n \<Rightarrow> Inr n))"

definition admin_blutgang_set_health_check_ttl ::
  "admin_env \<Rightarrow> settings rwlock \<Rightarrow> json list option \<Rightarrow> admin_result \<times> settings rwlock" where
  "admin_blutgang_set_health_check_ttl A config params =
     (case one_number A params of
        Inl e \<Rightarrow> (Ret (Inl e), config)
      | Inr n \<Rightarrow>
          (if poisoned config then (Panic, config)
           else (Ret (Inr (admin_answer (JNum (PosInt n)))),
                 config\<lparr>contents := (contents config)\<lparr>set_health_check_ttl := n\<rparr>\<rparr>)))"

definition admin_blutgang_set_ttl ::
  "admin_env \<Rightarrow> settings rwlock \<Rightarrow> json list option \<Rightarrow> admin_result \<times> settings rwlock" where
  "admin_blutgang_set_ttl A config params =
     (case one_number A params of
        Inl e \<Rightarrow> (Ret (Inl e), config)
      | Inr n \<Rightarrow>
          (if poisoned config then (Panic, config)
           else (Ret (Inr (admin_answer (JNum (PosInt n)))),
                 config\<lparr>contents := (contents config)\<lparr>set_ttl := ucast n\<rparr>\<rparr>)))"

section \<open>Running a method\<close>

text \<open>\<open>execute_method\<close>. A poisoned configuration panics before anything is done.\<close>

definition execute_method :: "admin_env \<Rightarrow> json \<Rightarrow> admin_state \<Rightarrow> admin_result \<times> admin_state" where
  "execute_method A tx st =
     (let params = as_array (jindex tx ''params'');
          denied = admin_readonly (set_admin (contents (ad_config st)));
          guarded = (\<lambda>act. if denied then (Ret (Inl WriteProtectionEnabled), st) else act)
      in if poisoned (ad_config st) then (Panic, st)
         else
           case blutgang_method_try_from (as_str (jindex tx ''method'')) of
             Inl e \<Rightarrow> (Ret (Inl (InvalidMethod e)), st)
           | Inr Quit \<Rightarrow> guarded (admin_blutgang_quit st)
           | Inr RpcList \<Rightarrow> (admin_list_rpc (ad_rpcs st), st)
           | Inr FlushCache \<Rightarrow> guarded (admin_flush_cache A st)
           | Inr ConfigMethod \<Rightarrow> (admin_config (ad_config st), st)
           | Inr PovertyList \<Rightarrow> (admin_list_rpc (ad_poverty st), st)
           | Inr Ttl \<Rightarrow> (admin_blutgang_ttl (ad_config st), st)
           | Inr HealthCheckTtl \<Rightarrow> (admin_blutgang_health_check_ttl (ad_config st), st)
           | Inr SetTtl \<Rightarrow>
               guarded (case admin_blutgang_set_ttl A (ad_config st) params of
                          (r, c) \<Rightarrow> (r, st\<lparr>ad_config := c\<rparr>))
           | Inr SetHealthCheckTtl \<Rightarrow>
               guarded (case admin_blutgang_set_health_check_ttl A (ad_config st) params of
                          (r, c) \<Rightarrow> (r, st\<lparr>ad_config := c\<rparr>))
           | Inr AddToRpcList \<Rightarrow>
               guarded (case admin_add_rpc A (ad_next_id st) (ad_rpcs st) params of
                          (r, rl, n) \<Rightarrow> (r, st\<lparr>ad_rpcs := rl, ad_next_id := n\<rparr>))
           | Inr AddToPovertyList \<Rightarrow>
               guarded (case admin_add_rpc A (ad_next_id st) (ad_poverty st) params of
                          (r, rl, n) \<Rightarrow> (r, st\<lparr>ad_poverty := rl, ad_next_id := n\<rparr>))
           | Inr RemoveFromRpcList \<Rightarrow>
               guarded (case admin_remove_rpc A (ad_rpcs st) params of (r, rl) \<Rightarrow> (r, st\<lparr>ad_rpcs := rl\<rparr>))
           | Inr RemoveFromPovertyList \<Rightarrow>
               guarded (case admin_remove_rpc A (ad_poverty st) params of (r, rl) \<Rightarrow> (r, st\<lparr>ad_poverty := rl\<rparr>)))"

section \<open>Accepting a request\<close>

text \<open>\<open>get_response!\<close> and \<open>forward_body\<close>: an error becomes the text of the result; a process that
  has ended gives no response.\<close>

definition admin_forward_body :: "admin_env \<Rightarrow> json \<Rightarrow> admin_state \<Rightarrow> response outcome \<times> admin_state" where
  "admin_forward_body A tx st =
     (if \<not> is_object tx then (Ret invalid_request, st)
      else
        case jtake ''id'' tx of
          Panic \<Rightarrow> (Panic, st)
        | Ret (idv, tx1) \<Rightarrow>
            (case execute_method A tx1 st of
               (Panic, st') \<Rightarrow> (Panic, st')
             | (Ret res, st') \<Rightarrow>
                 (let rx = (case res of
                              Inr v \<Rightarrow> v
                            | Inl e \<Rightarrow> admin_answer (JStr (admin_error_display (adm_debug_str A) e)))
                  in case jset ''id'' (JNum (PosInt (request_id idv))) rx of
                       Panic \<Rightarrow> (Panic, st')
                     | Ret rx' \<Rightarrow> (Ret (plain_response 200 (to_text (adm_codec A) rx')), st'))))"

record claims =
  claim_id :: json
  claim_jsonrpc :: json
  claim_method :: json
  claim_params :: json
  claim_exp :: usize

record admin_request =
  req_path :: string
  req_body :: "string + string"

text \<open>\<open>decode token key\<close> is what the token library makes of a token at that time, \<open>live\<close> the answer
  of the liveness monitor.\<close>

definition accept_admin_request ::
  "admin_env \<Rightarrow> (string \<Rightarrow> string \<Rightarrow> claims option) \<Rightarrow> live_ready option \<Rightarrow> admin_request \<Rightarrow> admin_state \<Rightarrow>
     response outcome \<times> admin_state" where
  "accept_admin_request A decode live req st =
     (if req_path req = ''/ready'' then (Ret (accept_readiness_request live), st)
      else if req_path req = ''/health'' then (Ret (accept_health_request live), st)
      else
        case incoming_to_value (adm_codec A) (req_body req) of
          Panic \<Rightarrow> (Panic, st)
        | Ret (Inl e) \<Rightarrow> (Ret (plain_response 401 ''Invalid admin request format''), st)
        | Ret (Inr tx) \<Rightarrow>
            (if poisoned (ad_config st) then (Panic, st)
             else if admin_jwt (set_admin (contents (ad_config st)))
             then
               (case decode (trim_char (CHR 0x22) (to_text (adm_codec A) (jindex tx ''token'')))
                       (admin_key (set_admin (contents (ad_config st)))) of
                  None \<Rightarrow> (Ret (plain_response 401 ''Unauthorized or invalid token''), st)
                | Some c \<Rightarrow>
                    admin_forward_body A
                      (obj_of [(''id'', claim_id c), (''jsonrpc'', JStr ''2.0''), (''method'', claim_method c),
                               (''params'', claim_params c)]) st)
             else admin_forward_body A tx st))"

section \<open>Who may change what\<close>

lemma execute_method_readonly:
  assumes "admin_readonly (set_admin (contents (ad_config st)))"
  shows "snd (execute_method A tx st) = st"
proof (cases "blutgang_method_try_from (as_str (jindex tx ''method''))")
  case Inl
  with assms show ?thesis by (simp add: execute_method_def Let_def)
next
  case (Inr m)
  with assms show ?thesis by (cases m) (simp_all add: execute_method_def Let_def)
qed

lemma admin_forward_body_readonly:
  assumes "admin_readonly (set_admin (contents (ad_config st)))"
  shows "snd (admin_forward_body A tx st) = st"
proof (cases "jtake ''id'' tx")
  case (Ret x)
  obtain idv tx1 where x: "x = (idv, tx1)" by fastforce
  obtain res st' where e: "execute_method A tx1 st = (res, st')" by fastforce
  with execute_method_readonly [OF assms, of A tx1] have "st' = st" by simp
  with Ret x e show ?thesis
    by (cases res) (simp_all add: admin_forward_body_def Let_def split: outcome.split)
qed (simp add: admin_forward_body_def)

text \<open>C14. A read-only admin endpoint changes nothing: whatever is requested, with whatever token,
  the lists, the configuration and the locks stay as they are, nothing is sent to the
  database and the process goes on.\<close>

theorem readonly_admin_changes_nothing:
  assumes "admin_readonly (set_admin (contents (ad_config st)))"
  shows "snd (accept_admin_request A decode live req st) = st"
  using admin_forward_body_readonly [OF assms]
  by (auto simp: accept_admin_request_def split: outcome.split sum.split option.split)

text \<open>C26. With tokens on, a request that is not a probe is answered without looking at anything but
  its token: when the token is not valid the answer is an error and nothing changes, when it
  is the request carried out is the one inside the token, so that two bodies with the same
  token are treated alike.\<close>

theorem admin_token_decides:
  assumes "admin_jwt (set_admin (contents (ad_config st)))" "req_path req \<notin> {''/ready'', ''/health''}"
    and "incoming_to_value (adm_codec A) (req_body req) = Ret (Inr tx)" "\<not> poisoned (ad_config st)"
  defines "token \<equiv> trim_char (CHR 0x22) (to_text (adm_codec A) (jindex tx ''token''))"
  shows "(decode token (admin_key (set_admin (contents (ad_config st)))) = None \<longrightarrow>
            accept_admin_request A decode live req st =
              (Ret (plain_response 401 ''Unauthorized or invalid token''), st)) \<and>
         (\<forall>req' tx'. req_path req' = req_path req \<and>
            incoming_to_value (adm_codec A) (req_body req') = Ret (Inr tx') \<and>
            jindex tx' ''token'' = jindex tx ''token'' \<longrightarrow>
            accept_admin_request A decode live req' st = accept_admin_request A decode live req st)"
  using assms by (auto simp: accept_admin_request_def)

section \<open>Adding and removing endpoints\<close>

lemma admin_add_rpc_Inr:
  assumes "admin_add_rpc A i rl (Some ps) = (Ret (Inr v), rl', j)"
  obtains r u ws mc delta where "\<not> poisoned rl" "length ps = 5"
    "rpc_new (adm_parse_url A) i u ws mc delta (or_default (Fin 0) (parse_f64 (param_text (adm_codec A) (ps ! 4)))) =
       (r, j)"
    "rl' = rl\<lparr>contents := contents rl @ [r]\<rparr>"
  using assms
  by (fastforce simp: admin_add_rpc_def Let_def split: if_splits option.splits prod.splits)

lemma position_snoc:
  "P x \<Longrightarrow> \<forall>q\<in>set xs. \<not> P q \<Longrightarrow> position P (xs @ [x]) = Some (length xs)"
  by (induction xs) auto

lemma rpc_new_status:
  "rpc_new P i u ws mc d ma = (r, j) \<Longrightarrow>
     rpc_id r = i \<and> ma_length (status r) = ma \<and> latency_data (status r) = []"
  by (auto simp: rpc_new_def status_default_def)

lemma number_param:
  assumes "\<And>n. to_text S (JNum (PosInt n)) = show_dec n"
  shows "parse_uint (param_text S (JNum (PosInt n))) = Some n"
proof -
  have "CHR 0x22 \<notin> set (show_dec n)"
    using to_digits_chars [of 10 "CHR 0x22" "unat n"] by (auto simp: show_dec_def)
  then have "\<forall>c\<in>set (show_dec n). c \<noteq> CHR 0x22" by metis
  then have "param_text S (JNum (PosInt n)) = show_dec n"
    unfolding param_text_def assms remove_char_def by (rule filter_True)
  then show ?thesis by (simp add: parse_show_dec)
qed

text \<open>C37. Adding and removing are inverse: an endpoint that was added is the last of the list, under
  the next free id, and removing it by its position answers its name and restores the list.\<close>

theorem admin_add_then_remove:
  assumes "admin_add_rpc A i rl (Some ps) = (Ret (Inr v), rl', j)"
    and "\<And>n. to_text (adm_codec A) (JNum (PosInt n)) = show_dec n" "length (contents rl) < 2 ^ 64"
  shows "rpc_id (last (contents rl')) = i \<and> j = i + 1 \<and>
         admin_remove_rpc A rl' (Some [JNum (PosInt (of_nat (length (contents rl))))]) =
           (Ret (Inr (admin_answer (JStr (rpc_name (last (contents rl')))))), rl)"
proof -
  obtain r u ws mc delta where a: "\<not> poisoned rl"
    "rpc_new (adm_parse_url A) i u ws mc delta (or_default (Fin 0) (parse_f64 (param_text (adm_codec A) (ps ! 4)))) =
       (r, j)"
    "rl' = rl\<lparr>contents := contents rl @ [r]\<rparr>"
    using admin_add_rpc_Inr [OF assms(1)] by metis
  let ?n = "of_nat (length (contents rl)) :: u64"
  have "unat ?n = length (contents rl)" using assms(3) by (simp add: unat_of_nat_small)
  then have "admin_remove_rpc A rl' (Some [JNum (PosInt ?n)]) = (Ret (Inr (admin_answer (JStr (rpc_name r)))), rl)"
    using a(1,3) by (simp add: admin_remove_rpc_def number_param [OF assms(2)] nth_append remove_at_def)
  with rpc_new_fresh [OF a(2)] a(3) show ?thesis by simp
qed

text \<open>C38. An endpoint without a moving average poisons the list: \<open>blutgang_add_to_rpc_list\<close> takes a
  length below one, and a length it cannot read, for zero; the first response of such an
  endpoint then panics while the list is locked for writing, which poisons it, and from then
  on the admin methods cannot read or change it.\<close>

theorem endpoint_without_average_poisons_the_list:
  assumes "admin_add_rpc A i rl (Some ps) = (Ret (Inr v), rl', j)"
    and "f64_to_uint (or_default (Fin 0) (parse_f64 (param_text (adm_codec A) (ps ! 4)))) = (0 :: usize)"
    and "i \<notin> rpc_id ` set (contents rl)"
  shows "\<exists>rl2. update_rpc_latency rl' i nanos = (Panic, rl2) \<and> poisoned rl2 \<and>
           admin_list_rpc rl2 = Ret (Inl Inaccessible) \<and>
           (\<forall>ps'. fst (admin_remove_rpc A rl2 (Some ps')) \<in> Ret ` Inl ` UNIV \<and> snd (admin_remove_rpc A rl2 (Some ps')) = rl2)"
proof -
  let ?ma = "or_default (Fin 0) (parse_f64 (param_text (adm_codec A) (ps ! 4)))"
  obtain r u ws mc delta where a: "rpc_new (adm_parse_url A) i u ws mc delta ?ma = (r, j)"
    "rl' = rl\<lparr>contents := contents rl @ [r]\<rparr>"
    using admin_add_rpc_Inr [OF assms(1)] by metis
  note r = rpc_new_status [OF a(1)]
  let ?rl2 = "rl'\<lparr>poisoned := True\<rparr>"
  have "position (\<lambda>q. rpc_id q = i) (contents rl @ [r]) = Some (length (contents rl))"
  proof (rule position_snoc)
    show "rpc_id r = i" using r by simp
    show "\<forall>q\<in>set (contents rl). rpc_id q \<noteq> i" using assms(3) by (metis imageI)
  qed
  moreover have "update_latency x r = Panic" for x
    using r assms(2) by (simp add: update_latency_panic window_def)
  ultimately have "update_rpc_latency rl' i nanos = (Panic, ?rl2)"
    by (simp add: update_rpc_latency_def a(2))
  moreover have "admin_list_rpc ?rl2 = Ret (Inl Inaccessible)" "poisoned ?rl2"
    by (simp_all add: admin_list_rpc_def)
  moreover have "fst (admin_remove_rpc A ?rl2 (Some ps')) \<in> Ret ` Inl ` UNIV \<and>
      snd (admin_remove_rpc A ?rl2 (Some ps')) = ?rl2" for ps'
    by (auto simp: admin_remove_rpc_def split: option.split)
  ultimately show ?thesis by (intro exI [of _ ?rl2]) blast
qed

section \<open>Concrete requests\<close>

definition add_params :: "string \<Rightarrow> json list" where
  "add_params ma = [JStr ''http://b'', JNull, JNum (PosInt 7), JNum (PosInt 0), JStr ma]"

definition sample_admin :: admin_env where
  "sample_admin =
     \<lparr>adm_codec = sample_serde [(''list'', JObj [(''method'', JStr ''blutgang_quit'')])],
      adm_parse_url = (\<lambda>s. Some demo_url), adm_debug_str = quoted, adm_time_text = ''1ms''\<rparr>"

definition admin_start :: "bool \<Rightarrow> bool \<Rightarrow> admin_state" where
  "admin_start readonly jwt =
     \<lparr>ad_rpcs = new_lock [demo_rpc 1 7 2], ad_poverty = new_lock [],
      ad_config = new_lock (cli_settings\<lparr>set_admin :=
        \<lparr>admin_enabled = True, admin_address = ''a'', admin_readonly = readonly, admin_jwt = jwt, admin_key = ''k''\<rparr>\<rparr>),
      ad_next_id = 2, ad_db = [], ad_exited = False\<rparr>"

definition list_request :: admin_request where
  "list_request = \<lparr>req_path = ''/'', req_body = Inr ''list''\<rparr>"

theorem readonly_admin_changes_nothing_witness:
  "snd (accept_admin_request sample_admin (\<lambda>t k. None) None list_request (admin_start True False)) = admin_start True False"
  using readonly_admin_changes_nothing [of "admin_start True False"] by (simp add: admin_start_def new_lock_def)

theorem admin_token_decides_witness:
  "accept_admin_request sample_admin (\<lambda>t k. None) None list_request (admin_start False True) =
     (Ret (plain_response 401 ''Unauthorized or invalid token''), admin_start False True)"
proof -
  have "incoming_to_value (adm_codec sample_admin) (req_body list_request) =
      Ret (Inr (JObj [(''method'', JStr ''blutgang_quit'')]))"
    by (simp add: incoming_to_value_def sample_admin_def list_request_def sample_serde_def utf8_ok.simps)
  then show ?thesis
    using admin_token_decides [of "admin_start False True" list_request sample_admin _ "\<lambda>t k. None" None]
    by (simp add: admin_start_def new_lock_def list_request_def)
qed

lemma added_sample:
  assumes "param_text (adm_codec sample_admin) (JStr ma) = ma"
  shows "\<exists>v rl' j. admin_add_rpc sample_admin 2 (new_lock [demo_rpc 1 7 2]) (Some (add_params ma)) = (Ret (Inr v), rl', j)"
proof -
  obtain r j where "rpc_new (\<lambda>s. Some demo_url) 2 demo_url None
      (or_default 0 (parse_uint (param_text (adm_codec sample_admin) (add_params ma ! 2))))
      (ucast (min_delta (or_default 0 (parse_uint (param_text (adm_codec sample_admin) (add_params ma ! 3))))))
      (or_default (Fin 0) (parse_f64 (param_text (adm_codec sample_admin) (add_params ma ! 4)))) = (r, j)"
    by fastforce
  then show ?thesis
    by (simp add: admin_add_rpc_def new_lock_def add_params_def sample_admin_def Let_def)
qed

theorem admin_add_then_remove_witness:
  "\<exists>rl'. snd (admin_remove_rpc sample_admin rl' (Some [JNum (PosInt 1)])) = new_lock [demo_rpc 1 7 2]"
proof -
  obtain v rl' j where a: "admin_add_rpc sample_admin 2 (new_lock [demo_rpc 1 7 2]) (Some (add_params ''9'')) = (Ret (Inr v), rl', j)"
    using added_sample [of "''9''"] by (auto simp: param_text_def sample_admin_def sample_serde_def remove_char_def)
  have "to_text (adm_codec sample_admin) (JNum (PosInt n)) = show_dec n" for n
    by (simp add: sample_admin_def sample_serde_def)
  from admin_add_then_remove [OF a this] show ?thesis
    by (intro exI [of _ rl']) (simp add: new_lock_def)
qed

theorem endpoint_without_average_poisons_the_list_witness:
  "\<exists>rl' rl2. update_rpc_latency rl' 2 5 = (Panic, rl2) \<and> poisoned rl2"
proof -
  obtain v rl' j where a: "admin_add_rpc sample_admin 2 (new_lock [demo_rpc 1 7 2]) (Some (add_params ''x'')) = (Ret (Inr v), rl', j)"
    using added_sample [of "''x''"] by (auto simp: param_text_def sample_admin_def sample_serde_def remove_char_def)
  have "param_text (adm_codec sample_admin) (add_params ''x'' ! 4) = ''x''"
    by (simp add: param_text_def sample_admin_def sample_serde_def remove_char_def add_params_def)
  moreover have "parse_f64 ''x'' = None" by code_simp
  ultimately have "f64_to_uint (or_default (Fin 0) (parse_f64 (param_text (adm_codec sample_admin) (add_params ''x'' ! 4)))) = (0 :: usize)"
    by (simp add: or_default_def)
  from endpoint_without_average_poisons_the_list [OF a this, of 5] show ?thesis
    by (auto simp: new_lock_def demo_rpc_def)
qed

end
