(* ===== verification/Pools.thy ===== *)
theory Pools
  imports AdminMethods
begin

text \<open>
  The two endpoint lists as all tasks of the program see them. Each task changes them in short
  sections under their locks, in any order: the two halves of a health-check round
  (\<open>src/src/health/check.rs\<close>), working with answers that may be out of date by then; the
  selection and the latency updates of requests (\<open>src/src/balancer/accept_http.rs\<close>,
  \<open>src/src/websocket/client.rs\<close>); dropped connections; and the admin methods
  (\<open>src/src/admin/methods.rs\<close>). An event is one such section, a run any sequence of them.
\<close>

section \<open>Events\<close>

record pools =
  pl_active :: "rpc list rwlock"
  pl_poverty :: "rpc list rwlock"
  pl_next :: usize

datatype pool_event =
    Demote "head_result list"
  | Promote "head_result list" u64
  | Chosen "rpc list \<Rightarrow> (rpc \<times> nat option) \<times> rpc list" rpc
  | Measured usize nat
  | Lost usize
  | AddedActive admin_env "json list option"
  | AddedPoverty admin_env "json list option"
  | RemovedActive admin_env "json list option"
  | RemovedPoverty admin_env "json list option"

definition with_lists :: "pools \<Rightarrow> rpc list \<Rightarrow> rpc list \<Rightarrow> pools" where
  "with_lists p rl pl =
     p\<lparr>pl_active := (pl_active p)\<lparr>contents := rl\<rparr>, pl_poverty := (pl_poverty p)\<lparr>contents := pl\<rparr>\<rparr>"

abbreviation act_list :: "pools \<Rightarrow> rpc list" where
  "act_list p \<equiv> contents (pl_active p)"

abbreviation pov_list :: "pools \<Rightarrow> rpc list" where
  "pov_list p \<equiv> contents (pl_poverty p)"

fun pool_act :: "pool_event \<Rightarrow> pools \<Rightarrow> pools" where
  "pool_act (Demote heads) p =
     (case make_poverty (act_list p) (pov_list p) heads of (h, rl, pl) \<Rightarrow> with_lists p rl pl)"
| "pool_act (Promote heads agreed) p =
     (case escape_poverty (act_list p) (pov_list p) heads agreed of (u, rl, pl) \<Rightarrow> with_lists p rl pl)"
| "pool_act (Chosen alg dflt) p = with_lists p (snd (pick alg dflt (act_list p))) (pov_list p)"
| "pool_act (Measured i nanos) p = p\<lparr>pl_active := snd (update_rpc_latency (pl_active p) i nanos)\<rparr>"
| "pool_act (Lost i) p =
     (case send_dropped_to_poverty i (act_list p) (pov_list p) of (rl, pl) \<Rightarrow> with_lists p rl pl)"
| "pool_act (AddedActive A ps) p =
     (case admin_add_rpc A (pl_next p) (pl_active p) ps of (r, l, n) \<Rightarrow> p\<lparr>pl_active := l, pl_next := n\<rparr>)"
| "pool_act (AddedPoverty A ps) p =
     (case admin_add_rpc A (pl_next p) (pl_poverty p) ps of (r, l, n) \<Rightarrow> p\<lparr>pl_poverty := l, pl_next := n\<rparr>)"
| "pool_act (RemovedActive A ps) p = p\<lparr>pl_active := snd (admin_remove_rpc A (pl_active p) ps)\<rparr>"
| "pool_act (RemovedPoverty A ps) p = p\<lparr>pl_poverty := snd (admin_remove_rpc A (pl_poverty p) ps)\<rparr>"

text \<open>The selection is one of the algorithms of the program, or any other that keeps what they
  keep; the counter of ids has not reached its end when an endpoint is added.\<close>

fun allowed :: "pool_event \<Rightarrow> pools \<Rightarrow> bool" where
  "allowed (Chosen alg dflt) p = selector alg"
| "allowed (AddedActive A ps) p = (pl_next p \<noteq> - 1)"
| "allowed (AddedPoverty A ps) p = (pl_next p \<noteq> - 1)"
| "allowed e p = True"

inductive pool_run :: "(pool_event \<Rightarrow> bool) \<Rightarrow> pools \<Rightarrow> pools \<Rightarrow> bool" for P :: "pool_event \<Rightarrow> bool" and p0 :: pools where
  run_nil: "pool_run P p0 p0"
| run_event: "pool_run P p0 p \<Longrightarrow> P e \<Longrightarrow> allowed e p \<Longrightarrow> pool_run P p0 (pool_act e p)"

section \<open>What every event keeps\<close>

text \<open>No id twice, in one list or across the two; no endpoint of the active list is flagged; the
  counter is beyond every id.\<close>

definition pools_sound :: "pools \<Rightarrow> bool" where
  "pools_sound p \<longleftrightarrow>
     distinct (map rpc_id (act_list p)) \<and> distinct (map rpc_id (pov_list p)) \<and>
     ids (act_list p) \<inter> ids (pov_list p) = {} \<and>
     (\<forall>r\<in>set (act_list p). \<not> is_erroring (status r)) \<and>
     (\<forall>i\<in>ids (act_list p) \<union> ids (pov_list p). i < pl_next p)"

lemma with_lists_active [simp]: "act_list (with_lists p rl pl) = rl"
  by (simp add: with_lists_def)

lemma with_lists_poverty [simp]: "pov_list (with_lists p rl pl) = pl"
  by (simp add: with_lists_def)

lemma with_lists_next [simp]: "pl_next (with_lists p rl pl) = pl_next p"
  by (simp add: with_lists_def)

lemma pools_soundD:
  assumes "pools_sound p"
  shows "distinct (map rpc_id (act_list p))" "distinct (map rpc_id (pov_list p))"
    "ids (act_list p) \<inter> ids (pov_list p) = {}" "ids (pov_list p) \<inter> ids (act_list p) = {}"
    "\<forall>r\<in>set (act_list p). \<not> is_erroring (status r)"
    "\<forall>i\<in>ids (act_list p) \<union> ids (pov_list p). i < pl_next p"
  using assms by (simp_all add: pools_sound_def Int_commute)

lemma sound_with_lists:
  assumes "pools_sound p" "distinct (map rpc_id rl)" "distinct (map rpc_id pl)" "ids rl \<inter> ids pl = {}"
    and "\<forall>r\<in>set rl. \<not> is_erroring (status r)"
    and "ids rl \<union> ids pl \<subseteq> ids (act_list p) \<union> ids (pov_list p)"
  shows "pools_sound (with_lists p rl pl)"
proof -
  have "\<forall>i\<in>ids rl \<union> ids pl. i < pl_next p" using pools_soundD(6) [OF assms(1)] assms(6) by (meson subsetD)
  with assms(2-5) show ?thesis unfolding pools_sound_def by simp
qed

lemma demote_sound: "pools_sound p \<Longrightarrow> pools_sound (pool_act (Demote heads) p)"
proof -
  assume p: "pools_sound p"
  let ?M = "moved (behind (highest_head heads)) heads"
  obtain new where new:
    "foldl (\<lambda>st h. if behind (highest_head heads) h then flag_and_copy True (hr_id h) st else st) (act_list p, pov_list p) heads =
       (map (\<lambda>r. if rpc_id r \<in> ?M then set_erroring True r else r) (act_list p), pov_list p @ new)"
    "ids new = ids (act_list p) \<inter> ?M" "distinct (map rpc_id new)"
    using move_fold [of "act_list p" "pov_list p" "behind (highest_head heads)" True heads]
      pools_soundD(1-3) [OF p] by blast
  let ?rl = "filter (\<lambda>r. rpc_id r \<notin> ?M) (act_list p)"
  have "filter (\<lambda>r. \<not> is_erroring (status r))
      (map (\<lambda>r. if rpc_id r \<in> ?M then set_erroring True r else r) (act_list p)) = ?rl"
    using filter_moved [of "act_list p" True ?M] pools_soundD(5) [OF p] by simp
  then have act: "pool_act (Demote heads) p = with_lists p ?rl (pov_list p @ new)"
    using new(1) by (simp add: make_poverty_def Let_def)
  have "pools_sound (with_lists p ?rl (pov_list p @ new))"
  proof (rule sound_with_lists [OF p])
    show "distinct (map rpc_id ?rl)" using pools_soundD(1) [OF p] by (simp add: distinct_map_filter)
    show "distinct (map rpc_id (pov_list p @ new))" using pools_soundD(2,4) [OF p] new(2,3) by auto
    show "ids ?rl \<inter> ids (pov_list p @ new) = {}" using pools_soundD(3) [OF p] new(2) by auto
    show "\<forall>r\<in>set ?rl. \<not> is_erroring (status r)" using pools_soundD(5) [OF p] by auto
    show "ids ?rl \<union> ids (pov_list p @ new) \<subseteq> ids (act_list p) \<union> ids (pov_list p)" using new(2) by auto
  qed
  then show ?thesis unfolding act .
qed
text \<open>What escapes is unflagged in the poverty list and so leaves it; what was never flagged leaves
  it too.\<close>

lemma promote_sound: "pools_sound p \<Longrightarrow> pools_sound (pool_act (Promote heads agreed) p)"
proof -
  assume p: "pools_sound p"
  note ok = pools_soundD [OF p]
  let ?M = "moved (following agreed) heads"
  obtain new where new:
    "foldl (\<lambda>st h. if following agreed h then flag_and_copy False (hr_id h) st else st) (pov_list p, act_list p) heads =
       (map (\<lambda>r. if rpc_id r \<in> ?M then set_erroring False r else r) (pov_list p), act_list p @ new)"
    "ids new = ids (pov_list p) \<inter> ?M" "distinct (map rpc_id new)" "set new \<subseteq> set_erroring False ` set (pov_list p)"
    using move_fold [of "pov_list p" "act_list p" "following agreed" False heads] ok(1,2,4) by blast
  let ?pl = "filter (\<lambda>r. is_erroring (status r)) (filter (\<lambda>r. rpc_id r \<notin> ?M) (pov_list p))"
  have "filter (\<lambda>r. is_erroring (status r))
      (map (\<lambda>r. if rpc_id r \<in> M then set_erroring False r else r) l) =
      filter (\<lambda>r. is_erroring (status r)) (filter (\<lambda>r. rpc_id r \<notin> M) l)" for M l
    by (induction l) (auto simp: pool_simps)
  then have act: "pool_act (Promote heads agreed) p = with_lists p (act_list p @ new) ?pl"
    using new(1) by (simp add: escape_poverty_def Let_def)
  have "pools_sound (with_lists p (act_list p @ new) ?pl)"
  proof (rule sound_with_lists [OF p])
    show "distinct (map rpc_id (act_list p @ new))" using ok(1,3) new(2,3) by auto
    show "distinct (map rpc_id ?pl)" using ok(2) by (simp add: distinct_map_filter)
    have "ids ?pl \<subseteq> ids (pov_list p)" "ids ?pl \<inter> ?M = {}" by auto
    then have "(ids (act_list p) \<union> ids new) \<inter> ids ?pl = {}" unfolding new(2) using ok(3) by blast
    then show "ids (act_list p @ new) \<inter> ids ?pl = {}" unfolding set_append image_Un .
    show "\<forall>r\<in>set (act_list p @ new). \<not> is_erroring (status r)"
      using ok(5) new(4) by (auto simp: pool_simps)
    show "ids (act_list p @ new) \<union> ids ?pl \<subseteq> ids (act_list p) \<union> ids (pov_list p)" using new(2) by auto
  qed
  then show ?thesis unfolding act .
qed

lemma core_erroring: "is_erroring (status (core r)) = is_erroring (status r)" "rpc_id (core r) = rpc_id r"
  by (simp_all add: core_def)

lemma core_flags:
  assumes "map core l' = map core l"
  shows "map rpc_id l' = map rpc_id l" "(\<forall>r\<in>set l'. \<not> is_erroring (status r)) = (\<forall>r\<in>set l. \<not> is_erroring (status r))"
proof -
  have "map (\<lambda>r. f (core r)) l' = map (\<lambda>r. f (core r)) l" for f :: "rpc \<Rightarrow> 'a"
    using assms by (metis (no_types, lifting) comp_apply map_eq_conv map_map)
  from this [of rpc_id] this [of "\<lambda>r. is_erroring (status r)"]
  show "map rpc_id l' = map rpc_id l" "(\<forall>r\<in>set l'. \<not> is_erroring (status r)) = (\<forall>r\<in>set l. \<not> is_erroring (status r))"
    by (simp_all add: core_erroring) (metis (no_types, lifting) image_iff image_set)
qed

lemma chosen_sound:
  assumes "pools_sound p" "selector alg"
  shows "pools_sound (pool_act (Chosen alg dflt) p)"
proof -
  let ?l = "snd (pick alg dflt (act_list p))"
  have "map core ?l = map core (act_list p)" by (rule selector.pick_core [OF assms(2)])
  note c = core_flags [OF this] and ok = pools_soundD [OF assms(1)]
  have i: "ids ?l = ids (act_list p)" using c(1) by (metis image_set)
  have "pools_sound (with_lists p ?l (pov_list p))"
    by (rule sound_with_lists [OF assms(1)]) (use ok c i in auto)
  then show ?thesis by simp
qed

lemma measured_flags:
  assumes "update_rpc_latency l i nanos = (res, l')"
  shows "map rpc_id (contents l') = map rpc_id (contents l)"
    "(\<forall>r\<in>set (contents l). \<not> is_erroring (status r)) \<Longrightarrow> (\<forall>r\<in>set (contents l'). \<not> is_erroring (status r))"
proof -
  have "map rpc_id (contents l') = map rpc_id (contents l) \<and>
    map (\<lambda>r. is_erroring (status r)) (contents l') = map (\<lambda>r. is_erroring (status r)) (contents l)"
  proof (cases "position (\<lambda>r. rpc_id r = i) (contents l)")
    case None
    with assms show ?thesis by (simp add: update_rpc_latency_def)
  next
    case (Some j)
    then have j: "j < length (contents l)" using position_Some by blast
    show ?thesis
    proof (cases "update_latency (f64_of_nat nanos) (contents l ! j)")
      case Panic
      with assms Some show ?thesis by (auto simp: update_rpc_latency_def)
    next
      case (Ret r)
      with assms Some have "contents l' = (contents l)[j := r]" by (auto simp: update_rpc_latency_def)
      then show ?thesis using j update_latency_ids(1,2) [OF Ret] by (simp add: map_update list_update_same_conv)
    qed
  qed
  then show "map rpc_id (contents l') = map rpc_id (contents l)"
    "(\<forall>r\<in>set (contents l). \<not> is_erroring (status r)) \<Longrightarrow> (\<forall>r\<in>set (contents l'). \<not> is_erroring (status r))"
    by (simp, metis (no_types, lifting) image_iff image_set)
qed

lemma measured_sound: "pools_sound p \<Longrightarrow> pools_sound (pool_act (Measured i nanos) p)"
proof -
  assume p: "pools_sound p"
  obtain res l where u: "update_rpc_latency (pl_active p) i nanos = (res, l)" by fastforce
  note m = measured_flags [OF u] and ok = pools_soundD [OF p]
  have "ids (contents l) = ids (act_list p)" using m(1) by (metis image_set)
  with ok m(1) m(2) [OF ok(5)] show ?thesis unfolding pools_sound_def by (simp add: u)
qed

lemma ids_remove_at:
  assumes "i < length l" "distinct (map rpc_id l)"
  shows "ids (remove_at i l) = ids l - {rpc_id (l ! i)}" "distinct (map rpc_id (remove_at i l))"
    "set (remove_at i l) \<subseteq> set l"
proof -
  have m: "mset (map rpc_id l) = add_mset (rpc_id (l ! i)) (mset (map rpc_id (remove_at i l)))"
    using mset_remove_at [OF assms(1)] by simp
  then have "distinct (rpc_id (l ! i) # map rpc_id (remove_at i l))"
    using assms(2) mset_eq_imp_distinct_iff [of "map rpc_id l" "rpc_id (l ! i) # map rpc_id (remove_at i l)"] by simp
  moreover have "set (map rpc_id l) = insert (rpc_id (l ! i)) (set (map rpc_id (remove_at i l)))"
    using mset_eq_setD [of "map rpc_id l" "rpc_id (l ! i) # map rpc_id (remove_at i l)"] m by simp
  ultimately show "ids (remove_at i l) = ids l - {rpc_id (l ! i)}" "distinct (map rpc_id (remove_at i l))"
    by auto
  show "set (remove_at i l) \<subseteq> set l" by (auto simp: remove_at_def dest: in_set_takeD in_set_dropD)
qed

lemma lost_sound: "pools_sound p \<Longrightarrow> pools_sound (pool_act (Lost i) p)"
proof -
  assume p: "pools_sound p"
  note ok = pools_soundD [OF p]
  show ?thesis
  proof (cases "position (\<lambda>r. rpc_id r = i) (act_list p)")
    case None
    then have "pool_act (Lost i) p = with_lists p (act_list p) (pov_list p)"
      by (simp add: send_dropped_to_poverty_def)
    then show ?thesis using sound_with_lists [OF p ok(1,2,3,5)] by simp
  next
    case (Some j)
    from position_Some [OF Some] have j: "j < length (act_list p)" "rpc_id (act_list p ! j) = i" by auto
    then have mem: "i \<in> ids (act_list p)" using nth_mem by blast
    note rm = ids_remove_at [OF j(1) ok(1)]
    have "\<not> has_id i (pov_list p)" using mem ok(3) unfolding has_id_iff by blast
    then have act: "pool_act (Lost i) p =
        with_lists p (remove_at j (act_list p)) (pov_list p @ [act_list p ! j])"
      using Some by (simp add: send_dropped_to_poverty_def)
    have new: "ids (pov_list p @ [act_list p ! j]) = insert i (ids (pov_list p))" using j(2) by simp
    show ?thesis unfolding act
    proof (rule sound_with_lists [OF p rm(2)])
      show "distinct (map rpc_id (pov_list p @ [act_list p ! j]))"
        using ok(2,3) mem j(2) by auto
      show "ids (remove_at j (act_list p)) \<inter> ids (pov_list p @ [act_list p ! j]) = {}"
        unfolding new rm(1) j(2) using ok(3) by blast
      show "\<forall>r\<in>set (remove_at j (act_list p)). \<not> is_erroring (status r)" using ok(5) rm(3) by blast
      show "ids (remove_at j (act_list p)) \<union> ids (pov_list p @ [act_list p ! j]) \<subseteq> ids (act_list p) \<union> ids (pov_list p)"
        unfolding new rm(1) using mem by blast
    qed
  qed
qed

lemma add_effect:
  assumes "admin_add_rpc A i l ps = (res, l', j)"
  shows "contents l' = contents l \<and> j = i \<or>
         (\<exists>r. contents l' = contents l @ [r] \<and> rpc_id r = i \<and> \<not> is_erroring (status r) \<and> j = i + 1)"
  using assms
  by (auto simp: admin_add_rpc_def rpc_new_def status_default_def Let_def
      split: if_splits option.splits prod.splits)

lemma remove_effect:
  assumes "admin_remove_rpc A l ps = (res, l')" "distinct (map rpc_id (contents l))"
  shows "distinct (map rpc_id (contents l'))" "set (contents l') \<subseteq> set (contents l)"
proof -
  have "contents l' = contents l \<or> (\<exists>i<length (contents l). contents l' = remove_at i (contents l))"
    using assms(1) by (auto simp: admin_remove_rpc_def not_le split: if_splits option.splits)
  then show "distinct (map rpc_id (contents l'))" "set (contents l') \<subseteq> set (contents l)"
    using ids_remove_at(2,3) [OF _ assms(2)] assms(2) by (metis, metis order_refl)
qed

lemma next_id_above:
  assumes "n \<noteq> (- 1 :: usize)"
  shows "n < n + 1" "i < n \<Longrightarrow> i < n + 1"
proof -
  have "1 + n \<noteq> 0" using assms by (metis add.commute add.right_cancel add.left_inverse)
  then have "unat (n + 1) = Suc (unat n)" by (simp add: unatSuc add.commute)
  then show "n < n + 1" "i < n \<Longrightarrow> i < n + 1" by (simp_all add: word_less_nat_alt)
qed

lemma added_sound:
  assumes "pools_sound p" "allowed (AddedActive A ps) p"
  shows "pools_sound (pool_act (AddedActive A ps) p)" "pools_sound (pool_act (AddedPoverty A ps) p)"
proof -
  note ok = pools_soundD [OF assms(1)]
  have up: "pl_next p < pl_next p + 1" "\<And>i. i < pl_next p \<Longrightarrow> i < pl_next p + 1"
    using next_id_above [of "pl_next p"] assms(2) by auto
  have fresh: "pl_next p \<notin> ids (act_list p)" "pl_next p \<notin> ids (pov_list p)"
    using ok(6) by (meson UnI1 UnI2 less_irrefl)+
  obtain res l j where a: "admin_add_rpc A (pl_next p) (pl_active p) ps = (res, l, j)" by (metis prod.collapse)
  from add_effect [OF a] show "pools_sound (pool_act (AddedActive A ps) p)"
  proof
    assume "contents l = act_list p \<and> j = pl_next p"
    with a ok show ?thesis unfolding pools_sound_def by simp
  next
    assume "\<exists>r. contents l = act_list p @ [r] \<and> rpc_id r = pl_next p \<and> \<not> is_erroring (status r) \<and> j = pl_next p + 1"
    then obtain r where r: "contents l = act_list p @ [r]" "rpc_id r = pl_next p" "\<not> is_erroring (status r)"
      "j = pl_next p + 1" by blast
    have "\<forall>i\<in>ids (contents l) \<union> ids (pov_list p). i < j" using ok(6) up r by auto
    with a ok(1-5) fresh r show ?thesis unfolding pools_sound_def by simp
  qed
  obtain res l j where a: "admin_add_rpc A (pl_next p) (pl_poverty p) ps = (res, l, j)" by (metis prod.collapse)
  from add_effect [OF a] show "pools_sound (pool_act (AddedPoverty A ps) p)"
  proof
    assume "contents l = pov_list p \<and> j = pl_next p"
    with a ok show ?thesis unfolding pools_sound_def by simp
  next
    assume "\<exists>r. contents l = pov_list p @ [r] \<and> rpc_id r = pl_next p \<and> \<not> is_erroring (status r) \<and> j = pl_next p + 1"
    then obtain r where r: "contents l = pov_list p @ [r]" "rpc_id r = pl_next p" "j = pl_next p + 1" by blast
    have "\<forall>i\<in>ids (act_list p) \<union> ids (contents l). i < j" using ok(6) up r by auto
    with a ok(1-5) fresh r show ?thesis unfolding pools_sound_def by simp
  qed
qed

lemma removed_sound:
  assumes "pools_sound p"
  shows "pools_sound (pool_act (RemovedActive A ps) p)" "pools_sound (pool_act (RemovedPoverty A ps) p)"
proof -
  note ok = pools_soundD [OF assms]
  obtain res l where a: "admin_remove_rpc A (pl_active p) ps = (res, l)" by fastforce
  note r = remove_effect [OF a ok(1)]
  have "ids (contents l) \<subseteq> ids (act_list p)" using r(2) by auto
  then have "ids (contents l) \<inter> ids (pov_list p) = {}" "\<forall>i\<in>ids (contents l) \<union> ids (pov_list p). i < pl_next p"
    using ok(3,6) by blast+
  moreover have "\<forall>r\<in>set (contents l). \<not> is_erroring (status r)" using r(2) ok(5) by blast
  ultimately show "pools_sound (pool_act (RemovedActive A ps) p)"
    using a r(1) ok(2) unfolding pools_sound_def by simp
  obtain res l where a: "admin_remove_rpc A (pl_poverty p) ps = (res, l)" by fastforce
  note r = remove_effect [OF a ok(2)]
  have "ids (contents l) \<subseteq> ids (pov_list p)" using r(2) by auto
  then have "ids (act_list p) \<inter> ids (contents l) = {}" "\<forall>i\<in>ids (act_list p) \<union> ids (contents l). i < pl_next p"
    using ok(3,6) by blast+
  then show "pools_sound (pool_act (RemovedPoverty A ps) p)"
    using a r(1) ok(1,5) unfolding pools_sound_def by simp
qed

lemma event_sound:
  assumes "pools_sound p" "allowed e p"
  shows "pools_sound (pool_act e p)"
proof (cases e)
  case (Demote heads) then show ?thesis using demote_sound [OF assms(1)] by simp
next
  case (Promote heads agreed) then show ?thesis using promote_sound [OF assms(1)] by simp
next
  case (Chosen alg d) then show ?thesis using chosen_sound [OF assms(1)] assms(2) by simp
next
  case (Measured i n) then show ?thesis using measured_sound [OF assms(1)] by simp
next
  case (Lost i) then show ?thesis using lost_sound [OF assms(1)] by simp
next
  case (AddedActive A ps) then show ?thesis using added_sound(1) [OF assms(1)] assms(2) by simp
next
  case (AddedPoverty A ps) then show ?thesis using added_sound(2) [OF assms(1)] assms(2) by simp
next
  case (RemovedActive A ps) then show ?thesis using removed_sound(1) [OF assms(1)] by simp
next
  case (RemovedPoverty A ps) then show ?thesis using removed_sound(2) [OF assms(1)] by simp
qed

section \<open>Rounds among other events\<close>

text \<open>A health-check round without interference is its two events one after the other.\<close>

lemma round_as_events:
  assumes "check S n1 n2 limit (act_list p) (pov_list p) = Some (upd, rl, pl)"
  obtains heads pheads where
    "pool_act (Promote pheads (highest_head heads)) (pool_act (Demote heads) p) = with_lists p rl pl"
proof -
  obtain heads rl1 pl1 pheads where c: "make_poverty (act_list p) (pov_list p) heads = (highest_head heads, rl1, pl1)"
    "escape_poverty rl1 pl1 pheads (highest_head heads) = (upd, rl, pl)"
    by (rule check_Some [OF assms])
  have "pool_act (Demote heads) p = with_lists p rl1 pl1" using c(1) by simp
  with c(2) that [of pheads heads] show thesis by (simp add: with_lists_def)
qed

text \<open>The events of a program whose connections hold and whose admin stays silent.\<close>

fun quiet :: "pool_event \<Rightarrow> bool" where
  "quiet (Demote heads) = True"
| "quiet (Promote heads agreed) = True"
| "quiet (Chosen alg dflt) = True"
| "quiet (Measured i nanos) = True"
| "quiet e = False"

definition endpoints :: "pools \<Rightarrow> usize set" where
  "endpoints p = ids (act_list p) \<union> ids (pov_list p)"

lemma quiet_event_conserves:
  assumes "pool_ok (act_list p) (pov_list p)" "quiet e" "allowed e p"
  shows "pool_ok (act_list (pool_act e p)) (pov_list (pool_act e p)) \<and> endpoints (pool_act e p) = endpoints p"
proof (cases e)
  case (Demote heads)
  obtain pl1 where m: "make_poverty (act_list p) (pov_list p) heads =
      (highest_head heads, filter (\<lambda>r. rpc_id r \<notin> moved (behind (highest_head heads)) heads) (act_list p), pl1)"
    "ids pl1 = ids (pov_list p) \<union> (ids (act_list p) \<inter> moved (behind (highest_head heads)) heads)"
    "pool_ok (filter (\<lambda>r. rpc_id r \<notin> moved (behind (highest_head heads)) heads) (act_list p)) pl1"
    using make_poverty_effect [OF assms(1), of heads] by blast
  then show ?thesis using Demote by (auto simp: endpoints_def)
next
  case (Promote heads agreed)
  obtain u rl1 where m: "escape_poverty (act_list p) (pov_list p) heads agreed =
      (u, rl1, filter (\<lambda>r. rpc_id r \<notin> moved (following agreed) heads) (pov_list p))"
    "ids rl1 = ids (act_list p) \<union> (ids (pov_list p) \<inter> moved (following agreed) heads)"
    "pool_ok rl1 (filter (\<lambda>r. rpc_id r \<notin> moved (following agreed) heads) (pov_list p))"
    using escape_poverty_effect [OF assms(1), of heads agreed] by blast
  then show ?thesis using Promote by (auto simp: endpoints_def)
next
  case (Chosen alg dflt)
  then have sel: "selector alg" using assms(3) by simp
  note c = core_flags [OF selector.pick_core [OF sel, of dflt "act_list p"]]
  have "ids (snd (pick alg dflt (act_list p))) = ids (act_list p)" using c(1) by (metis image_set)
  with c assms(1) Chosen show ?thesis by (simp add: pool_ok_def endpoints_def)
next
  case (Measured i nanos)
  obtain res l where u: "update_rpc_latency (pl_active p) i nanos = (res, l)" by fastforce
  note m = measured_flags [OF u]
  have "ids (contents l) = ids (act_list p)" using m(1) by (metis image_set)
  with m assms(1) Measured u show ?thesis by (simp add: pool_ok_def endpoints_def)
qed (use assms(2) in simp_all)

lemma run_sound: "pool_run P p q \<Longrightarrow> pools_sound p \<Longrightarrow> pools_sound q"
  by (induction rule: pool_run.induct) (auto intro: event_sound simp del: pool_act.simps)

lemma quiet_run_conserves:
  "pool_run quiet p q \<Longrightarrow> pool_ok (act_list p) (pov_list p) \<Longrightarrow>
     pool_ok (act_list q) (pov_list q) \<and> endpoints q = endpoints p"
  by (induction rule: pool_run.induct) (use quiet_event_conserves in \<open>auto simp del: pool_act.simps\<close>)

section \<open>Properties\<close>

text \<open>C1. In every reachable state the lists are sound: starting with lists in which no id occurs
  twice and no active endpoint is flagged, no interleaving of health checks (working with
  answers however old), requests, dropped connections and admin methods ever puts an endpoint
  into a list twice or into both lists, or leaves a flagged endpoint active.\<close>

theorem every_interleaving_is_sound:
  assumes "pool_run P p q" "pools_sound p"
  shows "pools_sound q \<and> distinct (map rpc_id (act_list q @ pov_list q)) \<and>
         (\<forall>r\<in>set (act_list q). \<not> is_erroring (status r))"
  using run_sound [OF assms] pools_soundD [of q] by simp

definition demo_pools :: pools where
  "demo_pools = \<lparr>pl_active = new_lock demo_pool, pl_poverty = new_lock [], pl_next = 4\<rparr>"

lemma demo_pools_sound: "pools_sound demo_pools" "pool_ok (act_list demo_pools) (pov_list demo_pools)"
  by (simp_all add: pools_sound_def pool_ok_def demo_pools_def new_lock_def demo_pool_def demo_rpc_def status_default_def)

theorem every_interleaving_is_sound_witness:
  "distinct (map rpc_id (act_list (pool_act (Lost 2) demo_pools) @ pov_list (pool_act (Lost 2) demo_pools))) \<and>
   map rpc_id (pov_list (pool_act (Lost 2) demo_pools)) = [2]"
proof -
  have "pool_run (\<lambda>_. True) demo_pools (pool_act (Lost 2) demo_pools)"
    by (intro run_event run_nil) simp_all
  from every_interleaving_is_sound [OF this demo_pools_sound(1)]
  show ?thesis by (simp add: demo_pools_def new_lock_def demo_pool_def demo_rpc_def send_dropped_to_poverty_def has_id_def)
qed

text \<open>C2. No endpoint is lost while connections hold and the admin is silent: health-check events
  with arbitrary answers, selections and latency updates, in any order, keep every endpoint in
  exactly one list with the flag of that list.\<close>

theorem quiet_runs_conserve_endpoints:
  assumes "pool_run quiet p q" "pool_ok (act_list p) (pov_list p)"
  shows "pool_ok (act_list q) (pov_list q) \<and> endpoints q = endpoints p"
  by (rule quiet_run_conserves [OF assms])

theorem quiet_runs_conserve_endpoints_witness:
  "endpoints (pool_act (Demote [\<lparr>hr_id = 1, hr_syncing = True, hr_head = 0\<rparr>]) demo_pools) = {1, 2, 3} \<and>
   map rpc_id (pov_list (pool_act (Demote [\<lparr>hr_id = 1, hr_syncing = True, hr_head = 0\<rparr>]) demo_pools)) = [1]"
proof -
  have "pool_run quiet demo_pools (pool_act (Demote [\<lparr>hr_id = 1, hr_syncing = True, hr_head = 0\<rparr>]) demo_pools)"
    by (intro run_event run_nil) simp_all
  from quiet_runs_conserve_endpoints [OF this demo_pools_sound(2)]
  show ?thesis
    by (auto simp: endpoints_def demo_pools_def new_lock_def demo_pool_def demo_rpc_def make_poverty_def
        flag_and_copy_def behind_def highest_head_def has_id_def set_erroring_def Let_def)
qed

end
