(* ===== verification/SubSpec.thy ===== *)
theory SubSpec
  imports SubManager
begin

text \<open>
  The abstract specification of the tables of \<open>src/src/websocket/types.rs\<close>: a relation between
  users and subscriptions of nodes, the subscriptions that exist, and which parameters are
  registered for which subscription. Every operation of the tables is the matching operation
  of the relation, for any sequence of operations, and the tables keep the form in which a
  user is delivered a notification once.
\<close>

section \<open>The specification\<close>

record pubsub =
  ps_users :: "u32 \<rightharpoonup> channel"
  ps_subscribed :: "(node_sub_info \<times> u32) set"
  ps_known :: "node_sub_info set"
  ps_registered :: "string \<rightharpoonup> node_sub_info"

definition abs_tables :: "sub_data \<Rightarrow> pubsub" where
  "abs_tables sd =
     \<lparr>ps_users = map_of (users sd),
      ps_subscribed = {(i, u). \<exists>us. subscribers sd i = Some us \<and> u \<in> set us},
      ps_known = {i. subscribers sd i \<noteq> None},
      ps_registered = registered sd\<rparr>"

datatype table_op =
    AddUser u32 channel
  | RemoveUser u32
  | Register string string usize
  | Unregister string
  | Join u32 string
  | Leave u32 string
  | LeaveAll u32
  | Notify "channel \<Rightarrow> bool" string usize json

fun table_act :: "table_op \<Rightarrow> sub_data \<Rightarrow> sub_data" where
  "table_act (AddUser u ch) sd = add_user u ch sd"
| "table_act (RemoveUser u) sd = remove_user u sd"
| "table_act (Register key s n) sd = raw_register key s n sd"
| "table_act (Unregister key) sd = unregister_subscription key sd"
| "table_act (Join u key) sd = snd (raw_subscribe u key sd)"
| "table_act (Leave u s) sd = unsubscribe_user u s sd"
| "table_act (LeaveAll u) sd = unsubscribe_user_from_all u sd"
| "table_act (Notify alive s n v) sd = fst (snd (dispatch_to_subscribers alive s n (SubscriptionResult v) sd))"

text \<open>The users a notification finds subscribed with a closed connection. A subscription without
  users is unregistered under its id, as the code does it.\<close>

definition gone_users :: "(channel \<Rightarrow> bool) \<Rightarrow> node_sub_info \<Rightarrow> pubsub \<Rightarrow> u32 set" where
  "gone_users alive i ps = {u. (i, u) \<in> ps_subscribed ps \<and> (\<exists>ch. ps_users ps u = Some ch \<and> \<not> alive ch)}"

definition drop_users :: "u32 set \<Rightarrow> pubsub \<Rightarrow> pubsub" where
  "drop_users U ps =
     ps\<lparr>ps_users := (\<lambda>u. if u \<in> U then None else ps_users ps u),
        ps_subscribed := {(i, u). (i, u) \<in> ps_subscribed ps \<and> u \<notin> U}\<rparr>"

fun spec_act :: "table_op \<Rightarrow> pubsub \<Rightarrow> pubsub" where
  "spec_act (AddUser u ch) ps = ps\<lparr>ps_users := (ps_users ps)(u \<mapsto> ch)\<rparr>"
| "spec_act (RemoveUser u) ps = drop_users {u} ps"
| "spec_act (Register key s n) ps =
     ps\<lparr>ps_registered := (ps_registered ps)(key \<mapsto> \<lparr>node_id = n, subscription_id = s\<rparr>)\<rparr>"
| "spec_act (Unregister key) ps = ps\<lparr>ps_registered := (ps_registered ps)(key := None)\<rparr>"
| "spec_act (Join u key) ps =
     (case ps_registered ps key of
        None \<Rightarrow> ps
      | Some i \<Rightarrow> ps\<lparr>ps_subscribed := insert (i, u) (ps_subscribed ps), ps_known := insert i (ps_known ps)\<rparr>)"
| "spec_act (Leave u s) ps =
     ps\<lparr>ps_subscribed := {(i, v). (i, v) \<in> ps_subscribed ps \<and> \<not> (subscription_id i = s \<and> v = u)}\<rparr>"
| "spec_act (LeaveAll u) ps = ps\<lparr>ps_subscribed := {(i, v). (i, v) \<in> ps_subscribed ps \<and> v \<noteq> u}\<rparr>"
| "spec_act (Notify alive s n v) ps =
     (let i = \<lparr>node_id = n, subscription_id = s\<rparr>
      in if i \<notin> ps_known ps then ps
         else if \<forall>u. (i, u) \<notin> ps_subscribed ps then ps\<lparr>ps_registered := (ps_registered ps)(s := None)\<rparr>
         else drop_users (gone_users alive i ps) ps)"

section \<open>The form of the tables\<close>

definition tables_ok :: "sub_data \<Rightarrow> bool" where
  "tables_ok sd \<longleftrightarrow>
     distinct (map fst (users sd)) \<and> distinct (map fst (subscriptions sd)) \<and> distinct (map fst (incoming sd)) \<and>
     (\<forall>us\<in>snd ` set (subscriptions sd). distinct us)"

lemma tables_ok_new: "tables_ok sub_data_new"
  by (simp add: tables_ok_def sub_data_new_def)

lemma tables_ok_subscribers: "tables_ok sd \<Longrightarrow> subscribers sd i = Some us \<Longrightarrow> distinct us"
  by (force simp: tables_ok_def subscribers_def dest: map_of_SomeD)

lemma drop_subscriber_keys: "map fst (subscriptions (drop_subscriber P u sd)) = map fst (subscriptions sd)"
  by (auto simp: drop_subscriber_def)

lemma drop_subscriber_ok: "tables_ok sd \<Longrightarrow> tables_ok (drop_subscriber P u sd)"
  unfolding tables_ok_def drop_subscriber_keys by (auto simp: drop_subscriber_def distinct_removeAll)

lemma users_update_ok: "tables_ok sd \<Longrightarrow> distinct (map fst us) \<Longrightarrow> tables_ok (sd\<lparr>users := us\<rparr>)"
  by (simp add: tables_ok_def)

lemma remove_user_ok:
  assumes "tables_ok sd"
  shows "tables_ok (remove_user u sd)"
proof -
  let ?sd1 = "drop_subscriber (\<lambda>i. True) u sd"
  have ok: "tables_ok ?sd1" by (rule drop_subscriber_ok [OF assms])
  then have "distinct (map fst (AList.delete u (users ?sd1)))" by (simp add: tables_ok_def distinct_delete)
  from drop_subscriber_ok [OF users_update_ok [OF ok this]] ok show ?thesis
    by (simp add: remove_user_def unsubscribe_user_from_all_def Let_def)
qed

lemma update_values: "snd ` set (AList.update k v al) \<subseteq> insert v (snd ` set al)"
  by (induction al) auto

lemma subscriptions_update_ok:
  assumes "tables_ok sd" "distinct us"
  shows "tables_ok (sd\<lparr>subscriptions := AList.update i us (subscriptions sd)\<rparr>)"
proof -
  have "\<forall>x\<in>snd ` set (AList.update i us (subscriptions sd)). distinct x"
    using update_values [of i us "subscriptions sd"] assms unfolding tables_ok_def by blast
  moreover have "distinct (map fst (AList.update i us (subscriptions sd)))"
    using assms(1) by (simp only: tables_ok_def distinct_update)
  ultimately show ?thesis using assms(1) unfolding tables_ok_def by simp
qed

lemma raw_subscribe_ok:
  assumes "tables_ok sd"
  shows "tables_ok (snd (raw_subscribe u key sd))"
proof (cases "map_of (incoming sd) key")
  case None
  with assms show ?thesis by (simp add: raw_subscribe_def)
next
  case (Some i)
  have "distinct (List.insert u (case map_of (subscriptions sd) i of None \<Rightarrow> [] | Some us \<Rightarrow> us))"
    using tables_ok_subscribers [OF assms, of i] by (auto simp: subscribers_def split: option.split)
  from subscriptions_update_ok [OF assms this, of i] Some show ?thesis
    by (simp add: raw_subscribe_def)
qed

lemma fold_remove_ok:
  "tables_ok sd \<Longrightarrow> tables_ok (fold (\<lambda>(u, ch). if alive ch then id else remove_user u) rs sd)"
proof (induction rs arbitrary: sd)
  case (Cons p rs)
  obtain u ch where "p = (u, ch)" by (cases p)
  with Cons remove_user_ok [OF Cons.prems, of u] show ?case by simp
qed simp

lemma table_act_ok:
  assumes "tables_ok sd"
  shows "tables_ok (table_act op sd)"
proof (cases op)
  case (AddUser u ch)
  with assms show ?thesis by (simp add: tables_ok_def add_user_def distinct_update)
next
  case (RemoveUser u)
  with remove_user_ok [OF assms] show ?thesis by simp
next
  case (Register key s n)
  with assms show ?thesis by (simp add: tables_ok_def raw_register_def distinct_update)
next
  case (Unregister key)
  with assms show ?thesis by (simp add: tables_ok_def unregister_subscription_def distinct_delete)
next
  case (Join u key)
  with raw_subscribe_ok [OF assms] show ?thesis by simp
next
  case (Leave u s)
  with drop_subscriber_ok [OF assms] show ?thesis by (simp add: unsubscribe_user_def)
next
  case (LeaveAll u)
  with drop_subscriber_ok [OF assms] show ?thesis by (simp add: unsubscribe_user_from_all_def)
next
  case (Notify alive s n v)
  have "tables_ok (unregister_subscription s sd)"
    using assms by (simp add: tables_ok_def unregister_subscription_def distinct_delete)
  with Notify assms fold_remove_ok [OF assms] show ?thesis
    by (auto simp: dispatch_to_subscribers_def send_all_eq split: option.split)
qed

section \<open>The refinement\<close>

lemma abs_simps [sub_simps]:
  "ps_users (abs_tables sd) = map_of (users sd)"
  "(i, u) \<in> ps_subscribed (abs_tables sd) \<longleftrightarrow> (\<exists>us. subscribers sd i = Some us \<and> u \<in> set us)"
  "i \<in> ps_known (abs_tables sd) \<longleftrightarrow> subscribers sd i \<noteq> None"
  "ps_registered (abs_tables sd) = registered sd"
  by (simp_all add: abs_tables_def)

lemma pubsub_eqI:
  assumes "ps_users a = ps_users b" "\<And>i u. (i, u) \<in> ps_subscribed a \<longleftrightarrow> (i, u) \<in> ps_subscribed b"
    and "\<And>i. i \<in> ps_known a \<longleftrightarrow> i \<in> ps_known b" "ps_registered a = ps_registered b"
  shows "(a :: pubsub) = b"
proof (cases a; cases b)
  fix ua sa ka ra ub sb kb rb
  assume ab: "a = \<lparr>ps_users = ua, ps_subscribed = sa, ps_known = ka, ps_registered = ra\<rparr>"
    "b = \<lparr>ps_users = ub, ps_subscribed = sb, ps_known = kb, ps_registered = rb\<rparr>"
  have "sa = sb" using assms(2) ab by auto
  moreover have "ka = kb" using assms(3) ab by auto
  ultimately show ?thesis using assms(1,4) ab by simp
qed

lemma drop_users_simps [sub_simps]:
  "ps_users (drop_users U ps) = (\<lambda>u. if u \<in> U then None else ps_users ps u)"
  "(i, u) \<in> ps_subscribed (drop_users U ps) \<longleftrightarrow> (i, u) \<in> ps_subscribed ps \<and> u \<notin> U"
  "ps_known (drop_users U ps) = ps_known ps" "ps_registered (drop_users U ps) = ps_registered ps"
  by (simp_all add: drop_users_def)

lemma drop_users_twice: "drop_users U (drop_users V ps) = drop_users (U \<union> V) ps"
  by (rule pubsub_eqI) (auto simp: sub_simps)

lemma drop_users_none: "drop_users {} ps = ps"
  by (rule pubsub_eqI) (auto simp: sub_simps)

lemma remove_user_refines: "abs_tables (remove_user u sd) = drop_users {u} (abs_tables sd)"
  by (rule pubsub_eqI) (auto simp: sub_simps fun_eq_iff)

lemma fold_remove_refines:
  "abs_tables (fold (\<lambda>(u, ch). if alive ch then id else remove_user u) rs sd) =
     drop_users {u. \<exists>ch. (u, ch) \<in> set rs \<and> \<not> alive ch} (abs_tables sd)"
proof (induction rs arbitrary: sd)
  case Nil
  show ?case by (simp add: drop_users_none)
next
  case (Cons p rs)
  obtain v ch where p: "p = (v, ch)" by (cases p)
  show ?case
  proof (cases "alive ch")
    case True
    then have "{u. \<exists>c. (u, c) \<in> set (p # rs) \<and> \<not> alive c} = {u. \<exists>c. (u, c) \<in> set rs \<and> \<not> alive c}"
      by (auto simp: p)
    with True Cons.IH [of sd] show ?thesis by (simp add: p)
  next
    case False
    then have "{u. \<exists>c. (u, c) \<in> set (p # rs) \<and> \<not> alive c} = {u. \<exists>c. (u, c) \<in> set rs \<and> \<not> alive c} \<union> {v}"
      by (auto simp: p)
    with False Cons.IH [of "remove_user v sd"] show ?thesis
      by (simp add: p remove_user_refines drop_users_twice)
  qed
qed

lemma gone_recipients:
  assumes "subscribers sd i = Some us"
  shows "{u. \<exists>ch. (u, ch) \<in> set (recipients us sd) \<and> \<not> alive ch} = gone_users alive i (abs_tables sd)"
  using assms by (auto simp: gone_users_def recipients_iff sub_simps)

lemma notify_refines:
  "abs_tables (fst (snd (dispatch_to_subscribers alive s n (SubscriptionResult v) sd))) =
     spec_act (Notify alive s n v) (abs_tables sd)"
proof -
  let ?i = "\<lparr>node_id = n, subscription_id = s\<rparr>"
  show ?thesis
  proof (cases "subscribers sd ?i")
    case None
    then have "map_of (subscriptions sd) ?i = None" by (simp add: subscribers_def)
    with None show ?thesis by (simp add: dispatch_to_subscribers_def sub_simps)
  next
    case (Some us)
    then have m: "map_of (subscriptions sd) ?i = Some us" by (simp add: subscribers_def)
    show ?thesis
    proof (cases "us = []")
      case True
      have "abs_tables (unregister_subscription s sd) =
          (abs_tables sd)\<lparr>ps_registered := (ps_registered (abs_tables sd))(s := None)\<rparr>"
        by (rule pubsub_eqI) (auto simp: sub_simps)
      with True Some m show ?thesis by (simp add: dispatch_to_subscribers_def sub_simps)
    next
      case False
      then obtain u where "u \<in> set us" by (cases us) auto
      then have "\<not> (\<forall>u. (?i, u) \<notin> ps_subscribed (abs_tables sd))" using Some by (auto simp: sub_simps)
      moreover have "?i \<in> ps_known (abs_tables sd)" using Some by (simp add: sub_simps)
      ultimately have spec: "spec_act (Notify alive s n v) (abs_tables sd) = drop_users (gone_users alive ?i (abs_tables sd)) (abs_tables sd)"
        by (auto simp: Let_def)
      show ?thesis unfolding spec gone_recipients [OF Some, symmetric]
        using False m by (simp add: dispatch_to_subscribers_def send_all_eq fold_remove_refines)
    qed
  qed
qed

lemma join_refines: "abs_tables (snd (raw_subscribe u key sd)) = spec_act (Join u key) (abs_tables sd)"
proof (cases "registered sd key")
  case None
  then show ?thesis by (simp add: raw_subscribe_None sub_simps)
next
  case (Some i)
  from raw_subscribe_Some [OF Some, of u] obtain sd' where sd': "raw_subscribe u key sd = (Inr (subscription_id i), sd')"
    "registered sd' = registered sd" "users sd' = users sd"
    "subscribers sd' = (subscribers sd)(i \<mapsto> List.insert u (case subscribers sd i of None \<Rightarrow> [] | Some us \<Rightarrow> us))"
    by blast
  have spec: "spec_act (Join u key) (abs_tables sd) =
      (abs_tables sd)\<lparr>ps_subscribed := insert (i, u) (ps_subscribed (abs_tables sd)),
                       ps_known := insert i (ps_known (abs_tables sd))\<rparr>"
    using Some by (simp add: sub_simps)
  have "abs_tables sd' = spec_act (Join u key) (abs_tables sd)" unfolding spec
    by (rule pubsub_eqI) (auto simp: sub_simps sd'(2-4) split: option.split)
  with sd'(1) show ?thesis by simp
qed

lemma table_act_refines: "abs_tables (table_act op sd) = spec_act op (abs_tables sd)"
proof (cases op)
  case (AddUser u ch)
  have "abs_tables (add_user u ch sd) = spec_act (AddUser u ch) (abs_tables sd)"
    by (rule pubsub_eqI) (auto simp: sub_simps add_user_def update_conv' subscribers_def registered_def fun_eq_iff)
  with AddUser show ?thesis by simp
next
  case (RemoveUser u)
  with remove_user_refines show ?thesis by simp
next
  case (Register key s n)
  have "abs_tables (raw_register key s n sd) = spec_act (Register key s n) (abs_tables sd)"
    by (rule pubsub_eqI) (auto simp: sub_simps)
  with Register show ?thesis by simp
next
  case (Unregister key)
  have "abs_tables (unregister_subscription key sd) = spec_act (Unregister key) (abs_tables sd)"
    by (rule pubsub_eqI) (auto simp: sub_simps)
  with Unregister show ?thesis by simp
next
  case (Join u key)
  with join_refines show ?thesis by simp
next
  case (Leave u s)
  have "abs_tables (unsubscribe_user u s sd) = spec_act (Leave u s) (abs_tables sd)"
  proof (rule pubsub_eqI)
    fix i v
    show "(i, v) \<in> ps_subscribed (abs_tables (unsubscribe_user u s sd)) \<longleftrightarrow>
        (i, v) \<in> ps_subscribed (spec_act (Leave u s) (abs_tables sd))"
      by (cases "subscribers sd i") (auto simp: sub_simps unsubscribe_user_def)
  qed (auto simp: sub_simps unsubscribe_user_def)
  with Leave show ?thesis by simp
next
  case (LeaveAll u)
  have "abs_tables (unsubscribe_user_from_all u sd) = spec_act (LeaveAll u) (abs_tables sd)"
    unfolding unsubscribe_user_from_all_def by (rule pubsub_eqI) (auto simp: sub_simps)
  with LeaveAll show ?thesis by simp
next
  case (Notify alive s n v)
  with notify_refines show ?thesis by (simp del: spec_act.simps)
qed

section \<open>Property\<close>

text \<open>C12. The tables implement a relation between users and subscriptions: for any sequence of
  operations (users that come and go, subscriptions registered and dropped, subscribing and
  unsubscribing, notifications that find some connections closed) what the tables hold is what
  the relation holds after the matching operations, and the tables keep their form, so that a
  notification is delivered exactly once to each user the relation names whose connection is
  open, and to nobody else.\<close>

theorem tables_refine_relation:
  fixes ops :: "table_op list"
  assumes "tables_ok sd"
  defines "sd' \<equiv> fold table_act ops sd"
  shows "abs_tables sd' = fold spec_act ops (abs_tables sd) \<and> tables_ok sd' \<and>
         (let ds = snd (snd (dispatch_to_subscribers alive s n (SubscriptionResult v) sd'))
          in distinct (map fst ds) \<and>
             set ds = {(u, ch, m). m = SubscriptionResult v \<and> alive ch \<and>
                ps_users (fold spec_act ops (abs_tables sd)) u = Some ch \<and>
                (\<lparr>node_id = n, subscription_id = s\<rparr>, u) \<in> ps_subscribed (fold spec_act ops (abs_tables sd))})"
proof -
  have ref: "abs_tables (fold table_act ops sd) = fold spec_act ops (abs_tables sd)" for sd
    by (induction ops arbitrary: sd) (simp_all add: table_act_refines del: table_act.simps spec_act.simps)
  have ok: "tables_ok (fold table_act ops sd)" if "tables_ok sd" for sd
    using that by (induction ops arbitrary: sd) (simp_all add: table_act_ok del: table_act.simps)
  let ?i = "\<lparr>node_id = n, subscription_id = s\<rparr>" and ?msg = "SubscriptionResult v"
  let ?ds = "snd (snd (dispatch_to_subscribers alive s n ?msg sd'))"
  have sd': "tables_ok sd'" unfolding sd'_def by (rule ok [OF assms(1)])
  have r: "abs_tables sd' = fold spec_act ops (abs_tables sd)" unfolding sd'_def by (rule ref)
  have ds: "distinct (map fst ?ds) \<and>
      set ?ds = {(u, ch, m). m = ?msg \<and> alive ch \<and> map_of (users sd') u = Some ch \<and>
                   (\<exists>us. subscribers sd' ?i = Some us \<and> u \<in> set us)}"
  proof (cases "subscribers sd' ?i")
    case None
    then show ?thesis by (simp add: dispatch_to_subscribers_def subscribers_def)
  next
    case (Some us)
    have d: "?ds = map (\<lambda>(u, ch). (u, ch, ?msg)) (filter (\<lambda>(u, ch). alive ch) (recipients us sd'))"
      using Some by (cases "us = []") (simp_all add: dispatch_to_subscribers_def subscribers_def send_all_eq recipients_def)
    have "map fst ?ds = map fst (filter (\<lambda>(u, ch). alive ch) (recipients us sd'))"
      unfolding d by (simp add: comp_def case_prod_unfold)
    then have "distinct (map fst ?ds)"
      using recipients_distinct [OF tables_ok_subscribers [OF sd' Some]] by (simp add: distinct_map_filter)
    moreover have "set ?ds = {(u, ch, m). m = ?msg \<and> alive ch \<and> map_of (users sd') u = Some ch \<and> u \<in> set us}"
      unfolding d by (auto simp: recipients_iff)
    ultimately show ?thesis using Some by simp
  qed
  show ?thesis unfolding Let_def using ds sd' r by (simp add: r [symmetric] sub_simps)
qed

theorem tables_refine_relation_witness:
  "set (snd (snd (dispatch_to_subscribers (\<lambda>_. True) ''s1'' 7 (SubscriptionResult JNull)
     (fold table_act [AddUser 5 0, Register ''k'' ''s1'' 7, Join 5 ''k''] sub_data_new)))) =
   {(5, 0, SubscriptionResult JNull)}"
  using tables_refine_relation [OF tables_ok_new, of "[AddUser 5 0, Register ''k'' ''s1'' 7, Join 5 ''k'']"
      "\<lambda>_. True" "''s1''" 7 JNull]
  by (auto simp: Let_def abs_tables_def sub_data_new_def registered_def subscribers_def simp del: table_act.simps)

end
