(* ===== verification/DatabaseSpec.thy ===== *)
theory DatabaseSpec
  imports Database
begin

text \<open>
  The abstract specification of the database task of \<open>src/src/database/accept.rs\<close>: a map that
  serves its requests one after the other. Where no operation of the engine fails, the task
  over the reopening sled wrapper and the task over RocksDB are both exactly that map, whatever
  upkeep happens in between.
\<close>

definition map_reply :: "request_kind \<Rightarrow> (string \<rightharpoonup> string) \<Rightarrow> string option" where
  "map_reply req m = (case req of Read k \<Rightarrow> m k | _ \<Rightarrow> None)"

fun map_task :: "(string \<rightharpoonup> string) \<Rightarrow> request_kind list \<Rightarrow> string option list \<times> (string \<rightharpoonup> string)" where
  "map_task m [] = ([], m)"
| "map_task m (req # reqs) =
     (case map_task (request_effect req m) reqs of (replies, m') \<Rightarrow> (map_reply req m # replies, m'))"

section \<open>Databases that do not fail\<close>

text \<open>\<open>good\<close> singles out the states in which every operation succeeds.\<close>

locale faultless_database = generic_database D view
  for D :: "('db, 'e) database" and view :: "'db \<Rightarrow> (string \<rightharpoonup> string)" +
  fixes good :: "'db \<Rightarrow> bool"
  assumes good_read: "good s \<Longrightarrow> \<exists>ov. db_read D s k = Inr ov"
    and good_write: "good s \<Longrightarrow> \<exists>s'. db_write D s k v = (Inr (), s') \<and> good s'"
    and good_batch: "good s \<Longrightarrow> \<exists>s'. db_batch D s b = (Inr (), s') \<and> good s'"
    and good_flush: "good s \<Longrightarrow> \<exists>s'. db_flush D s = (Inr (), s') \<and> good s'"
    and good_maintain: "good s \<Longrightarrow> good (snd (db_maintain D s))"
begin

lemma view_maintain: "view (snd (db_maintain D s)) = view s"
  by (rule maintain_view [of s "fst (db_maintain D s)"]) simp

lemma serve_refines:
  assumes "good s"
  shows "fst (serve_request D s req) = map_reply req (view s)"
    and "view (snd (serve_request D s req)) = request_effect req (view s)"
    and "good (snd (serve_request D s req))"
proof -
  have "fst (serve_request D s req) = map_reply req (view s) \<and>
        view (snd (serve_request D s req)) = request_effect req (view s) \<and>
        good (snd (serve_request D s req))"
  proof (cases req)
    case (Read k)
    obtain ov where "db_read D s k = Inr ov" using good_read [OF assms] by blast
    with read_ok [OF this] show ?thesis
      by (simp add: serve_request_def Read map_reply_def view_maintain good_maintain assms)
  next
    case (Write k v)
    obtain s' where "db_write D s k v = (Inr (), s')" "good s'" using good_write [OF assms] by blast
    with write_ok [OF this(1)] show ?thesis
      by (simp add: serve_request_def Write map_reply_def view_maintain good_maintain)
  next
    case (BatchReq b)
    obtain s' where "db_batch D s b = (Inr (), s')" "good s'" using good_batch [OF assms] by blast
    with batch_ok [OF this(1)] show ?thesis
      by (simp add: serve_request_def BatchReq map_reply_def view_maintain good_maintain)
  next
    case Flush
    obtain s' where "db_flush D s = (Inr (), s')" "good s'" using good_flush [OF assms] by blast
    with flush_view [OF this(1)] show ?thesis
      by (simp add: serve_request_def Flush map_reply_def view_maintain good_maintain)
  qed
  then show "fst (serve_request D s req) = map_reply req (view s)"
    "view (snd (serve_request D s req)) = request_effect req (view s)"
    "good (snd (serve_request D s req))" by blast+
qed

lemma task_refines:
  assumes "good s"
  shows "map_task (view s) reqs =
           (fst (database_processing D s reqs), view (snd (database_processing D s reqs)))"
  using assms
proof (induction reqs arbitrary: s)
  case (Cons req reqs)
  from Cons.IH [OF serve_refines(3) [OF Cons.prems, of req]] show ?case
    by (simp add: processing_Cons serve_refines(1,2) [OF Cons.prems])
qed simp

end

text \<open>An engine whose operations all succeed.\<close>

locale faultless_store = raw_store E hview dview
  for E :: "('h, 'd, 'e) engine" and hview :: "'h \<Rightarrow> (string \<rightharpoonup> string)" and dview :: "'d \<Rightarrow> (string \<rightharpoonup> string)" +
  assumes get_succeeds: "\<exists>v. raw_get E h k = Inr v"
    and insert_succeeds: "fst (raw_insert E h k v) = Inr ()"
    and batch_succeeds: "fst (raw_batch E h b) = Inr ()"
    and flush_succeeds: "fst (raw_flush E h) = Inr ()"
    and open_succeeds: "\<exists>h. raw_open E d = Inr h"

sublocale faultless_store \<subseteq> sled_ok: faultless_database "sled_database E t" "sled_view hview dview" "\<lambda>s. db s \<noteq> None" for t
proof (unfold_locales, goal_cases)
  case (1 s k)
  then obtain h where "db s = Some h" by blast
  with get_succeeds [of h k] show ?case by (auto simp: sled_database_def sled_read_def)
next
  case (2 s k v)
  then obtain h where "db s = Some h" by blast
  with insert_succeeds [of h k v] show ?case
    by (cases "raw_insert E h k v") (simp add: sled_database_def sled_write_def Let_def)
next
  case (3 s b)
  then obtain h where "db s = Some h" by blast
  with batch_succeeds [of h b] show ?case
    by (cases "raw_batch E h b") (simp add: sled_database_def sled_batch_def Let_def)
next
  case (4 s)
  then obtain h where "db s = Some h" by blast
  with flush_succeeds [of h] show ?case
    by (cases "raw_flush E h") (simp add: sled_database_def sled_flush_def)
next
  case (5 s)
  then obtain h where h: "db s = Some h" by blast
  obtain h' where f: "raw_flush E h = (Inr (), h')" using flush_succeeds [of h] by (metis prod.collapse)
  obtain h2 where "raw_open E (raw_drop E h') = Inr h2" using open_succeeds by blast
  with h f show ?case by (simp add: sled_database_def sled_maintain_def Let_def)
qed

sublocale faultless_store \<subseteq> rocks_ok: faultless_database "rocks_database E" hview "\<lambda>_. True"
proof (unfold_locales, goal_cases)
  case (1 h k)
  show ?case using get_succeeds by (simp add: rocks_database_def)
next
  case (2 h k v)
  show ?case using insert_succeeds [of h k v] by (cases "raw_insert E h k v") (simp add: rocks_database_def)
next
  case (3 h b)
  show ?case using batch_succeeds [of h b] by (cases "raw_batch E h b") (simp add: rocks_database_def)
next
  case (4 h)
  show ?case using flush_succeeds [of h] by (cases "raw_flush E h") (simp add: rocks_database_def)
qed simp

context faultless_store
begin

lemma axioms_sled_ok: "faultless_database (sled_database E t) (sled_view hview dview) (\<lambda>s. db s \<noteq> None)"
  by (rule sled_ok.faultless_database_axioms)

lemma axioms_rocks_ok: "faultless_database (rocks_database E) hview (\<lambda>_. True)"
  by (rule rocks_ok.faultless_database_axioms)

end

interpretation mem_ok: faultless_store mem_engine bt_get bt_get
  by unfold_locales (simp_all add: mem_engine_def)

section \<open>Property\<close>

text \<open>C11. The database task refines a map: where the engine does not fail, every request of any
  sequence is answered as the map answers it, and the database holds what the map holds
  afterwards, for the sled wrapper (however often its upkeep reopens it) and for RocksDB.\<close>

theorem task_refines_map:
  assumes "faultless_store E hview dview" "db s \<noteq> None"
  shows "fst (database_processing (sled_database E t) s reqs) = fst (map_task (sled_view hview dview s) reqs) \<and>
         sled_view hview dview (snd (database_processing (sled_database E t) s reqs)) =
           snd (map_task (sled_view hview dview s) reqs) \<and>
         fst (database_processing (rocks_database E) h reqs) = fst (map_task (hview h) reqs) \<and>
         hview (snd (database_processing (rocks_database E) h reqs)) = snd (map_task (hview h) reqs)"
  using faultless_database.task_refines [OF faultless_store.axioms_sled_ok [OF assms(1), of t] assms(2)]
    faultless_database.task_refines [OF faultless_store.axioms_rocks_ok [OF assms(1)] TrueI]
  by simp

theorem task_refines_map_witness:
  "fst (database_processing (sled_database mem_engine \<lparr>t_check = 1, t_start = 2, t_stop = 3, t_base = 4\<rparr>) mem_sled
          [Write ''a'' ''1'', Read ''b'', BatchReq [Delete ''b''], Read ''a'', Read ''b'']) =
     [None, Some ''2'', None, Some ''1'', None]"
proof -
  have "db mem_sled \<noteq> None" by (simp add: mem_sled_def)
  from task_refines_map [OF mem_ok.faultless_store_axioms this] show ?thesis
    by (simp add: mem_sled_def sled_view_def map_reply_def bt_get_def batch_effect_def)
qed

end
