(* ===== verification/CacheProgram.thy ===== *)
theory CacheProgram
  imports WsClient DatabaseSpec StartUp
begin

text \<open>
  The cache as the running program has it: HTTP and websocket requests, the follower of the head
  (\<open>src/src/health/head_cache.rs\<close>), the channel of the finalized block and the database task over one of
  its engines, in any order. Every step of this program is a step of the cache system of
  \<open>HeadCache\<close>, which is therefore its specification; what is shown there holds of the database
  itself, for everything that was stored since the program started. What was stored before is
  not known to the head cache: the last part shows what follows from that.
\<close>

section \<open>What a request does to the cache\<close>

text \<open>The key and the block number of a request that the head cache is told about.\<close>

definition request_entry :: "cache_side \<Rightarrow> json \<Rightarrow> (string \<times> u64) option" where
  "request_entry C tx =
     (case prepared C tx of
        Panic \<Rightarrow> None
      | Ret tx2 \<Rightarrow>
          (case get_block_number_from_request (codec C) tx2 (named_now C) of
             Ret (Some n) \<Rightarrow> Some (hash_of C (to_text (codec C) tx2), n)
           | _ \<Rightarrow> None))"

text \<open>The history of a request: what it stored is about its block.\<close>

definition noted :: "(string \<times> u64) option \<Rightarrow> request_kind list \<Rightarrow> (string \<rightharpoonup> u64) \<Rightarrow> (string \<rightharpoonup> u64)" where
  "noted e reqs about = (case e of Some (h, n) \<Rightarrow> if reqs = [] then about else about(h \<mapsto> n) | None \<Rightarrow> about)"

lemma block_number_ignores_id:
  "jset ''id'' x v = Ret w \<Longrightarrow> get_block_number_from_request S w named = get_block_number_from_request S v named"
proof -
  assume "jset ''id'' x v = Ret w"
  then have "jindex w ''params'' = jindex v ''params''" "jindex w ''method'' = jindex v ''method''"
    by (simp_all add: jindex_jset)
  then show ?thesis unfolding get_block_number_from_request_def by (simp only:)
qed

text \<open>A request leaves the cache alone, or is one query under the hash of the prepared request.\<close>

definition cache_effect ::
  "cache_side \<Rightarrow> json \<Rightarrow> head_cache rwlock \<Rightarrow> head_cache rwlock \<Rightarrow> request_kind list \<Rightarrow> bool" where
  "cache_effect C tx hc hc' reqs \<longleftrightarrow>
     hc' = hc \<and> reqs = [] \<or>
     (\<exists>tx2 i tx1 rx. prepared C tx = Ret tx2 \<and> jset ''id'' i tx2 = Ret tx1 \<and>
        cache_query (codec C) (no_cache C)
          \<lparr>finalized_rx = final_now C, named_numbers = named_now C, args_head_cache = hc\<rparr> rx tx1
          (hash_of C (to_text (codec C) tx2)) = Ret (hc', reqs))"

lemma fetch_and_cache_effect:
  assumes "fetch_and_cache C X P tx2 h i w = (w', out)"
  shows "w_head w' = w_head w \<and> w_sent w' = w_sent w \<or>
     (\<exists>tx1 rx reqs. jset ''id'' (JNum (PosInt i)) tx2 = Ret tx1 \<and> w_sent w' = w_sent w @ reqs \<and>
        cache_query (codec C) (no_cache C)
          \<lparr>finalized_rx = final_now C, named_numbers = named_now C, args_head_cache = w_head w\<rparr> rx tx1 h =
          Ret (w_head w', reqs))"
proof (cases "jset ''id'' (JNum (PosInt i)) tx2")
  case (Ret tx1)
  obtain asked rl res where f: "fetch_loop X (ttl P) (max_retries P) 0 (w_rpcs w) tx1 = (asked, rl, res)"
    by (metis prod.collapse)
  show ?thesis
    using assms Ret f
    by (auto simp: fetch_and_cache_def Let_def split: outcome.splits fetched.splits prod.splits)
qed (use assms in \<open>simp add: fetch_and_cache_def\<close>)

lemma forward_value_effect:
  assumes "forward_value C X P tx w = (w', out)" "w_sent w = []"
  shows "cache_effect C tx (w_head w) (w_head w') (w_sent w')"
proof (cases "is_object tx")
  case True
  show ?thesis
  proof (cases "prepared C tx")
    case (Ret tx2)
    let ?h = "hash_of C (to_text (codec C) tx2)" and ?i = "request_id (jindex tx ''id'')"
    have "w' = w \<or> fetch_and_cache C X P tx2 ?h ?i w = (w', out)"
      using assms(1) Ret
      by (auto simp: forward_value_prepared [OF True] Let_def split: sum.splits option.splits outcome.splits if_splits)
    then show ?thesis
    proof
      assume "fetch_and_cache C X P tx2 ?h ?i w = (w', out)"
      from fetch_and_cache_effect [OF this] Ret assms(2) show ?thesis by (auto simp: cache_effect_def)
    qed (use assms(2) in \<open>simp add: cache_effect_def\<close>)
  qed (use assms in \<open>simp add: forward_value_prepared [OF True] cache_effect_def\<close>)
qed (use assms in \<open>simp add: forward_value_def cache_effect_def\<close>)

text \<open>The same for a request of a websocket user.\<close>

lemma ws_answer_effect:
  assumes "ws_answer C u i h call is_sub resp io = (io', out)"
  shows "io_head io' = io_head io \<and> io_sent io' = io_sent io \<or>
     (\<exists>reqs. io_sent io' = io_sent io @ reqs \<and>
        cache_query (codec C) (no_cache C)
          \<lparr>finalized_rx = final_now C, named_numbers = named_now C, args_head_cache = io_head io\<rparr>
          (to_text (codec C) (content resp)) call h = Ret (io_head io', reqs))"
  using assms
  by (auto simp: ws_answer_def Let_def split: if_splits option.splits sum.splits prod.splits outcome.splits)

lemma ws_forward_effect:
  assumes "ws_forward W u i h call is_sub io = (io', out)" "\<And>sd hc. snd (while_waiting W (sd, hc)) = hc"
  shows "io_head io' = io_head io \<and> io_sent io' = io_sent io \<or>
     (\<exists>call1 rx reqs. jset ''id'' (JNum (PosInt (ucast u))) call = Ret call1 \<and> io_sent io' = io_sent io @ reqs \<and>
        cache_query (codec (side_of W)) (no_cache (side_of W))
          \<lparr>finalized_rx = final_now (side_of W), named_numbers = named_now (side_of W), args_head_cache = io_head io\<rparr>
          rx call1 h = Ret (io_head io', reqs))"
proof (cases "jset ''id'' (JNum (PosInt (ucast u))) call")
  case (Ret call1)
  obtain sd hc where w: "while_waiting W (io_subs io, io_head io) = (sd, hc)" by (metis prod.collapse)
  with assms(2) [of "io_subs io" "io_head io"] have hc: "hc = io_head io" by simp
  let ?io2 = "io\<lparr>io_calls := io_calls io @ [Message call1 None], io_subs := sd, io_head := io_head io\<rparr>"
  show ?thesis
  proof (cases "\<exists>resp. manager_up W \<and> listen_for_response u (heard W) = Some (Inr resp)")
    case True
    then obtain resp where r: "manager_up W" "listen_for_response u (heard W) = Some (Inr resp)" by blast
    obtain io3 res where a: "ws_answer (side_of W) u i h call1 is_sub resp ?io2 = (io3, res)" by (metis prod.collapse)
    with assms(1) Ret w hc r have "io' = io3" by (cases res) (auto simp: ws_forward_def Let_def)
    with ws_answer_effect [OF a] Ret show ?thesis by auto
  next
    case False
    with assms(1) Ret w hc show ?thesis
      by (auto simp: ws_forward_def Let_def split: if_splits option.splits sum.splits)
  qed
qed (use assms in \<open>simp add: ws_forward_def\<close>)

lemma execute_ws_call_effect:
  assumes "execute_ws_call W u call io = (io', out)" "io_sent io = []"
    and "\<And>sd hc. snd (while_waiting W (sd, hc)) = hc"
  shows "cache_effect (side_of W) call (io_head io) (io_head io') (io_sent io')"
proof (cases "is_object call")
  case True
  show ?thesis
  proof (cases "prepared (side_of W) call")
    case (Ret call2)
    let ?h = "hash_of (side_of W) (to_text (codec (side_of W)) call2)" and ?i = "jindex call ''id''"
    have "io_head io' = io_head io \<and> io_sent io' = io_sent io \<or>
        (\<exists>is_sub sd. ws_forward W u ?i ?h call2 is_sub (io\<lparr>io_subs := sd\<rparr>) = (io', out)) \<or>
        ws_forward W u ?i ?h call2 False io = (io', out)"
      using assms(1)
      by (auto simp: execute_ws_call_prepared [OF True Ret] Let_def
          split: option.splits sum.splits outcome.splits if_splits prod.splits)
    then show ?thesis
      using ws_forward_effect [OF _ assms(3)] Ret assms(2) unfolding cache_effect_def by fastforce
  next
    case Panic
    obtain call1 where "jtake ''id'' call = Ret (jindex call ''id'', call1)"
      "prepared (side_of W) call = replace_block_tags (codec (side_of W)) call1 (named_now (side_of W))"
      using prepared_take [OF True] by metis
    with assms(1,2) True Panic show ?thesis by (simp add: execute_ws_call_def Let_def cache_effect_def)
  qed
qed (use assms in \<open>simp add: execute_ws_call_def Let_def cache_effect_def\<close>)

section \<open>The program\<close>

record 'db node =
  nd_rpcs :: "rpc list rwlock"
  nd_subs :: sub_data
  nd_head :: "head_cache rwlock"
  nd_named :: "named_blocknumbers rwlock"
  nd_final :: u64
  nd_mgr :: manager
  nd_db :: 'db
  nd_about :: "string \<rightharpoonup> u64"
  nd_all_final :: u64

text \<open>The shared state as a request sees it: \<open>K\<close> holds the fixed parts.\<close>

definition node_side :: "('db, 'e) database \<Rightarrow> cache_side \<Rightarrow> 'db node \<Rightarrow> cache_side" where
  "node_side D K nd =
     K\<lparr>named_now := nd_named nd, final_now := nd_final nd, db_reply := (\<lambda>k. fst (db_get True D (nd_db nd) k))\<rparr>"

lemma node_side_simps [simp]:
  "codec (node_side D K nd) = codec K" "no_cache (node_side D K nd) = no_cache K"
  "hash_of (node_side D K nd) = hash_of K" "named_now (node_side D K nd) = nd_named nd"
  "final_now (node_side D K nd) = nd_final nd"
  "db_reply (node_side D K nd) k = fst (db_get True D (nd_db nd) k)"
  by (simp_all add: node_side_def)

definition node_work :: "'db node \<Rightarrow> work" where
  "node_work nd = \<lparr>w_rpcs = nd_rpcs nd, w_head = nd_head nd, w_sent = [], w_asked = []\<rparr>"

definition node_io :: "'db node \<Rightarrow> ws_io" where
  "node_io nd = \<lparr>io_subs = nd_subs nd, io_head = nd_head nd, io_sent = [], io_calls = []\<rparr>"

text \<open>What is sent to the database task is served before anything else reads the database.\<close>

definition cache_now ::
  "('db, 'e) database \<Rightarrow> head_cache rwlock \<Rightarrow> request_kind list \<Rightarrow> (string \<times> u64) option \<Rightarrow> 'db node \<Rightarrow> 'db node" where
  "cache_now D hc reqs e nd =
     nd\<lparr>nd_head := hc, nd_db := snd (database_processing D (nd_db nd) reqs), nd_about := noted e reqs (nd_about nd)\<rparr>"

text \<open>A request in one step, or the late answer to one that was sent before other steps; a turn of
  the follower; a published final block; and anything that leaves the cache alone.\<close>

inductive node_step :: "('db, 'e) database \<Rightarrow> cache_side \<Rightarrow> 'db node \<Rightarrow> 'db node \<Rightarrow> bool"
  for D :: "('db, 'e) database" and K :: cache_side where
  http_request:
  "forward_value (node_side D K nd) X P tx (node_work nd) = (w, out) \<Longrightarrow>
   node_step D K nd
     ((cache_now D (w_head w) (w_sent w) (request_entry (node_side D K nd) tx) nd)\<lparr>nd_rpcs := w_rpcs w\<rparr>)"
| ws_request:
  "execute_ws_call W u call (node_io nd) = (io, out) \<Longrightarrow> side_of W = node_side D K nd \<Longrightarrow>
   (\<And>sd hc. snd (while_waiting W (sd, hc)) = hc) \<Longrightarrow>
   node_step D K nd
     ((cache_now D (io_head io) (io_sent io) (request_entry (node_side D K nd) call) nd)\<lparr>nd_subs := io_subs io\<rparr>)"
| late_answer:
  "cache_query (codec K) (no_cache K)
     \<lparr>finalized_rx = nd_final nd, named_numbers = nd_named nd, args_head_cache = nd_head nd\<rparr> rx tx h =
     Ret (hc, reqs) \<Longrightarrow>
   node_step D K nd
     (cache_now D hc reqs
        (case get_block_number_from_request (codec K) tx (nd_named nd) of Ret (Some n) \<Rightarrow> Some (h, n) | _ \<Rightarrow> None) nd)"
| new_head:
  "manage_step (nd_mgr nd) (nd_head nd) new (nd_final nd) (nd_final nd) = Ret (m, hc, reqs) \<Longrightarrow>
   node_step D K nd ((cache_now D hc reqs None nd)\<lparr>nd_mgr := m\<rparr>)"
| finality:
  "node_step D K nd (nd\<lparr>nd_final := n, nd_all_final := max n (nd_all_final nd)\<rparr>)"
| elsewhere:
  "node_step D K nd (nd\<lparr>nd_rpcs := rl, nd_subs := sd, nd_named := named\<rparr>)"

inductive_cases node_stepE: "node_step D K nd nd'"

text \<open>The program starts with an empty head cache, over whatever the database holds.\<close>

definition node_start :: "'db node \<Rightarrow> bool" where
  "node_start nd \<longleftrightarrow>
     nd_head nd = new_lock [] \<and> nd_mgr nd = \<lparr>head = 0, last_finalized = 0\<rparr> \<and> nd_final nd = 0 \<and>
     nd_about nd = Map.empty \<and> nd_all_final nd = 0"

inductive node_reach :: "('db, 'e) database \<Rightarrow> cache_side \<Rightarrow> ('db \<Rightarrow> bool) \<Rightarrow> 'db node \<Rightarrow> bool"
  for D :: "('db, 'e) database" and K :: cache_side and good :: "'db \<Rightarrow> bool" where
  begin_run: "node_start nd \<Longrightarrow> good (nd_db nd) \<Longrightarrow> node_reach D K good nd"
| next_step: "node_reach D K good nd \<Longrightarrow> node_step D K nd nd' \<Longrightarrow> node_reach D K good nd'"

section \<open>The program refines the cache system\<close>

text \<open>The cache system a state of the program stands for: the entries stored since the start.\<close>

definition abs_node :: "('db \<Rightarrow> (string \<rightharpoonup> string)) \<Rightarrow> 'db node \<Rightarrow> cache_system" where
  "abs_node view nd =
     \<lparr>mgr = nd_mgr nd, hcache = nd_head nd, entries = view (nd_db nd) |` dom (nd_about nd),
      final_chan = nd_final nd, origin = nd_about nd, all_final = nd_all_final nd\<rparr>"

lemma restrict_deletes:
  "apply_requests [BatchReq (map Delete ks)] m |` A = apply_requests [BatchReq (map Delete ks)] (m |` A)"
  by (rule ext) (simp add: apply_batch restrict_map_def)

context faultless_database
begin

lemma processed:
  assumes "good s"
  shows "view (snd (database_processing D s reqs)) = apply_requests reqs (view s)"
    and "good (snd (database_processing D s reqs))"
proof -
  have "snd (map_task m reqs) = apply_requests reqs m" for m
    by (induction reqs arbitrary: m) (simp_all add: apply_requests_def case_prod_beta)
  with arg_cong [OF task_refines [OF assms, of reqs], of snd]
  show "view (snd (database_processing D s reqs)) = apply_requests reqs (view s)" by simp
  show "good (snd (database_processing D s reqs))"
    using assms by (induction reqs arbitrary: s) (simp_all add: processing_Cons serve_refines(3))
qed

text \<open>One query, seen through the abstraction.\<close>

lemma query_refines:
  assumes "good (nd_db nd)"
    and q: "cache_query S nc \<lparr>finalized_rx = nd_final nd, named_numbers = nd_named nd, args_head_cache = nd_head nd\<rparr>
              rx tx h = Ret (hc, reqs)"
    and e: "e = (case get_block_number_from_request S tx (nd_named nd) of Ret (Some n) \<Rightarrow> Some (h, n) | _ \<Rightarrow> None)"
  shows "cache_step (abs_node view nd) (abs_node view (cache_now D hc reqs e nd))"
proof -
  let ?s = "abs_node view nd"
  have o: "origin ?s = nd_about nd" by (simp add: abs_node_def)
  have "cache_step ?s (?s\<lparr>hcache := hc, entries := apply_requests reqs (entries ?s),
      origin := (case get_block_number_from_request S tx (nd_named nd) of
                  Ret (Some n) \<Rightarrow> if reqs = [] then nd_about nd else (nd_about nd)(h \<mapsto> n)
                | _ \<Rightarrow> nd_about nd)\<rparr>)"
    using cache_step.query [of S nc ?s "nd_named nd" rx tx h hc reqs] q unfolding o by (simp add: abs_node_def)
  moreover have "noted e reqs (nd_about nd) = (case get_block_number_from_request S tx (nd_named nd) of
                  Ret (Some n) \<Rightarrow> if reqs = [] then nd_about nd else (nd_about nd)(h \<mapsto> n)
                | _ \<Rightarrow> nd_about nd)"
    unfolding e by (simp add: noted_def split: outcome.split option.split)
  moreover have "apply_requests reqs (view (nd_db nd)) |` dom (noted e reqs (nd_about nd)) =
      apply_requests reqs (view (nd_db nd) |` dom (nd_about nd))"
  proof (cases "reqs = []")
    case False
    then obtain n v where w: "reqs = [Write h v]" "e = Some (h, n)"
      using cache_query_effect [OF q] by (auto simp: e)
    show ?thesis by (rule ext) (simp add: w noted_def apply_requests_def restrict_map_def)
  qed (simp add: noted_def apply_requests_def split: option.split)
  ultimately show ?thesis
    by (simp add: abs_node_def cache_now_def processed(1) [OF assms(1)])
qed

lemma effect_refines:
  assumes "good (nd_db nd)" "cache_effect (node_side D K nd) tx (nd_head nd) hc reqs"
  shows "abs_node view (cache_now D hc reqs (request_entry (node_side D K nd) tx) nd) = abs_node view nd \<or>
         cache_step (abs_node view nd) (abs_node view (cache_now D hc reqs (request_entry (node_side D K nd) tx) nd))"
  using assms(2) unfolding cache_effect_def
proof (elim disjE exE conjE)
  assume "hc = nd_head nd" "reqs = []"
  then show ?thesis by (simp add: abs_node_def cache_now_def noted_def split: option.split)
next
  fix tx2 i tx1 rx
  assume p: "prepared (node_side D K nd) tx = Ret tx2" "jset ''id'' i tx2 = Ret tx1"
    and q: "cache_query (codec (node_side D K nd)) (no_cache (node_side D K nd))
      \<lparr>finalized_rx = final_now (node_side D K nd), named_numbers = named_now (node_side D K nd), args_head_cache = nd_head nd\<rparr>
      rx tx1 (hash_of (node_side D K nd) (to_text (codec (node_side D K nd)) tx2)) = Ret (hc, reqs)"
  let ?h = "hash_of (node_side D K nd) (to_text (codec (node_side D K nd)) tx2)"
  have "request_entry (node_side D K nd) tx =
      (case get_block_number_from_request (codec K) tx1 (nd_named nd) of Ret (Some n) \<Rightarrow> Some (?h, n) | _ \<Rightarrow> None)"
    by (simp add: request_entry_def p(1) block_number_ignores_id [OF p(2)])
  with query_refines [OF assms(1), of "codec K" "no_cache K" rx tx1 ?h hc reqs] q show ?thesis by simp
qed

lemma step_refines:
  assumes "node_step D K nd nd'" "good (nd_db nd)"
  shows "(abs_node view nd' = abs_node view nd \<or> cache_step (abs_node view nd) (abs_node view nd')) \<and> good (nd_db nd')"
  using assms(1)
proof cases
  case (http_request X P tx w out)
  have "cache_effect (node_side D K nd) tx (nd_head nd) (w_head w) (w_sent w)"
    using forward_value_effect [OF http_request(2)] by (simp add: node_work_def)
  from effect_refines [OF assms(2) this] http_request(1) processed(2) [OF assms(2)] show ?thesis
    by (simp add: abs_node_def cache_now_def)
next
  case (ws_request W u call io out)
  have "cache_effect (node_side D K nd) call (nd_head nd) (io_head io) (io_sent io)"
    using execute_ws_call_effect [OF ws_request(2) _ ws_request(4)] ws_request(3) by (simp add: node_io_def)
  from effect_refines [OF assms(2) this] ws_request(1) processed(2) [OF assms(2)] show ?thesis
    by (simp add: abs_node_def cache_now_def)
next
  case (late_answer rx tx h hc reqs)
  from query_refines [OF assms(2) late_answer(2) refl] late_answer(1) processed(2) [OF assms(2)] show ?thesis
    by (simp add: cache_now_def)
next
  case (new_head new m hc reqs)
  let ?s = "abs_node view nd"
  have m: "manage_step (mgr ?s) (hcache ?s) new (final_chan ?s) (final_chan ?s) = Ret (m, hc, reqs)"
    using new_head(2) by (simp add: abs_node_def)
  have "reqs = [] \<or> (\<exists>ks. reqs = [BatchReq (map Delete ks)])"
    using manage_step_cases [OF m] handle_reorg_effect(2) by metis
  then have "apply_requests reqs (view (nd_db nd)) |` A = apply_requests reqs (view (nd_db nd) |` A)" for A
    using restrict_deletes by (auto simp: apply_requests_def)
  with cache_step.new_head [OF m] new_head(1) processed [OF assms(2)] show ?thesis
    by (simp add: abs_node_def cache_now_def noted_def)
next
  case (finality n)
  from cache_step.publish [of "abs_node view nd" n] finality assms(2) show ?thesis by (simp add: abs_node_def)
next
  case (elsewhere rl sd named)
  with assms(2) show ?thesis by (simp add: abs_node_def)
qed

lemma reach_refines:
  assumes "node_reach D K good nd"
  shows "reach (abs_node view nd) \<and> good (nd_db nd)"
  using assms
proof induction
  case (begin_run nd)
  then show ?case using reach.start by (simp add: node_start_def abs_node_def)
next
  case (next_step nd nd')
  with step_refines [OF next_step.hyps(2)] show ?case by (metis reach.step)
qed

lemma read_back:
  assumes "good s"
  shows "fst (db_get True D s k) = Inr (view s k)"
  using serve_refines(1) [OF assms, of "Read k"] by (simp add: db_get_def map_reply_def case_prod_beta)

end

section \<open>What the program guarantees of its cache\<close>


lemma replace_block_tags_object:
  assumes "is_object tx" "replace_block_tags S tx named = Ret tx2"
  shows "is_object tx2"
proof -
  have "is_object v" if "set_param tx i x = Ret v" for i x v
    using that assms(1) by (cases tx) (auto simp: set_param_def obind_Ret_iff)
  with assms show ?thesis
    by (auto simp: replace_block_tags_def Let_def split: if_splits option.splits named_number.splits)
qed

text \<open>A request that the database does not know goes to an endpoint.\<close>

lemma cache_miss_asks:
  assumes "is_object tx" "prepared C tx = Ret tx2" "db_reply C (hash_of C (to_text (codec C) tx2)) = Inr None"
    and "selector (select X 0)" "undisturbed X" "contents (w_rpcs w) \<noteq> []" "unat (ttl P) < 2 ^ 64"
    and "forward_value C X P tx w = (w', out)"
  shows "\<exists>i more. w_asked w' = w_asked w @ i # more \<and> i \<in> rpc_id ` set (contents (w_rpcs w))"
proof -
  let ?i = "request_id (jindex tx ''id'')" and ?h = "hash_of C (to_text (codec C) tx2)"
  obtain tx0 where "is_object tx0" "replace_block_tags (codec C) tx0 (named_now C) = Ret tx2"
    using assms(2) jset_object [OF assms(1), of "''id''" JNull] by (auto simp: prepared_def obind_Ret_iff)
  then have "is_object tx2" by (rule replace_block_tags_object)
  then obtain tx1 where tx1: "jset ''id'' (JNum (PosInt ?i)) tx2 = Ret tx1" using jset_object by blast
  have fc: "fetch_and_cache C X P tx2 ?h ?i w = (w', out)"
    using assms(2,3,8) by (cases "has_block_tag (to_text (codec C) tx2)")
      (simp_all add: forward_value_prepared [OF assms(1)] Let_def)
  obtain asked rl res where f: "fetch_loop X (ttl P) (max_retries P) 0 (w_rpcs w) tx1 = (asked, rl, res)"
    by (metis prod.collapse)
  have "\<exists>i more. asked = i # more \<and> i \<in> rpc_id ` set (contents (w_rpcs w))"
    by (rule fetch_loop_asks [OF assms(4-7) f])
  then show ?thesis
    using fc tx1 f by (auto simp: fetch_and_cache_def Let_def split: outcome.splits fetched.splits prod.splits)
qed


text \<open>A program that learns that block 5 is final, caches a balance at block 26 and then sees the
  head at 27.\<close>

definition cached_node :: "(string, string) btree node" where
  "cached_node =
     \<lparr>nd_rpcs = new_lock [demo_rpc 1 7 2], nd_subs = sub_data_new, nd_head = new_lock [(26, [''h''])],
      nd_named = named_at 30, nd_final = 5, nd_mgr = \<lparr>head = 27, last_finalized = 5\<rparr>,
      nd_db = [(''h'', ''v'')], nd_about = [''h'' \<mapsto> 26], nd_all_final = 5\<rparr>"

lemma mem_rocks_faultless: "faultless_database (rocks_database mem_engine) bt_get (\<lambda>_. True)"
  by (rule mem_ok.axioms_rocks_ok)

lemma side_entry: "request_entry side (request_with_id (JNum (PosInt 4))) = Some (''h'', 26)"
proof -
  have "''0x1a'' = hex_text 26" by code_simp
  moreover have "quotes_plain side_codec" by (simp add: quotes_plain_def side_codec_def)
  ultimately have "get_block_number_from_request side_codec (balance_request (JStr ''0x1a'')) named = Ret (Some 26)" for named
    using get_block_hex [OF _ balance_block_param, of side_codec _ 26 named] by simp
  then show ?thesis by (simp add: request_entry_def side_prepared) (simp add: side_def)
qed

lemma reach_cached_node: "node_reach (rocks_database mem_engine) side (\<lambda>_. True) cached_node"
proof -
  let ?D = "rocks_database mem_engine"
  let ?n0 = "cached_node\<lparr>nd_head := new_lock [], nd_mgr := \<lparr>head = 0, last_finalized = 0\<rparr>, nd_db := [],
    nd_about := Map.empty, nd_final := 0, nd_all_final := 0\<rparr>"
  let ?n1 = "?n0\<lparr>nd_final := 5, nd_all_final := 5\<rparr>"
  let ?n2 = "cached_node\<lparr>nd_mgr := \<lparr>head = 0, last_finalized = 0\<rparr>\<rparr>"
  have "node_reach ?D side (\<lambda>_. True) ?n0"
    by (rule begin_run) (simp_all add: node_start_def cached_node_def)
  moreover have "node_step ?D side ?n0 ?n1"
    using finality [of ?D side ?n0 5] by (simp add: cached_node_def)
  ultimately have n1: "node_reach ?D side (\<lambda>_. True) ?n1" by (rule next_step)
  have s: "node_side ?D side ?n1 = side" "node_work ?n1 = start_work"
    by (simp_all add: node_side_def side_def cached_node_def db_get_def serve_request_def rocks_database_def
        mem_engine_def bt_get_def node_work_def start_work_def)
  have "node_step ?D side ?n1 ?n2"
    using http_request [of ?D side ?n1, unfolded s, OF side_forward]
    by (simp add: side_entry cache_now_def noted_def cached_node_def start_work_def processing_Cons serve_request_def
        rocks_database_def mem_engine_def)
  with n1 have n2: "node_reach ?D side (\<lambda>_. True) ?n2" by (rule next_step)
  have "node_step ?D side ?n2 cached_node"
    using new_head [of ?n2 27 "\<lparr>head = 27, last_finalized = 5\<rparr>" "nd_head ?n2" "[]" ?D side]
    by (simp add: manage_step_def remove_stale_def block_range_def cached_node_def cache_now_def noted_def new_lock_def)
  with n2 show ?thesis by (rule next_step)
qed



section \<open>A restart\<close>

text \<open>Without records a change of the head deletes nothing.\<close>

lemma manage_cache_nothing_recorded:
  assumes "manage_cache m hc heads = Ret (m', hc', reqs)" "contents hc = []"
  shows "contents hc' = [] \<and> apply_requests reqs M = M"
  using assms
proof (induction heads arbitrary: m hc m' hc' reqs)
  case (Cons ev heads)
  obtain new fin1 fin2 where ev: "ev = (new, fin1, fin2)" by (cases ev)
  from Cons.prems(1) ev obtain m1 hc1 sent1 sent2 where
    s: "manage_step m hc new fin1 fin2 = Ret (m1, hc1, sent1)"
    "manage_cache m1 hc1 heads = Ret (m', hc', sent2)" "reqs = sent1 @ sent2"
    by (auto simp: obind_Ret_iff)
  from manage_step_cases [OF s(1)] obtain h2 where h2:
    "(new \<le> head m \<and> handle_reorg hc (head m) new = Ret (h2, sent1)) \<or> (\<not> new \<le> head m \<and> h2 = hc \<and> sent1 = [])"
    "(last_finalized m \<noteq> fin1 \<and> remove_stale h2 fin2 = Ret hc1) \<or> hc1 = h2" by metis
  have empty: "foldl reorg_step ([], b) is = ([], b)" for b "is"
    by (induction "is") (simp_all add: reorg_step_def bt_get_def)
  have h: "contents h2 = [] \<and> (sent1 = [] \<or> sent1 = [BatchReq []])"
    using h2(1) Cons.prems(2) empty
    by (auto simp: handle_reorg_def db_batch_send_def split: if_splits)
  then have "contents hc1 = []" using h2(2) by (auto simp: remove_stale_def split: if_splits)
  with Cons.IH [OF s(2)] h s(3) show ?case
    by (auto simp: apply_requests_def batch_effect_def)
qed (simp add: apply_requests_def)

text \<open>C19. A restart loses track of what is stored: the database is kept over a restart (unless the
  settings clear it), the record of which entries may still be rolled back is not. Whatever
  heads the restarted program sees, no reorganisation deletes a response that was stored
  before, and it is returned to clients without asking an endpoint.\<close>

theorem restart_keeps_stale_responses:
  assumes "faultless_database D view good" "good s" "run_start D bound s c = Ret (Some p)" "\<not> set_do_clear c"
    and "view s k = Some rax" "k \<notin> {is_lb_key, client_version_key, ''blake3''}"
    and "manage_cache \<lparr>head = 0, last_finalized = 0\<rparr> (prog_head p) heads = Ret (m, hc, reqs)"
    and "db_reply C = (\<lambda>k. fst (db_get True D (snd (database_processing D (prog_db p) reqs)) k))"
    and "is_object tx" "prepared C tx = Ret tx2" "\<not> has_block_tag (to_text (codec C) tx2)"
    and "hash_of C (to_text (codec C) tx2) = k"
    and "simd_parse (codec C) rax = Inr v" "jset ''id'' (JNum (PosInt (request_id (jindex tx ''id'')))) v = Ret v'"
  shows "forward_value C X P tx w = (w, Ret (json_response (to_text (codec C) v'), None))"
proof -
  note w = faultless_database.good_write [OF assms(1)]
  note gen = faultless_database.axioms(1) [OF assms(1)]
  obtain s1 where s1: "db_write D s is_lb_key version_json = (Inr (), s1)" "good s1" using w [OF assms(2)] by blast
  obtain s2 where s2: "db_write D s1 client_version_key version_json = (Inr (), s2)" "good s2" using w [OF s1(2)] by blast
  obtain s3 where s3: "db_write D s2 ''blake3'' ''true'' = (Inr (), s3)" "good s3" using w [OF s2(2)] by blast
  have p: "prog_db p = s3" "prog_head p = new_lock []"
    using assms(3,4) s1(1) s2(1) s3(1)
    by (auto simp: run_start_def setup_data_def obind_Ret_iff Let_def split: sum.splits if_splits)
  have "view s3 k = Some rax"
    using generic_database.write_ok [OF gen s1(1)] generic_database.write_ok [OF gen s2(1)]
      generic_database.write_ok [OF gen s3(1)] assms(5,6) by simp
  moreover have "apply_requests reqs (view s3) = view s3"
    using manage_cache_nothing_recorded [OF assms(7)] by (simp add: p new_lock_def)
  ultimately have "db_reply C k = Inr (Some rax)"
    using faultless_database.processed [OF assms(1) s3(2), of reqs] faultless_database.read_back [OF assms(1)]
    by (simp add: assms(8) p)
  with assms(9-14) show ?thesis by (simp add: forward_value_prepared [OF assms(9)] Let_def)
qed

theorem restart_keeps_stale_responses_witness:
  "\<exists>p m hc reqs out. run_start (rocks_database mem_engine) True [(''h'', ''v'')] cli_settings = Ret (Some p) \<and>
     manage_cache \<lparr>head = 0, last_finalized = 0\<rparr> (prog_head p) [(27, 0, 0), (26, 0, 0)] = Ret (m, hc, reqs) \<and>
     forward_value (side\<lparr>db_reply := (\<lambda>k. fst (db_get True (rocks_database mem_engine)
         (snd (database_processing (rocks_database mem_engine) (prog_db p) reqs)) k))\<rparr>)
       one_endpoint params3 (request_with_id (JNum (PosInt 4))) start_work = (start_work, Ret (json_response out, None))"
proof -
  let ?D = "rocks_database mem_engine"
  obtain p where p: "run_start ?D True [(''h'', ''v'')] cli_settings = Ret (Some p)" "prog_head p = new_lock []"
    by (simp add: run_start_def setup_data_def rocks_database_def mem_engine_def cli_settings_def
        settings_default_def Let_def del: bt_insert.simps)
  obtain m hc reqs where m: "manage_cache \<lparr>head = 0, last_finalized = 0\<rparr> (prog_head p) [(27, 0, 0), (26, 0, 0)] = Ret (m, hc, reqs)"
    by (simp add: p(2) manage_step_def new_lock_def handle_reorg_def case_prod_beta)
  let ?C = "side\<lparr>db_reply := (\<lambda>k. fst (db_get True ?D (snd (database_processing ?D (prog_db p) reqs)) k))\<rparr>"
  have keys: "''h'' \<notin> {is_lb_key, client_version_key, ''blake3''}"
    by (simp add: is_lb_key_def client_version_key_def)
  have t: "\<not> has_block_tag (to_text (codec ?C) (balance_request (JStr ''0x1a'')))"
    using side_no_tag by (simp add: side_def side_codec_def)
  have dbr: "db_reply ?C = (\<lambda>k. fst (db_get True ?D (snd (database_processing ?D (prog_db p) reqs)) k))" by simp
  have prep: "prepared ?C (request_with_id (JNum (PosInt 4))) = Ret (balance_request (JStr ''0x1a''))"
    by (simp add: side_prepared)
  have parse: "simd_parse (codec ?C) ''v'' = Inr stored_response" by (simp add: side_def side_codec_def)
  obtain v' where v': "jset ''id'' (JNum (PosInt (request_id (jindex (request_with_id (JNum (PosInt 4))) ''id'')))) stored_response = Ret v'"
    using jset_object [of stored_response] by (auto simp: stored_response_def)
  have "forward_value ?C one_endpoint params3 (request_with_id (JNum (PosInt 4))) start_work =
      (start_work, Ret (json_response (to_text (codec ?C) v'), None))"
    by (rule restart_keeps_stale_responses [OF mem_rocks_faultless TrueI p(1) _ _ keys m dbr _ prep t _ parse v'])
      (simp_all add: cli_settings_def settings_default_def bt_get_def request_with_id_def side_def)
  with p m show ?thesis by blast
qed

end
