(* ===== verification/Server.thy ===== *)
theory Server
  imports AdminMethods
begin

text \<open>
  \<open>src/src/main.rs\<close> and \<open>src/src/admin/listener.rs\<close>: from the command line to the accept loops, and
  what a connection does with its requests. The sockets are arguments: what an accept loop
  hears is a list of arrivals, and a connection is the list of the requests its client sends.
  Opening a database is an argument too.
\<close>

section \<open>The main function\<close>

datatype ('s, 'r) main_result =
    BadConfig config_error
  | NoAddress
  | SledRuns "'s program"
  | RocksRuns "'r program"

text \<open>\<open>run\<close> hands back the error when its address cannot be bound.\<close>

definition run_result :: "('db program \<Rightarrow> ('s, 'r) main_result) \<Rightarrow> 'db program option outcome \<Rightarrow> ('s, 'r) main_result outcome" where
  "run_result f res = obind res (\<lambda>p. Ret (case p of None \<Rightarrow> NoAddress | Some q \<Rightarrow> f q))"

text \<open>\<open>main\<close>: a database that cannot be opened panics (\<open>expect\<close>), settings that cannot be read are
  returned as the error.\<close>

definition main_start ::
  "config_env \<Rightarrow> serde \<Rightarrow> (rpc \<Rightarrow> nat \<Rightarrow> poster) \<Rightarrow> (rpc \<Rightarrow> nat \<Rightarrow> nat) \<Rightarrow>
     (starting_latency_resp list \<Rightarrow> starting_latency_resp list) \<Rightarrow>
     (sled_config \<Rightarrow> 'e + 's) \<Rightarrow> (rocksdb_setting list \<Rightarrow> 'e + 'r) \<Rightarrow>
     ('s, 'e1) database \<Rightarrow> ('r, 'e2) database \<Rightarrow> bool \<Rightarrow> usize \<Rightarrow> blutgang_args \<Rightarrow>
     ('s, 'r) main_result outcome" where
  "main_start E S post nanos arrival open_sled open_rocks Ds Dr bound next_id a =
     obind (try_parse E next_id a)
       (\<lambda>parsed.
          case parsed of
            Inl e \<Rightarrow> Ret (BadConfig e)
          | Inr settings \<Rightarrow>
              obind (start_settings S post nanos arrival settings)
                (\<lambda>c. case set_cache c of
                       SledSettings s \<Rightarrow>
                         (case open_sled s of
                            Inl e \<Rightarrow> Panic
                          | Inr d \<Rightarrow> run_result SledRuns (run_start Ds bound d c))
                     | RocksDbSettings s \<Rightarrow>
                         (case open_rocks s of
                            Inl e \<Rightarrow> Panic
                          | Inr d \<Rightarrow> run_result RocksRuns (run_start Dr bound d c))))"

text \<open>What every started program satisfies.\<close>

definition starts_sound :: "'db program \<Rightarrow> bool" where
  "starts_sound p \<longleftrightarrow>
     pool_ok (contents (prog_rpcs p)) (contents (prog_poverty p)) \<and>
     \<not> poisoned (prog_rpcs p) \<and> \<not> poisoned (prog_poverty p) \<and>
     (NewHeadsTask \<in> set (prog_tasks p) \<longrightarrow> ConnectionManagerTask \<in> set (prog_tasks p)) \<and>
     (HealthCheckTask \<notin> set (prog_tasks p) \<longrightarrow> NewHeadsTask \<notin> set (prog_tasks p)) \<and>
     (AdminTask \<in> set (prog_tasks p)) \<noteq> (LivenessSink \<in> set (prog_tasks p))"

lemma run_start_tasks:
  assumes "run_start D bound s c = Ret (Some p)"
  shows "bound"
    and "NewHeadsTask \<in> set (prog_tasks p) \<longrightarrow> ConnectionManagerTask \<in> set (prog_tasks p)"
    and "HealthCheckTask \<notin> set (prog_tasks p) \<longrightarrow> NewHeadsTask \<notin> set (prog_tasks p)"
    and "(AdminTask \<in> set (prog_tasks p)) \<noteq> (LivenessSink \<in> set (prog_tasks p))"
  using assms by (auto simp: run_start_def obind_Ret_iff split: if_splits)

lemma run_result_cases:
  assumes "run_result f (run_start D bound s c) = Ret res"
  shows "res = NoAddress \<and> \<not> bound \<or> (\<exists>p. res = f p \<and> run_start D bound s c = Ret (Some p))"
  using assms by (auto simp: run_result_def run_start_def obind_Ret_iff split: option.splits if_splits)

lemma run_starts_sound:
  assumes "try_parse E i a = Ret (Inr c)" "length (set_rpc_list c) \<le> 2 ^ 64"
    and "start_settings S post nanos arrival c = Ret c'" "\<And>xs. mset (arrival xs) = mset xs"
    and "run_start D bound s c' = Ret (Some p)"
  shows "starts_sound p"
  using started_program [OF assms] run_start_tasks [OF assms(5)] by (simp add: starts_sound_def)

text \<open>C18. Whatever the command line and the file say, a start of the program that does not panic has
  one of three ends: it gives back the error of the settings, or that of the address, or it
  accepts connections. Then every endpoint has an id of its own and is in one of the two lists,
  with the flag of that list (this is the invariant the health check keeps), the locks are
  good, the head of the chain is followed only with health checks and websocket connections,
  and the liveness updates have exactly one reader.\<close>

theorem main_starts_soundly:
  assumes "main_start E S post nanos arrival open_sled open_rocks Ds Dr bound i a = Ret res"
    and "\<And>xs. mset (arrival xs) = mset xs"
    and "\<And>c. try_parse E i a = Ret (Inr c) \<Longrightarrow> length (set_rpc_list c) \<le> 2 ^ 64"
  shows "case res of
           BadConfig e \<Rightarrow> try_parse E i a = Ret (Inl e)
         | NoAddress \<Rightarrow> \<not> bound
         | SledRuns p \<Rightarrow> starts_sound p
         | RocksRuns p \<Rightarrow> starts_sound p"
proof -
  from assms(1) obtain parsed where p: "try_parse E i a = Ret parsed" by (auto simp: main_start_def obind_Ret_iff)
  show ?thesis
  proof (cases parsed)
    case (Inl e)
    with assms(1) p show ?thesis by (auto simp: main_start_def)
  next
    case (Inr c)
    with assms(1) p obtain c' where c': "start_settings S post nanos arrival c = Ret c'"
      by (auto simp: main_start_def obind_Ret_iff)
    note sound = run_starts_sound [OF p [unfolded Inr] assms(3) [OF p [unfolded Inr]] c' assms(2)]
    show ?thesis
    proof (cases "set_cache c'")
      case (SledSettings s)
      with assms(1) p Inr c' obtain d where "run_result SledRuns (run_start Ds bound d c') = Ret res"
        by (auto simp: main_start_def split: sum.splits)
      from run_result_cases [OF this] sound show ?thesis by auto
    next
      case (RocksDbSettings s)
      with assms(1) p Inr c' obtain d where "run_result RocksRuns (run_start Dr bound d c') = Ret res"
        by (auto simp: main_start_def split: sum.splits)
      from run_result_cases [OF this] sound show ?thesis by auto
    qed
  qed
qed

theorem main_starts_soundly_witness:
  "\<forall>repr S post nanos.
     main_start (no_file repr) S post nanos rev (\<lambda>s. Inr [] :: string + (string, string) btree)
       (\<lambda>s. Inl [] :: string + (string, string) btree) (rocks_database mem_engine) (rocks_database mem_engine) True 0 cli_only =
       Ret (SledRuns cli_program) \<and> starts_sound cli_program"
proof (intro allI)
  fix repr S post nanos
  have st: "start_settings S post nanos rev cli_settings = Ret cli_settings"
    by (simp add: start_settings_def cli_settings_def settings_default_def)
  obtain s where "set_cache cli_settings = SledSettings s" by (simp add: cli_settings_def settings_default_def)
  then have m: "main_start (no_file repr) S post nanos rev (\<lambda>s. Inr [] :: string + (string, string) btree)
     (\<lambda>s. Inl [] :: string + (string, string) btree) (rocks_database mem_engine) (rocks_database mem_engine) True 0 cli_only =
     Ret (SledRuns cli_program)" (is ?runs)
    using cli_runs by (simp add: main_start_def cli_parses st run_result_def)
  have "length (set_rpc_list c) \<le> 2 ^ 64" if "try_parse (no_file repr) 0 cli_only = Ret (Inr c)" for c
    using that by (simp add: cli_parses) (auto simp: cli_settings_def)
  from main_starts_soundly [OF m _ this] m show "?runs \<and> starts_sound cli_program" by simp
qed

section \<open>Accepting connections\<close>

text \<open>The loop at the end of \<open>run\<close>: each connection is handed to a task of its own, and the first
  error of the listener is returned, which ends the program. \<open>None\<close> while it goes on.\<close>

datatype 'c arrival = Connects 'c | AcceptFails string

fun accept_loop :: "'c arrival list \<Rightarrow> 'c list \<times> string option" where
  "accept_loop [] = ([], None)"
| "accept_loop (Connects c # as) = (case accept_loop as of (cs, e) \<Rightarrow> (c # cs, e))"
| "accept_loop (AcceptFails e # as) = ([], Some e)"

section \<open>A connection\<close>

text \<open>One request of a client with the surroundings it meets.\<close>

record exchange =
  x_side :: cache_side
  x_outside :: outside
  x_config :: "settings rwlock"
  x_upgraded :: "string + response"
  x_elapsed :: nat
  x_request :: http_request

text \<open>What \<open>accept_request\<close> reads of the configuration.\<close>

definition ws_flag :: "settings rwlock \<Rightarrow> bool rwlock" where
  "ws_flag config = \<lparr>contents = set_is_ws (contents config), poisoned = poisoned config\<rparr>"

definition params_of :: "settings rwlock \<Rightarrow> request_params" where
  "params_of config =
     \<lparr>ttl = set_ttl (contents config), max_retries = set_max_retries (contents config),
      header_check = set_header_check (contents config)\<rparr>"

text \<open>\<open>accept!\<close>: the requests of a connection are answered one after the other; a panic ends the
  task of the connection without an answer.\<close>

fun serve_connection :: "exchange list \<Rightarrow> work \<Rightarrow> work \<times> response list \<times> bool" where
  "serve_connection [] w = (w, [], True)"
| "serve_connection (x # xs) w =
     (case accept_request (x_side x) (x_outside x) (ws_flag (x_config x)) (params_of (x_config x))
             (x_upgraded x) (x_elapsed x) (x_request x) w of
        (w1, Panic) \<Rightarrow> (w1, [], False)
      | (w1, Ret resp) \<Rightarrow> (case serve_connection xs w1 of (w2, resps, alive) \<Rightarrow> (w2, resp # resps, alive)))"

section \<open>The admin listener\<close>

text \<open>One request to the admin endpoint: the updates the liveness monitor has had by then, and the
  request. The monitor's channel is never closed while the listener lives.\<close>

record admin_exchange =
  ax_env :: admin_env
  ax_decode :: "string \<Rightarrow> string \<Rightarrow> claims option"
  ax_updates :: "live_ready_update list"
  ax_request :: admin_request

definition monitor_reply :: "live_ready_update list \<Rightarrow> live_ready option" where
  "monitor_reply us = (case liveness_monitor us of Ret v \<Rightarrow> Some v | Panic \<Rightarrow> None)"

text \<open>\<open>accept_admin!\<close>. After \<open>blutgang_quit\<close> there is no process left to answer.\<close>

fun serve_admin_connection :: "admin_exchange list \<Rightarrow> admin_state \<Rightarrow> admin_state \<times> response list \<times> bool" where
  "serve_admin_connection [] st = (st, [], True)"
| "serve_admin_connection (x # xs) st =
     (case accept_admin_request (ax_env x) (ax_decode x) (monitor_reply (ax_updates x)) (ax_request x) st of
        (Panic, st1) \<Rightarrow> (st1, [], False)
      | (Ret resp, st1) \<Rightarrow>
          (if ad_exited st1 then (st1, [], False)
           else case serve_admin_connection xs st1 of (st2, resps, alive) \<Rightarrow> (st2, resp # resps, alive)))"

text \<open>\<open>admin_api_server\<close>: \<open>listening\<close> is what binding the address gives, the arrivals or an error. The
  result is the connections that were handed to tasks and the error that ended the server.\<close>

definition admin_api_server :: "(string \<Rightarrow> string + 'c arrival list) \<Rightarrow> string \<Rightarrow> 'c list \<times> string option" where
  "admin_api_server listening address =
     (case listening address of Inl e \<Rightarrow> ([], Some e) | Inr as \<Rightarrow> accept_loop as)"

text \<open>\<open>listen_for_admin_requests\<close>: the address is read under the lock, which panics when it is
  poisoned; the monitor runs before the address is bound.\<close>

definition listen_for_admin_requests ::
  "settings rwlock \<Rightarrow> (string \<Rightarrow> string + 'c arrival list) \<Rightarrow> ('c list \<times> string option) outcome" where
  "listen_for_admin_requests config listening =
     (if poisoned config then Panic
      else Ret (admin_api_server listening (admin_address (set_admin (contents config)))))"

section \<open>What the loops and connections do\<close>

text \<open>The accept loop serves exactly the connections before the first error.\<close>

lemma accept_loop_eq:
  "accept_loop as =
     (concat (map (\<lambda>a. case a of Connects c \<Rightarrow> [c] | AcceptFails e \<Rightarrow> [])
                (takeWhile (\<lambda>a. case a of Connects c \<Rightarrow> True | AcceptFails e \<Rightarrow> False) as)),
      case find (\<lambda>a. case a of Connects c \<Rightarrow> False | AcceptFails e \<Rightarrow> True) as of
        Some (AcceptFails e) \<Rightarrow> Some e | _ \<Rightarrow> None)"
  by (induction as rule: accept_loop.induct) (simp_all add: case_prod_beta)

text \<open>A connection answers its requests in order, all of them unless it panics.\<close>

lemma serve_connection_answers:
  assumes "serve_connection xs w = (w', resps, alive)"
  shows "length resps \<le> length xs" and "alive \<longleftrightarrow> length resps = length xs"
  using assms
  by (induction xs arbitrary: w resps) (fastforce split: prod.splits outcome.splits)+

end
