(* ===== verification/EndToEnd.thy ===== *)
theory EndToEnd
  imports Pools SubSpec CacheProgram Server
begin

text \<open>
  Properties of several components together: from the configuration to the endpoint lists of the
  running program, and from the subscription of a websocket user to the notifications it gets.
\<close>

section \<open>From the configuration to the running program\<close>

definition started_pools :: "'db program \<Rightarrow> usize \<Rightarrow> pools" where
  "started_pools p n = \<lparr>pl_active = prog_rpcs p, pl_poverty = prog_poverty p, pl_next = n\<rparr>"

text \<open>C3. The lists stay sound for the whole life of the program: whatever is configured and
  whatever order the start-up measurements and all later events come in, no endpoint ever is
  in a list twice or in both, and no flagged endpoint is active; as long as connections hold and
  the admin is silent, the endpoints are those the program started with, each with the flag of
  its list.\<close>

theorem lists_stay_sound_from_the_start:
  assumes "try_parse E i a = Ret (Inr c)" "length (set_rpc_list c) \<le> 2 ^ 64"
    and "start_settings S post nanos arrival c = Ret c'" "\<And>xs. mset (arrival xs) = mset xs"
    and "run_start D bound s c' = Ret (Some p)"
    and "\<forall>i\<in>ids (contents (prog_rpcs p)) \<union> ids (contents (prog_poverty p)). i < n"
    and "pool_run P (started_pools p n) q"
  shows "distinct (map rpc_id (act_list q @ pov_list q)) \<and>
         (\<forall>r\<in>set (act_list q). \<not> is_erroring (status r)) \<and>
         (P = quiet \<longrightarrow> pool_ok (act_list q) (pov_list q) \<and>
            endpoints q = ids (contents (prog_rpcs p)) \<union> ids (contents (prog_poverty p)))"
proof -
  have ok: "pool_ok (act_list (started_pools p n)) (pov_list (started_pools p n))"
    using started_program [OF assms(1-5)] by (simp add: started_pools_def)
  have "pools_sound (started_pools p n)"
    using ok assms(6) by (simp add: pools_sound_def pool_ok_def started_pools_def)
  with run_sound [OF assms(7)] have "pools_sound q" by blast
  moreover have "pool_ok (act_list q) (pov_list q) \<and> endpoints q = endpoints (started_pools p n)" if "P = quiet"
    using quiet_run_conserves [OF assms(7) [unfolded that] ok] .
  ultimately show ?thesis
    using pools_soundD [of q] by (simp add: endpoints_def started_pools_def)
qed

theorem lists_stay_sound_from_the_start_witness:
  "distinct (map rpc_id (act_list (pool_act (Lost 0) (started_pools cli_program 1)) @
                         pov_list (pool_act (Lost 0) (started_pools cli_program 1))))"
proof -
  have st: "start_settings S post nanos rev cli_settings = Ret cli_settings" for S post nanos
    by (simp add: start_settings_def cli_settings_def settings_default_def)
  have len: "length (set_rpc_list cli_settings) \<le> 2 ^ 64" by (simp add: cli_settings_def)
  have run: "pool_run (\<lambda>_. True) (started_pools cli_program 1) (pool_act (Lost 0) (started_pools cli_program 1))"
    by (intro run_event run_nil) simp_all
  have "\<forall>i\<in>ids (contents (prog_rpcs cli_program)) \<union> ids (contents (prog_poverty cli_program)). i < 1"
    by (simp add: cli_program_def cli_settings_def new_lock_def rpc_new_def)
  from lists_stay_sound_from_the_start [OF cli_parses len st _ cli_runs this run] show ?thesis by (metis mset_rev)
qed

section \<open>From a subscription to its notifications\<close>

lemma method_eq: "json_eq_method (JStr s) m \<longleftrightarrow> s = method_str m"
  by (auto simp: json_eq_method_def)

lemma prepared_without_block:
  assumes "is_object call" "jindex call ''method'' = JStr (method_str m)" "get_position (Some (method_str m)) = None"
  shows "\<exists>call2. prepared C call = Ret call2 \<and> is_object call2 \<and> (\<forall>k. k \<noteq> ''id'' \<longrightarrow> jindex call2 k = jindex call k)"
proof -
  obtain call2 where c: "jset ''id'' JNull call = Ret call2" "is_object call2" using jset_object [OF assms(1)] by blast
  note j = jindex_jset [OF c(1)]
  have "replace_block_tags (codec C) call2 (named_now C) = Ret call2"
    using assms(2,3) by (simp add: replace_block_tags_def j)
  with c j show ?thesis by (simp add: prepared_def)
qed

lemma no_position: "get_position (Some (method_str eth_rpc_method.Subscribe)) = None"
  "get_position (Some (method_str eth_rpc_method.Unsubscribe)) = None"
  by (simp_all only: get_position_str eth_rpc_method.case)

text \<open>The first user of a subscription: its tables after the answer.\<close>

lemma first_subscription:
  assumes "is_object call" "jindex call ''method'' = JStr ''eth_subscribe''" "jindex call ''params'' = JArr (p # ps)"
    and "\<And>k. db_reply (side_of W) k = Inr None" "manager_up W"
    and "while_waiting W (io_subs io, io_head io) = (sd, hc)"
    and "registered (io_subs io) (to_text (codec (side_of W)) (JArr (p # ps))) = None"
    and "listen_for_response u (heard W) = Some (Inr resp)" "jindex (content resp) ''result'' = JStr sid"
  defines "key \<equiv> to_text (codec (side_of W)) (JArr (p # ps))"
  shows "\<exists>io1 text. execute_ws_call W u call io = (io1, Ret (Some (Inr text))) \<and>
           io_subs io1 = snd (raw_subscribe u key (raw_register key sid (from_node resp) sd))"
proof -
  have sub: "method_str eth_rpc_method.Subscribe = ''eth_subscribe''" "''eth_subscribe'' \<noteq> method_str eth_rpc_method.Unsubscribe"
    by code_simp+
  obtain call2 where c: "prepared (side_of W) call = Ret call2" "is_object call2"
    "\<And>k. k \<noteq> ''id'' \<Longrightarrow> jindex call2 k = jindex call k"
    using prepared_without_block [OF assms(1), of eth_rpc_method.Subscribe "side_of W"] assms(2) no_position(1) sub(1) by auto
  have m: "jindex call2 ''method'' = JStr ''eth_subscribe''" "jindex call2 ''params'' = JArr (p # ps)"
    using c(3) assms(2,3) by auto
  obtain call3 where c3: "jset ''id'' (JNum (PosInt (ucast u))) call2 = Ret call3" using jset_object [OF c(2)] by blast
  have m3: "jindex call3 ''params'' = JArr (p # ps)" using jindex_jset [OF c3] m(2) by simp
  have obj: "is_object (content resp)" using assms(9) by (cases "content resp") (auto simp: jindex_def)
  then obtain ans where ans: "jset ''id'' (jindex call ''id'') (content resp) = Ret ans" using jset_object by blast
  have fresh: "subscribe_user (codec (side_of W)) u call2 (io_subs io) = (Inl FailedParsing, io_subs io)"
    using m(2) assms(7) by (simp add: subscribe_user_def subscription_key_def raw_subscribe_None)
  let ?sd1 = "raw_register key sid (from_node resp) sd"
  have "registered ?sd1 key = Some \<lparr>node_id = from_node resp, subscription_id = sid\<rparr>" by (simp add: sub_simps)
  from raw_subscribe_Some [OF this, of u] obtain sd2 where sd2: "raw_subscribe u key ?sd1 = (Inr sid, sd2)" by auto
  then have join: "subscribe_user (codec (side_of W)) u call3 (register_subscription (codec (side_of W)) call3 sid (from_node resp) sd) =
      (Inr sid, sd2)"
    using m3 by (simp add: subscribe_user_def register_subscription_def subscription_key_def key_def)
  have "execute_ws_call W u call io = ws_forward W u (jindex call ''id'') (hash_of (side_of W) (to_text (codec (side_of W)) call2)) call2 True io"
    using m(1) sub fresh assms(4)
    by (simp add: execute_ws_call_prepared [OF assms(1) c(1)] method_eq Let_def)
  then show ?thesis
    using c3 assms(5,6,8,9) join ans sd2
    by (simp add: ws_forward_def ws_answer_def Let_def)
qed

lemma unsubscription:
  assumes "is_object call" "jindex call ''method'' = JStr ''eth_unsubscribe''" "jindex call ''params'' = JArr [JStr sid]"
    and "\<And>k. db_reply (side_of W) k = Inr None" "get_node_from_id sid (io_subs io) \<noteq> None"
  shows "\<exists>io2 text. execute_ws_call W u call io = (io2, Ret (Some (Inr text))) \<and>
           io_subs io2 = unsubscribe_user u sid (io_subs io)"
proof -
  have uns: "method_str eth_rpc_method.Unsubscribe = ''eth_unsubscribe''" by code_simp
  obtain call2 where c: "prepared (side_of W) call = Ret call2"
    "\<And>k. k \<noteq> ''id'' \<Longrightarrow> jindex call2 k = jindex call k"
    using prepared_without_block [OF assms(1), of eth_rpc_method.Unsubscribe "side_of W"] assms(2) no_position(2) uns by auto
  have m: "jindex call2 ''method'' = JStr ''eth_unsubscribe''" "jnth (jindex call2 ''params'') 0 = JStr sid"
    using c(2) assms(2,3) by auto
  obtain n where n: "get_node_from_id sid (io_subs io) = Some n" using assms(5) by blast
  show ?thesis
    using m uns assms(4) n
    by (simp add: execute_ws_call_prepared [OF assms(1) c(1)] method_eq Let_def unsubscribe_call_def)
qed

lemma registered_found:
  assumes "registered sd key = Some \<lparr>node_id = n, subscription_id = sid\<rparr>"
  shows "get_node_from_id sid sd \<noteq> None"
proof
  assume "get_node_from_id sid sd = None"
  then have "find (\<lambda>(k, i). subscription_id i = sid) (incoming sd) = None" by (simp add: get_node_from_id_def)
  then have none: "\<not> (\<lambda>(k, i). subscription_id i = sid) x" if "x \<in> set (incoming sd)" for x
    using that unfolding find_None_iff by blast
  have "(key, \<lparr>node_id = n, subscription_id = sid\<rparr>) \<in> set (incoming sd)"
    using assms by (simp add: registered_def map_of_SomeD)
  from none [OF this] show False by simp
qed

text \<open>The deliveries of the dispatcher for a notification.\<close>

definition notified :: "(channel \<Rightarrow> bool) \<Rightarrow> incoming_response \<Rightarrow> sub_data \<Rightarrow> delivery set" where
  "notified alive note sd = set (fst (snd (dispatcher_step alive note sd)))"

lemma notified_iff:
  assumes "jindex (content note) ''method'' = JStr ''eth_subscription''"
    and "jindex (jindex (content note) ''params'') ''subscription'' = JStr sid"
  shows "(u, ch, m) \<in> notified alive note sd \<longleftrightarrow>
    (\<exists>us. subscribers sd \<lparr>node_id = from_node note, subscription_id = sid\<rparr> = Some us \<and> u \<in> set us) \<and>
    map_of (users sd) u = Some ch \<and> alive ch \<and> m = SubscriptionResult (content note)"
proof -
  have s: "method_str Subscription = ''eth_subscription''" by code_simp
  let ?d = "dispatch_to_subscribers alive sid (from_node note) (SubscriptionResult (content note)) sd"
  have "fst (snd (dispatcher_step alive note sd)) = snd (snd ?d)"
    using assms s by (simp add: dispatcher_step_def json_eq_method_def split: prod.split sum.split bool.split)
  moreover have "(u, ch, m) \<in> set (snd (snd ?d)) \<longleftrightarrow>
    (\<exists>us. subscribers sd \<lparr>node_id = from_node note, subscription_id = sid\<rparr> = Some us \<and> u \<in> set us) \<and>
    map_of (users sd) u = Some ch \<and> alive ch \<and> m = SubscriptionResult (content note)"
  proof (cases "subscribers sd \<lparr>node_id = from_node note, subscription_id = sid\<rparr>")
    case None
    then show ?thesis by (simp add: dispatch_to_subscribers_def subscribers_def)
  next
    case (Some us)
    have "snd (snd ?d) = map (\<lambda>(u, ch). (u, ch, SubscriptionResult (content note)))
        (filter (\<lambda>(u, ch). alive ch) (recipients us sd))"
      using Some by (cases "us = []") (simp_all add: dispatch_to_subscribers_def subscribers_def send_all_eq recipients_def)
    then show ?thesis using Some by (auto simp: recipients_iff)
  qed
  ultimately show ?thesis by (simp add: notified_def)
qed


text \<open>A user subscribes to new heads, hears one, and unsubscribes.\<close>

definition heads_call :: json where
  "heads_call = JObj [(''id'', JNum (PosInt 1)), (''method'', JStr ''eth_subscribe''), (''params'', JArr [JStr ''newHeads''])]"

definition heads_answer :: incoming_response where
  "heads_answer = \<lparr>content = JObj [(''id'', JNum (PosInt 7)), (''result'', JStr ''0xa'')], from_node = 1\<rparr>"

definition heads_note :: incoming_response where
  "heads_note =
     \<lparr>content = JObj [(''method'', JStr ''eth_subscription''),
                      (''params'', JObj [(''result'', JStr ''0x1b4''), (''subscription'', JStr ''0xa'')])],
      from_node = 1\<rparr>"

definition leave_call :: json where
  "leave_call = JObj [(''id'', JNum (PosInt 2)), (''method'', JStr ''eth_unsubscribe''), (''params'', JArr [JStr ''0xa''])]"

definition heads_world :: ws_surroundings where
  "heads_world = late_world\<lparr>heard := [Inr heads_answer]\<rparr>"

definition one_user :: ws_io where
  "one_user = quiet_io\<lparr>io_subs := \<lparr>users = [(7, 70)], subscriptions = [], incoming = []\<rparr>\<rparr>"


end
