(* ===== verification/PickRuns.thy ===== *)
theory PickRuns
  imports Processing
begin

text \<open>
  The limits of the endpoints over time (\<open>src/src/balancer/selection/select.rs\<close>): a run of picks of the
  default algorithm, at any times and with any latency updates in between, and the log of what
  was picked. The limits are a property of the log alone: how often in a row an endpoint was
  picked, and how long after its last pick.
\<close>

section \<open>Runs\<close>

datatype turn = PickAt u128 | Measure usize nat

record entry =
  en_time :: u128
  en_pos :: nat
  en_free :: bool

text \<open>One turn; the log has the newest entry first, and says whether some endpoint was free to take
  the request.\<close>

definition pick_turn :: "rpc \<Rightarrow> turn \<Rightarrow> entry list \<times> rpc list rwlock \<Rightarrow> entry list \<times> rpc list rwlock" where
  "pick_turn dflt ev st =
     (let (es, rl) = st
      in case ev of
           Measure i nanos \<Rightarrow> (es, snd (update_rpc_latency rl i nanos))
         | PickAt now \<Rightarrow>
             (case pick (algo sort_key now) dflt (contents rl) of
                ((r, None), l) \<Rightarrow> (es, rl\<lparr>contents := l\<rparr>)
              | ((r, Some i), l) \<Rightarrow>
                  (\<lparr>en_time = now, en_pos = i, en_free = list_ex (eligible now) (contents rl)\<rparr> # es,
                   rl\<lparr>contents := l\<rparr>)))"

definition pick_turns :: "rpc \<Rightarrow> turn list \<Rightarrow> rpc list rwlock \<Rightarrow> entry list \<times> rpc list rwlock" where
  "pick_turns dflt evs rl = fold (pick_turn dflt) evs ([], rl)"

section \<open>Limits of a log\<close>

text \<open>The number of free picks of \<open>i\<close> at the end of the log, and the time of its last pick.\<close>

definition streak :: "nat \<Rightarrow> entry list \<Rightarrow> nat" where
  "streak i es = length (takeWhile (\<lambda>e. en_pos e = i \<and> en_free e) es)"

definition last_pick :: "nat \<Rightarrow> entry list \<Rightarrow> u128 option" where
  "last_pick i es = map_option en_time (find (\<lambda>e. en_pos e = i) es)"

fun limits_kept :: "(nat \<Rightarrow> u32) \<Rightarrow> (nat \<Rightarrow> u128) \<Rightarrow> entry list \<Rightarrow> bool" where
  "limits_kept mc delta [] = True"
| "limits_kept mc delta (e # es) \<longleftrightarrow>
     limits_kept mc delta es \<and>
     (en_free e \<longrightarrow>
        Suc (streak (en_pos e) es) \<le> unat (mc (en_pos e)) \<and>
        (case last_pick (en_pos e) es of
           None \<Rightarrow> True
         | Some t \<Rightarrow> unat (delta (en_pos e)) < unat (en_time e) - unat t))"

section \<open>Picks keep the limits\<close>

text \<open>The counters and stamps of the endpoints are what the log says.\<close>

definition stamped :: "entry list \<Rightarrow> rpc list \<Rightarrow> bool" where
  "stamped es l \<longleftrightarrow>
     (\<forall>i<length l. streak i es \<le> unat (consecutive (l ! i)) \<and>
        (\<forall>t. last_pick i es = Some t \<longrightarrow> last_used (l ! i) = t))"

definition limits_of :: "rpc list \<Rightarrow> (u32 \<times> u128) list" where
  "limits_of l = map (\<lambda>r. (max_consecutive r, min_time_delta r)) l"

lemma limits_of_nth:
  "limits_of l = limits_of l' \<Longrightarrow> i < length l \<Longrightarrow>
     max_consecutive (l ! i) = max_consecutive (l' ! i) \<and> min_time_delta (l ! i) = min_time_delta (l' ! i)"
proof -
  assume l: "limits_of l = limits_of l'" and i: "i < length l"
  have "length l' = length l" using arg_cong [OF l, of length] unfolding limits_of_def length_map by (rule sym)
  then have "limits_of l ! i = (max_consecutive (l ! i), min_time_delta (l ! i))"
    "limits_of l' ! i = (max_consecutive (l' ! i), min_time_delta (l' ! i))"
    using i unfolding limits_of_def by (simp_all only: nth_map)
  then show ?thesis unfolding l by simp
qed

lemma core_limits: "map core l = map core l' \<Longrightarrow> limits_of l = limits_of l'"
proof -
  assume m: "map core l = map core l'"
  have "limits_of l = map (\<lambda>r. (max_consecutive r, min_time_delta r)) (map core l)" for l
    by (simp add: limits_of_def core_def)
  from this [of l] this [of l'] show ?thesis unfolding m by simp
qed

lemma measure_keeps:
  assumes "update_rpc_latency rl i nanos = (res, rl')"
  shows "length (contents rl') = length (contents rl) \<and> limits_of (contents rl') = limits_of (contents rl) \<and>
         (stamped es (contents rl) \<longrightarrow> stamped es (contents rl'))"
proof (cases "position (\<lambda>r. rpc_id r = i) (contents rl)")
  case (Some j)
  note j = position_Some [OF Some]
  show ?thesis
  proof (cases "update_latency (f64_of_nat nanos) (contents rl ! j)")
    case (Ret r)
    then obtain s where r: "r = (contents rl ! j)\<lparr>status := s\<rparr>" using update_latency_frame by blast
    have "limits_of ((contents rl)[j := r]) = limits_of (contents rl)"
      using j by (simp add: limits_of_def map_update r list_update_same_conv)
    moreover have "consecutive ((contents rl)[j := r] ! i) = consecutive (contents rl ! i) \<and>
        last_used ((contents rl)[j := r] ! i) = last_used (contents rl ! i)" for i
      using j by (cases "i = j") (simp_all add: r)
    then have "stamped es (contents rl) \<Longrightarrow> stamped es ((contents rl)[j := r])" by (simp add: stamped_def)
    ultimately show ?thesis using assms Some Ret by (auto simp: update_rpc_latency_def)
  qed (use assms Some in \<open>auto simp: update_rpc_latency_def\<close>)
qed (use assms in \<open>auto simp: update_rpc_latency_def\<close>)

lemma streak_Cons: "streak i (e # es) = (if en_pos e = i \<and> en_free e then Suc (streak i es) else 0)"
  by (simp add: streak_def)

lemma last_pick_Cons: "last_pick i (e # es) = (if en_pos e = i then Some (en_time e) else last_pick i es)"
  by (simp add: last_pick_def)

text \<open>A pick of a list of two or more.\<close>

lemma pick_stamped:
  fixes now :: u128
  assumes "2 \<le> length l" "stamped es l"
  defines "c \<equiv> chosen sort_key now l"
  shows "\<exists>l'. pick (algo sort_key now) dflt l = ((bumped now (l ! c), Some c), l') \<and>
           length l' = length l \<and> limits_of l' = limits_of l \<and>
           stamped (\<lparr>en_time = now, en_pos = c, en_free = list_ex (eligible now) l\<rparr> # es) l' \<and>
           (list_ex (eligible now) l \<longrightarrow>
              Suc (streak c es) \<le> unat (max_consecutive (l ! c)) \<and>
              (\<forall>t. last_pick c es = Some t \<longrightarrow> unat (min_time_delta (l ! c)) < unat now - unat t))"
proof -
  from assms(1) have l: "l \<noteq> []" "length l \<noteq> 1" by auto
  have c: "c < length l" unfolding c_def by (rule std_sort.chosen_less [OF l(1)])
  let ?l = "(reset {..<length l} l)[c := bumped now (l ! c)]"
  have p: "pick (algo sort_key now) dflt l = ((bumped now (l ! c), Some c), ?l)"
    using l by (simp add: pick_def std_sort.algo_closed c_def)
  have lim: "limits_of ?l = limits_of l"
    by (rule core_limits) (use default_algo.pick_core [of now dflt l] p in simp)
  have free: "eligible now (l ! c)" if "list_ex (eligible now) l"
  proof -
    from that obtain j where "j < length l" "eligible now (l ! j)" by (auto simp: list_ex_iff in_set_conv_nth)
    from std_sort.chosen_fastest_eligible [OF l(1) this] show ?thesis by (simp add: c_def)
  qed
  have s: "streak c es \<le> unat (consecutive (l ! c))" "\<And>t. last_pick c es = Some t \<Longrightarrow> last_used (l ! c) = t"
    using assms(2) c by (auto simp: stamped_def)
  have up: "Suc (streak c es) \<le> unat (consecutive (bumped now (l ! c)))" if "list_ex (eligible now) l"
    using free [OF that] s(1) unat_Suc_less [of "consecutive (l ! c)"] by (auto simp: bumped_def eligible_def)
  have "stamped (\<lparr>en_time = now, en_pos = c, en_free = list_ex (eligible now) l\<rparr> # es) ?l"
    using up assms(2) c
    by (auto simp: stamped_def streak_Cons last_pick_Cons nth_list_update reset_nth bumped_def)
  moreover have "Suc (streak c es) \<le> unat (max_consecutive (l ! c)) \<and>
      (\<forall>t. last_pick c es = Some t \<longrightarrow> unat (min_time_delta (l ! c)) < unat now - unat t)"
    if "list_ex (eligible now) l"
    using free [OF that] s by (auto simp: eligible_def word_less_nat_alt unat_saturating_sub)
  ultimately show ?thesis using p lim by auto
qed

text \<open>The invariant of a run.\<close>

definition run_ok :: "rpc list \<Rightarrow> entry list \<times> rpc list rwlock \<Rightarrow> bool" where
  "run_ok l0 st \<longleftrightarrow>
     length (contents (snd st)) = length l0 \<and> limits_of (contents (snd st)) = limits_of l0 \<and>
     stamped (fst st) (contents (snd st)) \<and>
     limits_kept (\<lambda>i. max_consecutive (l0 ! i)) (\<lambda>i. min_time_delta (l0 ! i)) (fst st)"

lemma pick_turn_ok:
  assumes "2 \<le> length l0" "run_ok l0 st"
  shows "run_ok l0 (pick_turn dflt ev st)"
proof -
  obtain es rl where st: "st = (es, rl)" by (cases st)
  from assms(2) have ok: "length (contents rl) = length l0" "limits_of (contents rl) = limits_of l0" "stamped es (contents rl)"
    "limits_kept (\<lambda>i. max_consecutive (l0 ! i)) (\<lambda>i. min_time_delta (l0 ! i)) es"
    by (simp_all add: run_ok_def st)
  show ?thesis
  proof (cases ev)
    case (Measure i nanos)
    obtain res rl' where u: "update_rpc_latency rl i nanos = (res, rl')" by fastforce
    from measure_keeps [OF u, of es] ok u show ?thesis by (simp add: pick_turn_def st Measure run_ok_def)
  next
    case (PickAt now)
    let ?c = "chosen sort_key now (contents rl)"
    have two: "2 \<le> length (contents rl)" using assms(1) ok(1) by simp
    then have c: "?c < length (contents rl)" by (intro std_sort.chosen_less) auto
    from pick_stamped [OF two ok(3), of now dflt] limits_of_nth [OF ok(2) c] ok show ?thesis
      by (auto simp: pick_turn_def st PickAt run_ok_def split: option.split)
  qed
qed



end
