(* ===== verification/ConfigSpec.thy ===== *)
theory ConfigSpec
  imports StartUp
begin

text \<open>
  The precedence of the settings (\<open>src/src/config/types.rs\<close>): what the command line gives is not
  touched by any configuration file.
\<close>

lemma or_else_given: "x \<noteq> None \<Longrightarrow> or_else x y = x"
  by (cases x) simp_all

lemma flag_given: "yes \<or> no \<Longrightarrow> flag yes no f d = yes"
  by (auto simp: flag_def)

text \<open>The fields of the settings, by the way they are read.\<close>

lemma parsed_numbers:
  assumes "try_parse E i a = Ret (Inr c)"
  shows "\<forall>n. arg_ttl a = Some n \<longrightarrow> set_ttl c = n"
    "\<forall>n. arg_max_retries a = Some n \<longrightarrow> set_max_retries c = n"
    "\<forall>n. arg_health_check_ttl a = Some n \<longrightarrow> set_health_check_ttl c = n"
    "\<forall>n. arg_expected_block_time a = Some n \<longrightarrow> set_expected_block_time c = padded_block_time n"
    "\<forall>x. arg_ma_length a = Some x \<longrightarrow> set_ma_length c = x"
  using assms
  by (auto simp: try_parse_def obind_Ret_iff Let_def or_default_def split: sum.splits)

lemma parsed_flags:
  assumes "try_parse E i a = Ret (Inr c)"
  shows "arg_clear_cache a \<or> arg_no_clear_cache a \<longrightarrow> set_do_clear c = arg_clear_cache a"
    "arg_sort_on_startup a \<or> arg_no_sort_on_startup a \<longrightarrow> set_sort_on_startup c = arg_sort_on_startup a"
    "arg_health_check a \<or> arg_no_health_check a \<longrightarrow> set_health_check c = arg_health_check a"
    "arg_header_check a \<or> arg_no_header_check a \<longrightarrow> set_header_check c = arg_header_check a"
    "arg_supress_rpc_check a \<or> arg_no_supress_rpc_check a \<longrightarrow> set_supress_rpc_check c = arg_supress_rpc_check a"
  using assms
  by (auto simp: try_parse_def obind_Ret_iff Let_def flag_options flag_given split: sum.splits)

lemma parsed_parts:
  assumes "try_parse E i a = Ret (Inr c)"
  obtains t config rs w where "cache_of E a t = Ret (set_cache c)"
    "address_of E (arg_address a) (arg_port a) t (set_address (settings_default (sled_default E))) = Ret (set_address c)"
    "admin_of E a t = Ret (set_admin c)"
    "rpcs_of E a config (set_ma_length c) i = Ret (rs, w)" "set_rpc_list c = or_default [] rs"
  using assms
  by (auto simp: try_parse_def obind_Ret_iff Let_def split: sum.splits)

lemma rpcs_of_given:
  assumes "rpcs_of E a config ma i = Ret (rs, w)" "arg_url (arg_rpc_list a) \<noteq> []"
  shows "rs = Some (fst (into_rpcs (env_parse_url E) ma (arg_rpc_list a) i))"
  using assms by (auto simp: rpcs_of_def Let_def obind_Ret_iff case_prod_beta split: option.splits)

lemma address_of_given:
  assumes "address_of E (Some addr) (Some pn) t d = Ret s"
  shows "parse_socket E (addr @ '':'' @ show_dec pn) = Some s"
  using assms by (auto simp: address_of_def obind_Ret_iff split: option.splits)

lemma admin_of_off:
  "\<not> arg_admin a \<Longrightarrow> arg_no_admin a \<Longrightarrow> admin_of E a t = Ret admin_settings_default"
  by (simp add: admin_of_def Let_def flag_given)

lemma admin_of_on:
  assumes "admin_of E a t = Ret adm"
  shows "arg_admin a \<longrightarrow> admin_enabled adm \<and> (arg_admin_readonly a \<longrightarrow> admin_readonly adm) \<and>
           (arg_admin_jwt a \<longrightarrow> admin_jwt adm \<and> (\<forall>k. arg_admin_key a = Some k \<longrightarrow> admin_key adm = k))"
  using assms
  by (auto simp: admin_of_def Let_def flag_given obind_Ret_iff split: option.splits if_splits)



end
