(* ===== verification/Answered.thy ===== *)
theory Answered
  imports AcceptHttp Config
begin

text \<open>
  When a request of \<open>src/src/balancer/accept_http.rs\<close> is answered: the conditions under which no step
  of it panics, which every request leaves as they are.
\<close>

section \<open>Endpoints that take samples\<close>

definition sampled :: "rpc \<Rightarrow> bool" where
  "sampled r \<longleftrightarrow> 0 < window r \<or> latency_data (status r) \<noteq> []"

definition takes_samples :: "rpc list rwlock \<Rightarrow> bool" where
  "takes_samples rl \<longleftrightarrow> list_all sampled (contents rl)"

lemma sampled_core [simp]: "sampled (core r) = sampled r"
  by (simp add: sampled_def core_def window_def)

lemma update_latency_takes:
  assumes "sampled r"
  shows "\<exists>r'. update_latency x r = Ret r' \<and> sampled r'"
  using assms by (auto simp: update_latency_def window_def sampled_def Let_def)

lemma update_rpc_latency_takes:
  assumes "takes_samples rl"
  shows "\<exists>rl'. update_rpc_latency rl i n = (Ret (), rl') \<and> takes_samples rl' \<and> poisoned rl' = poisoned rl"
proof (cases "position (\<lambda>r. rpc_id r = i) (contents rl)")
  case (Some j)
  then have "contents rl ! j \<in> set (contents rl)" by (simp add: position_Some)
  with assms obtain r' where r': "update_latency (f64_of_nat n) (contents rl ! j) = Ret r'" "sampled r'"
    using update_latency_takes [of "contents rl ! j"] by (auto simp: takes_samples_def list_all_iff)
  have "set ((contents rl)[j := r']) \<subseteq> insert r' (set (contents rl))" by (rule set_update_subset_insert)
  with assms r'(2) have "takes_samples (rl\<lparr>contents := (contents rl)[j := r']\<rparr>)"
    by (auto simp: takes_samples_def list_all_iff)
  with Some r'(1) show ?thesis by (simp add: update_rpc_latency_def)
qed (use assms in \<open>simp add: update_rpc_latency_def\<close>)

lemma pick_takes:
  assumes "selector alg" "takes_samples rl" "pick alg d (contents rl) = (c, l)"
  shows "takes_samples (rl\<lparr>contents := l\<rparr>)"
proof -
  have "map core l = map core (contents rl)"
    using selector.pick_core [OF assms(1), of d "contents rl"] assms(3) by simp
  then have "list_all sampled (map core l) = list_all sampled (map core (contents rl))" by simp
  with assms(2) show ?thesis by (simp add: takes_samples_def list.pred_map comp_def)
qed

text \<open>What the other tasks must keep while a request waits.\<close>

definition well_behaved :: "outside \<Rightarrow> bool" where
  "well_behaved X \<longleftrightarrow>
     (\<forall>k. selector (select X k)) \<and>
     (\<forall>k rl. takes_samples rl \<and> \<not> poisoned rl \<longrightarrow> takes_samples (others X k rl) \<and> \<not> poisoned (others X k rl))"

lemma fetch_loop_answers:
  assumes "well_behaved X" "unat limit < 2 ^ 64"
  shows "fetch_loop X limit tries k rl tx = (asked, rl', res) \<Longrightarrow> takes_samples rl \<Longrightarrow> \<not> poisoned rl \<Longrightarrow>
           res \<noteq> Panic \<and> takes_samples rl' \<and> \<not> poisoned rl'"
proof (induction "unat tries - k" arbitrary: k rl asked rl' res rule: less_induct)
  case less
  let ?rl1 = "others X k rl"
  have sel: "selector (select X k)" and rl1: "takes_samples ?rl1" "\<not> poisoned ?rl1"
    using assms(1) less.prems by (auto simp: well_behaved_def)
  obtain r pos l where p: "pick (select X k) (default_rpc X) (contents ?rl1) = ((r, pos), l)"
    by (metis prod.collapse)
  let ?rl2 = "?rl1\<lparr>contents := l\<rparr>"
  have rl2: "takes_samples ?rl2" "\<not> poisoned ?rl2" using pick_takes [OF sel rl1(1) p] rl1(2) by auto
  obtain rl3 where upd: "update_rpc_latency ?rl2 (rpc_id r) (unat limit * 1000000) = (Ret (), rl3)"
    "takes_samples rl3" "\<not> poisoned rl3"
    using update_rpc_latency_takes [OF rl2(1), of "rpc_id r" "unat limit * 1000000"] rl2(2) by auto
  obtain asked' rl4 res' where rec: "fetch_loop X limit tries (Suc k) rl3 tx = (asked', rl4, res')"
    by (metis prod.collapse)
  have rl4: "res' \<noteq> Panic \<and> takes_samples rl4 \<and> \<not> poisoned rl4" if "Suc k < unat tries"
    using less.hyps [OF _ rec upd(2,3)] that by simp
  note u = less.prems(1) [unfolded fetch_loop.simps [of X limit tries k rl tx] p Let_def, simplified]
  show ?case
    using u upd rec rl2 rl4 assms(2)
    by (cases pos; cases "attempt X k r tx") (auto split: if_splits sum.splits)
qed

section \<open>Requests whose block can be read\<close>

definition block_text :: "serde \<Rightarrow> json \<Rightarrow> string option" where
  "block_text S tx =
     (case as_array (jindex tx ''params'') of
        None \<Rightarrow> None
      | Some ps \<Rightarrow>
          (if ps = [] then None
           else map_option (\<lambda>pos. remove_char (CHR 0x22) (to_text S (jnth (jindex tx ''params'') pos)))
                  (get_position (as_str (jindex tx ''method'')))))"

definition readable_block :: "serde \<Rightarrow> json \<Rightarrow> bool" where
  "readable_block S tx \<longleftrightarrow>
     (\<forall>bn. block_text S tx = Some bn \<longrightarrow> has_named_number bn \<noteq> NNull \<or> is_char_boundary bn 2)"

lemma block_text_cong:
  assumes "jindex tx ''params'' = jindex tx' ''params''" "jindex tx ''method'' = jindex tx' ''method''"
  shows "block_text S tx = block_text S tx'"
  unfolding block_text_def assms ..

lemma block_reader_answers:
  assumes "readable_block S tx" "\<not> poisoned named"
  shows "get_block_number_from_request S tx named \<noteq> Panic"
  using assms
  by (auto simp: readable_block_def block_text_def get_block_number_from_request_def slice_from_def Let_def
      split: option.splits)

lemma readable_id:
  assumes "readable_block S tx" "jset ''id'' v tx = Ret tx'"
  shows "readable_block S tx'"
proof -
  have "block_text S tx' = block_text S tx"
    by (rule block_text_cong) (simp_all add: jindex_jset [OF assms(2)])
  with assms(1) show ?thesis by (simp add: readable_block_def)
qed

lemma hex_text_boundary: "is_char_boundary (hex_text n) 2"
  using hex_text_slice [of n] by (auto simp: slice_from_def split: if_splits)

text \<open>The parameter that is written is the one that is read.\<close>

lemma replace_block_tags_cases:
  assumes "replace_block_tags S tx named = Ret tx'"
  shows "tx' = tx \<or> (\<exists>pos n. get_position (as_str (jindex tx ''method'')) = Some pos \<and>
           set_param tx pos (JStr (hex_text n)) = Ret tx')"
  using assms by (auto simp: replace_block_tags_def Let_def split: option.splits if_splits named_number.splits)

lemma set_param_Ret:
  assumes "set_param tx pos v = Ret tx'" "is_object tx"
  shows "\<exists>ps. jindex tx ''params'' = JArr ps \<and> pos < length ps \<and> is_object tx' \<and>
           jindex tx' ''params'' = JArr (ps[pos := v]) \<and> jindex tx' ''method'' = jindex tx ''method''"
proof -
  from assms obtain p where p: "jset_nth pos v (jindex tx ''params'') = Ret p" "jset ''params'' p tx = Ret tx'"
    by (auto simp: set_param_def obind_Ret_iff)
  from p(1) obtain ps where ps: "jindex tx ''params'' = JArr ps" "pos < length ps" "p = JArr (ps[pos := v])"
    by (cases "jindex tx ''params''") (auto split: if_splits)
  from p(2) assms(2) have "is_object tx'" by (cases tx) auto
  with ps p(2) show ?thesis by (simp add: jindex_jset [OF p(2)])
qed

lemma readable_replaced:
  assumes "quotes_plain S" "is_object tx" "readable_block S tx" "replace_block_tags S tx named = Ret tx'"
  shows "is_object tx' \<and> readable_block S tx'"
  using replace_block_tags_cases [OF assms(4)]
proof
  assume "\<exists>pos n. get_position (as_str (jindex tx ''method'')) = Some pos \<and> set_param tx pos (JStr (hex_text n)) = Ret tx'"
  then obtain pos n where s: "get_position (as_str (jindex tx ''method'')) = Some pos"
    "set_param tx pos (JStr (hex_text n)) = Ret tx'" by blast
  from set_param_Ret [OF s(2) assms(2)] obtain ps where ps: "pos < length ps" "is_object tx'"
    "jindex tx' ''params'' = JArr (ps[pos := JStr (hex_text n)])" "jindex tx' ''method'' = jindex tx ''method''"
    by blast
  then have "block_text S tx' = Some (hex_text n)"
    using s(1) unquote_plain [OF assms(1) plain_hex] by (auto simp: block_text_def)
  with ps(2) hex_text_boundary show ?thesis by (simp add: readable_block_def)
qed (use assms in simp)

section \<open>Requests are answered\<close>

definition usable :: "work \<Rightarrow> bool" where
  "usable w \<longleftrightarrow> takes_samples (w_rpcs w) \<and> \<not> poisoned (w_rpcs w) \<and> \<not> poisoned (w_head w)"

definition usable_cache :: "cache_side \<Rightarrow> bool" where
  "usable_cache C \<longleftrightarrow>
     quotes_plain (codec C) \<and> to_text (codec C) JNull = ''null'' \<and> \<not> poisoned (named_now C) \<and>
     (\<forall>k v. db_reply C k = Inr (Some v) \<longrightarrow> (\<exists>m. simd_parse (codec C) v = Inr (JObj m)))"

lemma cache_query_answers:
  assumes "readable_block S tx" "\<not> poisoned (named_numbers args)" "\<not> poisoned (args_head_cache args)"
  shows "\<exists>hc reqs. cache_query S nc args rx tx h = Ret (hc, reqs) \<and> \<not> poisoned hc"
proof -
  from block_reader_answers [OF assms(1,2)] obtain num where
    "get_block_number_from_request S tx (named_numbers args) = Ret num"
    by (cases "get_block_number_from_request S tx (named_numbers args)") auto
  with assms(3) show ?thesis
    by (cases num) (auto simp: cache_query_def cache_record_def Let_def)
qed

lemma fetch_and_cache_answers:
  assumes "usable w" "usable_cache C" "well_behaved X" "unat (ttl P) < 2 ^ 64"
    and "is_object tx" "readable_block (codec C) tx"
  shows "\<exists>w' resp rid. fetch_and_cache C X P tx h i w = (w', Ret (resp, rid)) \<and> usable w'"
proof -
  obtain tx1 where tx1: "jset ''id'' (JNum (PosInt i)) tx = Ret tx1" using assms(5) jset_object by blast
  obtain asked rl res where f: "fetch_loop X (ttl P) (max_retries P) 0 (w_rpcs w) tx1 = (asked, rl, res)"
    by (metis prod.collapse)
  from fetch_loop_answers [OF assms(3,4) f] assms(1) have rl: "res \<noteq> Panic" "takes_samples rl" "\<not> poisoned rl"
    by (auto simp: usable_def)
  then obtain got where got: "res = Ret got" by (cases res) auto
  have "\<exists>hc reqs. cache_query (codec C) (no_cache C)
      \<lparr>finalized_rx = final_now C, named_numbers = named_now C, args_head_cache = w_head w\<rparr> rx tx1 h = Ret (hc, reqs) \<and>
      \<not> poisoned hc" for rx
    using readable_id [OF assms(6) tx1] assms(1,2)
    by (intro cache_query_answers) (auto simp: usable_def usable_cache_def)
  note store = this
  show ?thesis
  proof (cases got)
    case (Got rid rx)
    from store [of rx] obtain hc reqs where
      "cache_query (codec C) (no_cache C)
         \<lparr>finalized_rx = final_now C, named_numbers = named_now C, args_head_cache = w_head w\<rparr> rx tx1 h = Ret (hc, reqs)"
      "\<not> poisoned hc" by blast
    with Got rl got assms(1) show ?thesis by (simp add: fetch_and_cache_def tx1 f usable_def Let_def)
  qed (use rl got assms(1) in \<open>simp_all add: fetch_and_cache_def tx1 f usable_def Let_def\<close>)
qed

lemma forward_value_answers:
  assumes "usable w" "usable_cache C" "well_behaved X" "unat (ttl P) < 2 ^ 64" "readable_block (codec C) tx"
  shows "\<exists>w' resp rid. forward_value C X P tx w = (w', Ret (resp, rid)) \<and> usable w'"
proof (cases "is_object tx")
  case True
  obtain tx1 where tx1: "jset ''id'' JNull tx = Ret tx1" "jtake ''id'' tx = Ret (jindex tx ''id'', tx1)" "is_object tx1"
    using True jset_object [OF True, of "''id''" JNull] by (auto simp: jtake_def)
  obtain tx2 where tx2: "replace_block_tags (codec C) tx1 (named_now C) = Ret tx2"
    using replace_block_tags_frame [of "codec C" tx1 "named_now C"] assms(2) by (auto simp: usable_cache_def)
  have r2: "is_object tx2" "readable_block (codec C) tx2"
    using readable_replaced [OF _ tx1(3) readable_id [OF assms(5) tx1(1)] tx2] assms(2) by (auto simp: usable_cache_def)
  let ?s = "to_text (codec C) tx2"
  let ?reply = "if \<not> has_block_tag ?s then db_reply C (hash_of C ?s) else Inr None"
  have "\<exists>w' resp rid. get_response C X P tx2 (hash_of C ?s) (\<not> has_block_tag ?s) (request_id (jindex tx ''id'')) w =
      (w', Ret (resp, rid)) \<and> usable w'"
  proof (cases ?reply)
    case (Inr rax)
    show ?thesis
    proof (cases rax)
      case (Some v)
      with Inr assms(2) obtain m where m: "simd_parse (codec C) v = Inr (JObj m)"
        by (auto simp: usable_cache_def split: if_splits)
      from Inr Some m assms(1) show ?thesis by (simp add: get_response_def)
    qed (use Inr fetch_and_cache_answers [OF assms(1-4) r2] in \<open>simp add: get_response_def\<close>)
  qed (use assms(1) in \<open>simp add: get_response_def\<close>)
  with True tx1(2) tx2 show ?thesis by (simp add: forward_value_def Let_def)
qed (use assms(1) in \<open>simp add: forward_value_def\<close>)

text \<open>C8. A request is answered: if no lock is poisoned, every endpoint takes samples, stored
  responses are objects, the time limit fits 64 bits, the body is text and the block
  parameter of the request is a tag or has at least a prefix of two bytes, then
  \<open>accept_request\<close> returns a response, whatever the endpoints answer or fail to answer, and
  leaves the locks and the endpoints in the same condition for the next request.\<close>

theorem requests_are_answered:
  assumes "usable w" "usable_cache C" "well_behaved X" "unat (ttl P) < 2 ^ 64" "\<not> poisoned is_ws"
    and "body req = Inr bytes" "utf8_ok (map of_char bytes)"
    and "\<forall>tx. simd_parse (codec C) bytes = Inr tx \<longrightarrow> readable_block (codec C) tx"
  shows "\<exists>w' resp. accept_request C X is_ws P upgraded elapsed req w = (w', Ret resp) \<and> usable w'"
proof -
  have invalid: "readable_block (codec C) invalid_json_value"
  proof -
    have "jindex invalid_json_value ''params'' = JNull" by code_simp
    then show ?thesis by (simp add: readable_block_def block_text_def)
  qed
  have "\<exists>w' resp rid. forward_body C X P req w = (w', Ret (resp, rid)) \<and> usable w'"
    using forward_value_answers [OF assms(1-4) invalid] forward_value_answers [OF assms(1-4)] assms(1,6-8)
    by (cases "simd_parse (codec C) bytes") (auto simp: forward_body_def incoming_to_value_def)
  then obtain w1 resp rid where f: "forward_body C X P req w = (w1, Ret (resp, rid))" "usable w1" by blast
  show ?thesis
  proof (cases rid)
    case (Some i)
    from update_rpc_latency_takes [of "w_rpcs w1" i elapsed] f(2) obtain rl where
      "update_rpc_latency (w_rpcs w1) i elapsed = (Ret (), rl)" "takes_samples rl" "\<not> poisoned rl"
      by (auto simp: usable_def)
    with f Some assms(1,5) show ?thesis by (auto simp: accept_request_def usable_def split: sum.splits)
  qed (use f assms(1,5) in \<open>auto simp: accept_request_def split: sum.splits\<close>)
qed

section \<open>The endpoints of a configuration take samples\<close>

lemma new_endpoint_sampled:
  "1 \<le> unat (f64_to_uint ma :: usize) \<Longrightarrow> sampled (fst (rpc_new parse_url i u ws mc delta ma))"
  by (simp add: sampled_def window_def rpc_new_def Let_def)

lemma into_rpcs_sampled:
  "1 \<le> unat (f64_to_uint ma :: usize) \<Longrightarrow> list_all sampled (fst (into_rpcs_from parse_url ma a j us i))"
proof (induction us arbitrary: j i)
  case (Cons u us)
  let ?new = "rpc_new parse_url i u (list_get j (arg_ws_url a)) (or_default 150 (list_get j (arg_max_consecutive a)))
    (ucast (min_delta (or_default 200 (list_get j (arg_max_per_second a))))) ma"
  show ?case
    using Cons new_endpoint_sampled [OF Cons.prems] by (auto simp: case_prod_beta)
qed simp

lemma file_rpcs_sampled:
  "1 \<le> unat (f64_to_uint ma :: usize) \<Longrightarrow> file_rpcs parse_url ma vs i = Ret (rs, w) \<Longrightarrow> list_all sampled rs"
proof (induction vs arbitrary: i rs w)
  case (Cons v vs)
  then have "\<exists>r next1 b rs' w'. file_rpc parse_url ma v i = Ret ((r, next1), b) \<and>
      file_rpcs parse_url ma vs next1 = Ret (rs', w') \<and> rs = r # rs'"
    by (fastforce simp: obind_Ret_iff)
  then obtain r next1 b rs' w' where v: "file_rpc parse_url ma v i = Ret ((r, next1), b)"
    "file_rpcs parse_url ma vs next1 = Ret (rs', w')" "rs = r # rs'" by blast
  from v(1) new_endpoint_sampled [OF Cons.prems(1)] have "sampled r"
    by (auto simp: file_rpc_def obind_Ret_iff split: option.splits) (metis fst_conv)+
  with Cons.IH [OF Cons.prems(1) v(2)] v(3) show ?case by simp
qed simp

lemma configured_endpoints_take_samples:
  assumes "try_parse E i a = Ret (Inr c)" "1 \<le> unat (f64_to_uint (set_ma_length c) :: usize)"
  shows "takes_samples (new_lock (set_rpc_list c))"
proof -
  obtain config rs w where "rpcs_of E a config (set_ma_length c) i = Ret (rs, w)" "set_rpc_list c = or_default [] rs"
    using assms(1) by (auto simp: try_parse_def obind_Ret_iff Let_def split: sum.splits)
  then show ?thesis
    using into_rpcs_sampled [OF assms(2), of "env_parse_url E" "arg_rpc_list a" 0 "arg_url (arg_rpc_list a)" i]
      file_rpcs_sampled [OF assms(2)]
    by (auto simp: rpcs_of_def into_rpcs_def takes_samples_def new_lock_def or_default_def obind_Ret_iff Let_def
        case_prod_beta split: option.splits if_splits)
qed

section \<open>A request that is answered\<close>

definition asking_side :: cache_side where
  "asking_side = side\<lparr>codec := side_codec\<lparr>simd_parse := (\<lambda>s. Inr (request_with_id (JNum (PosInt 4))))\<rparr>\<rparr>"

definition posted :: http_request where
  "posted = \<lparr>content_type = None, body = Inr ''q'', upgrade_request = False\<rparr>"

theorem requests_are_answered_witness:
  "\<exists>w' resp. accept_request asking_side one_endpoint (new_lock True) params3 (Inl []) 5 posted start_work = (w', Ret resp) \<and>
     usable w'"
proof (rule requests_are_answered)
  show "usable start_work"
    by (simp add: usable_def start_work_def new_lock_def takes_samples_def sampled_def demo_rpc_def window_def)
  show "usable_cache asking_side"
    by (simp add: usable_cache_def asking_side_def side_def side_codec_def quotes_plain_def named_at_def new_lock_def)
  show "well_behaved one_endpoint"
    using default_algo.selector_axioms by (simp add: well_behaved_def one_endpoint_def)
  have "block_text (codec asking_side) (request_with_id (JNum (PosInt 4))) = Some ''0x1a''" by code_simp
  moreover have "is_char_boundary ''0x1a'' 2" by code_simp
  ultimately show "\<forall>tx. simd_parse (codec asking_side) ''q'' = Inr tx \<longrightarrow> readable_block (codec asking_side) tx"
    by (simp add: readable_block_def asking_side_def)
  show "utf8_ok (map of_char ''q'')" by code_simp
qed (simp_all add: params3_def new_lock_def posted_def)

end
