(* ===== verification/Sockets.thy ===== *)
theory Sockets
  imports WsClient
begin

text \<open>
  The sockets behind the handles of \<open>src/src/websocket/client.rs\<close>. Opening a connection starts two
  tasks that share a socket: one writes what is put into the channel of the handle and ends
  when the handle is dropped; the other reads until the socket fails or its stream ends, whether
  or not there still is a handle. This theory runs the connection manager together with these
  tasks and what they report to the listener for dropped connections.
\<close>

section \<open>The tasks of the connections\<close>

record ws_socket =
  so_endpoint :: usize
  so_writes :: bool
  so_reads :: bool

record connections =
  con_manager :: ws_manager
  con_sockets :: "ws_socket list"
  con_reported :: "ws_channel_err list"

definition stop_writer :: "usize \<Rightarrow> ws_socket \<Rightarrow> ws_socket" where
  "stop_writer n s = (if so_endpoint s = n then s\<lparr>so_writes := False\<rparr> else s)"

text \<open>\<open>open\<close> followed by the insertion of the handle, which drops an older handle of the endpoint.\<close>

definition open_socket :: "ws_outside \<Rightarrow> nat \<Rightarrow> rpc \<Rightarrow> ws_socket list \<Rightarrow> ws_socket list" where
  "open_socket X k r ss =
     map (stop_writer (rpc_id r)) ss @
     (if handle_open (ws_open X k r) then [\<lparr>so_endpoint = rpc_id r, so_writes = True, so_reads = True\<rparr>] else [])"

text \<open>\<open>reconnect\<close>: the handles are replaced as a whole, so every older writing task ends.\<close>

definition reconnect_sockets :: "ws_outside \<Rightarrow> ws_manager \<Rightarrow> ws_socket list \<Rightarrow> ws_socket list" where
  "reconnect_sockets X m ss =
     foldl (\<lambda>ss r. open_socket X (ws_turn m) r ss) (map (\<lambda>s. s\<lparr>so_writes := False\<rparr>) ss) (contents (ws_rpcs m))"

text \<open>\<open>send\<close> opens a connection where the endpoint picked has no handle.\<close>

definition send_sockets :: "ws_outside \<Rightarrow> usize option \<Rightarrow> ws_manager \<Rightarrow> ws_socket list \<Rightarrow> ws_socket list" where
  "send_sockets X specified m ss =
     (case specified of
        Some n \<Rightarrow> ss
      | None \<Rightarrow>
          (let ((r, pos), l) = pick (ws_select X (ws_turn m)) (ws_default X) (contents (ws_rpcs m))
           in if pos \<noteq> None \<and> map_of (handles m) (rpc_id r) = None then open_socket X (ws_turn m) r ss else ss))"

fun unload_sockets :: "ws_outside \<Rightarrow> json list \<Rightarrow> ws_manager \<Rightarrow> ws_socket list \<Rightarrow> ws_socket list" where
  "unload_sockets X [] m ss = ss"
| "unload_sockets X (v # vs) m ss = unload_sockets X vs (ws_send X v None m) (send_sockets X None m ss)"

definition manager_sockets :: "ws_outside \<Rightarrow> ws_manager \<Rightarrow> ws_event \<Rightarrow> ws_socket list \<Rightarrow> ws_socket list" where
  "manager_sockets X m ev ss =
     (case ev of
        Received (Message call specified) \<Rightarrow> send_sockets X specified m ss
      | Received Reconnect \<Rightarrow>
          (let m1 = ws_reconnect X m
           in unload_sockets X (ws_buffer m) (m1\<lparr>ws_buffer := []\<rparr>) (reconnect_sockets X m ss))
      | ListIs rl \<Rightarrow> ss
      | ConnectionEnds n \<Rightarrow> map (stop_writer n) ss)"

text \<open>What happens: a turn of the manager, where the end of a connection is a failed write, which is
  reported; a read that fails, which is reported too; the end of a stream, which is not.\<close>

datatype socket_event = Manager ws_event | ReadFails nat | StreamEnds nat

definition stop_reader :: "nat \<Rightarrow> ws_socket list \<Rightarrow> ws_socket list" where
  "stop_reader j ss = (if j < length ss then ss[j := (ss ! j)\<lparr>so_reads := False\<rparr>] else ss)"

definition socket_step :: "ws_outside \<Rightarrow> connections \<Rightarrow> socket_event \<Rightarrow> connections" where
  "socket_step X c ev =
     (case ev of
        Manager e \<Rightarrow>
          c\<lparr>con_manager := ws_conn_manager_step X (con_manager c) e,
            con_sockets := manager_sockets X (con_manager c) e (con_sockets c),
            con_reported := con_reported c @
              (case e of
                 ConnectionEnds n \<Rightarrow>
                   (if list_ex (\<lambda>s. so_endpoint s = n \<and> so_writes s) (con_sockets c) then [WsClosed n] else [])
               | _ \<Rightarrow> [])\<rparr>
      | ReadFails j \<Rightarrow>
          c\<lparr>con_sockets := stop_reader j (con_sockets c),
            con_reported := con_reported c @
              (if j < length (con_sockets c) \<and> so_reads (con_sockets c ! j)
               then [WsClosed (so_endpoint (con_sockets c ! j))] else [])\<rparr>
      | StreamEnds j \<Rightarrow> c\<lparr>con_sockets := stop_reader j (con_sockets c)\<rparr>)"

definition socket_run :: "ws_outside \<Rightarrow> connections \<Rightarrow> socket_event list \<Rightarrow> connections" where
  "socket_run X c evs = foldl (socket_step X) c evs"

section \<open>Reading tasks outlive their handles\<close>

text \<open>The sockets there were keep their place, their endpoint and their reading task, and a writing
  task that ended does not start again.\<close>

definition kept :: "ws_socket list \<Rightarrow> ws_socket list \<Rightarrow> bool" where
  "kept ss ss' \<longleftrightarrow>
     length ss \<le> length ss' \<and>
     (\<forall>j<length ss. so_endpoint (ss' ! j) = so_endpoint (ss ! j) \<and> so_reads (ss' ! j) = so_reads (ss ! j) \<and>
        (so_writes (ss' ! j) \<longrightarrow> so_writes (ss ! j)))"

lemma kept_refl [simp]: "kept ss ss"
  by (simp add: kept_def)

lemma kept_trans: "kept ss ss' \<Longrightarrow> kept ss' ss'' \<Longrightarrow> kept ss ss''"
  by (auto simp: kept_def)

lemma stop_writer_kept [simp]:
  "so_endpoint (stop_writer n s) = so_endpoint s" "so_reads (stop_writer n s) = so_reads s"
  "so_writes (stop_writer n s) \<longrightarrow> so_writes s"
  by (simp_all add: stop_writer_def)

lemma open_socket_kept: "kept ss (open_socket X k r ss)"
  by (auto simp: kept_def open_socket_def nth_append)

lemma open_sockets_kept: "kept ss (foldl (\<lambda>ss r. open_socket X k r ss) ss rs)"
proof (induction rs arbitrary: ss)
  case (Cons r rs)
  show ?case using kept_trans [OF open_socket_kept [of ss X k r] Cons.IH [of "open_socket X k r ss"]] by simp
qed simp

lemma reconnect_sockets_kept: "kept (map (\<lambda>s. s\<lparr>so_writes := False\<rparr>) ss) (reconnect_sockets X m ss)"
  using open_sockets_kept by (simp add: reconnect_sockets_def)

lemma send_sockets_kept: "kept ss (send_sockets X specified m ss)"
  by (auto simp: send_sockets_def open_socket_kept split: option.split prod.split)

lemma unload_sockets_kept: "kept ss (unload_sockets X vs m ss)"
proof (induction vs arbitrary: m ss)
  case (Cons v vs)
  show ?case using kept_trans [OF send_sockets_kept Cons.IH] by simp
qed simp

lemma manager_sockets_kept: "kept ss (manager_sockets X m ev ss)"
proof (cases ev)
  case (Received msg)
  show ?thesis
  proof (cases msg)
    case Reconnect
    have "kept ss (map (\<lambda>s. s\<lparr>so_writes := False\<rparr>) ss)" by (simp add: kept_def)
    from kept_trans [OF this kept_trans [OF reconnect_sockets_kept unload_sockets_kept]] Reconnect Received
    show ?thesis by (simp add: manager_sockets_def Let_def)
  qed (use Received in \<open>simp add: manager_sockets_def send_sockets_kept\<close>)
qed (simp_all add: manager_sockets_def kept_def)

lemma reconnect_stops_writers:
  assumes "j < length (con_sockets c)"
  shows "\<not> so_writes (con_sockets (socket_step X c (Manager (Received Reconnect))) ! j)"
proof -
  have "kept (map (\<lambda>s. s\<lparr>so_writes := False\<rparr>) (con_sockets c))
      (con_sockets (socket_step X c (Manager (Received Reconnect))))"
    using kept_trans [OF reconnect_sockets_kept unload_sockets_kept]
    by (simp add: socket_step_def manager_sockets_def Let_def)
  with assms show ?thesis by (auto simp: kept_def)
qed

text \<open>A reading task runs until its own socket fails or ends.\<close>

lemma reader_survives:
  assumes "j < length (con_sockets c)" "ReadFails j \<notin> set evs" "StreamEnds j \<notin> set evs"
  shows "j < length (con_sockets (socket_run X c evs)) \<and>
         so_endpoint (con_sockets (socket_run X c evs) ! j) = so_endpoint (con_sockets c ! j) \<and>
         so_reads (con_sockets (socket_run X c evs) ! j) = so_reads (con_sockets c ! j) \<and>
         (so_writes (con_sockets (socket_run X c evs) ! j) \<longrightarrow> so_writes (con_sockets c ! j))"
  using assms
proof (induction evs arbitrary: c)
  case (Cons ev evs)
  let ?c1 = "socket_step X c ev"
  have "j < length (con_sockets ?c1) \<and> so_endpoint (con_sockets ?c1 ! j) = so_endpoint (con_sockets c ! j) \<and>
      so_reads (con_sockets ?c1 ! j) = so_reads (con_sockets c ! j) \<and>
      (so_writes (con_sockets ?c1 ! j) \<longrightarrow> so_writes (con_sockets c ! j))"
  proof (cases ev)
    case (Manager e)
    then show ?thesis
      using Cons.prems(1) manager_sockets_kept [of "con_sockets c" X "con_manager c" e]
      by (auto simp: socket_step_def kept_def)
  qed (use Cons.prems in \<open>auto simp: socket_step_def stop_reader_def nth_list_update\<close>)
  with Cons show ?case by (simp add: socket_run_def)
qed (simp add: socket_run_def)

section \<open>What a stale connection does\<close>

lemma dropped_moves:
  assumes "pool_ok rl pl" "i \<in> ids rl"
    and "dropped_listener S (Some (WsClosed i)) resps (rl, pl) sd = ((rl', pl'), ms, sd', b)"
  shows "i \<notin> ids rl' \<and> i \<in> ids pl'"
proof -
  note ok = pool_okD [OF assms(1)]
  obtain p where p: "position (\<lambda>r. rpc_id r = i) rl = Some p"
    using assms(2) position_None [of "\<lambda>r. rpc_id r = i" rl] by fastforce
  from position_Some [OF p] have p2: "p < length rl" "rpc_id (rl ! p) = i" by auto
  have "i \<notin> ids pl" using assms(2) ok(3) by auto
  with assms(3) p have l: "rl' = remove_at p rl" "pl' = pl @ [rl ! p]"
    by (auto simp: dropped_listener_def handle_dropped_def send_dropped_to_poverty_def has_id_iff split: prod.splits)
  have "add_mset i (mset (map rpc_id rl')) = mset (map rpc_id rl)"
    unfolding l mset_map mset_remove_at [OF p2(1)] by (simp add: p2(2))
  then have "distinct (i # map rpc_id rl')"
    using ok(1) by (metis mset.simps(2) mset_eq_imp_distinct_iff)
  with p2(2) show ?thesis by (auto simp: l(2))
qed

text \<open>C36. Reconnecting leaves the reading tasks of the old connections running: after it such a
  task has no writing half and belongs to no handle, but when its socket fails later, whatever
  happened in between, it reports the endpoint as dropped, although nothing changes for the
  connections that replaced it; the listener then takes the endpoint out of the active list.\<close>

theorem stale_connection_demotes_endpoint:
  assumes "j < length (con_sockets c)" "so_reads (con_sockets c ! j)" "so_endpoint (con_sockets c ! j) = i"
    and "ReadFails j \<notin> set evs" "StreamEnds j \<notin> set evs"
    and "c1 = socket_run X c (Manager (Received Reconnect) # evs)" "c2 = socket_step X c1 (ReadFails j)"
    and "pool_ok rl pl" "i \<in> ids rl"
    and "dropped_listener S (Some (WsClosed i)) resps (rl, pl) sd = ((rl', pl'), ms, sd', b)"
  shows "\<not> so_writes (con_sockets c1 ! j) \<and> so_reads (con_sockets c1 ! j) \<and>
         con_manager c2 = con_manager c1 \<and> con_reported c2 = con_reported c1 @ [WsClosed i] \<and>
         i \<notin> ids rl' \<and> i \<in> ids pl'"
proof -
  let ?c0 = "socket_step X c (Manager (Received Reconnect))"
  have c1: "c1 = socket_run X ?c0 evs" by (simp add: assms(6) socket_run_def)
  have "j < length (con_sockets ?c0) \<and> so_endpoint (con_sockets ?c0 ! j) = i \<and> so_reads (con_sockets ?c0 ! j)"
    using reader_survives [of j c "[Manager (Received Reconnect)]" X] assms(1-3) by (simp add: socket_run_def)
  with reader_survives [of j ?c0 evs X] assms(4,5) reconnect_stops_writers [OF assms(1)]
  have "j < length (con_sockets c1)" "so_endpoint (con_sockets c1 ! j) = i" "so_reads (con_sockets c1 ! j)"
    "\<not> so_writes (con_sockets c1 ! j)"
    by (auto simp: c1)
  with dropped_moves [OF assms(8-10)] show ?thesis by (simp add: assms(7) socket_step_def)
qed

section \<open>A concrete reconnection\<close>

definition one_ws_endpoint :: rpc where
  "one_ws_endpoint = (demo_rpc 1 7 2)\<lparr>ws_url := Some demo_url\<rparr>"

definition accepting :: ws_outside where
  "accepting = \<lparr>ws_select = (\<lambda>k. algo sort_key 100), ws_default = demo_rpc 9 0 0, ws_connects = (\<lambda>k r. True)\<rparr>"

definition connected :: connections where
  "connected =
     \<lparr>con_manager = ws_conn_manager accepting [] (new_lock [one_ws_endpoint]),
      con_sockets = [\<lparr>so_endpoint = 1, so_writes = True, so_reads = True\<rparr>], con_reported = []\<rparr>"

theorem stale_connection_demotes_endpoint_witness:
  "let c1 = socket_run accepting connected [Manager (Received Reconnect)];
       c2 = socket_step accepting c1 (ReadFails 0)
   in con_sockets c1 = [\<lparr>so_endpoint = 1, so_writes = False, so_reads = True\<rparr>,
                        \<lparr>so_endpoint = 1, so_writes = True, so_reads = True\<rparr>] \<and>
      con_reported c2 = [WsClosed 1] \<and>
      1 \<notin> ids (fst (fst (dropped_listener (sample_serde []) (Some (WsClosed 1)) [] ([one_ws_endpoint], []) sub_data_new)))"
proof -
  let ?c1 = "socket_run accepting connected [Manager (Received Reconnect)]"
  let ?c2 = "socket_step accepting ?c1 (ReadFails 0)"
  have c1: "con_sockets ?c1 = [\<lparr>so_endpoint = 1, so_writes = False, so_reads = True\<rparr>,
      \<lparr>so_endpoint = 1, so_writes = True, so_reads = True\<rparr>]" "con_reported ?c1 = []"
    by (simp_all add: socket_run_def socket_step_def manager_sockets_def reconnect_sockets_def connected_def
        ws_conn_manager_def ws_reconnect_def open_socket_def ws_open_def accepting_def one_ws_endpoint_def
        stop_writer_def demo_rpc_def new_lock_def)
  obtain rl' pl' ms sd' b where d:
    "dropped_listener (sample_serde []) (Some (WsClosed 1)) [] ([one_ws_endpoint], []) sub_data_new = ((rl', pl'), ms, sd', b)"
    by (metis prod.collapse)
  have "pool_ok [one_ws_endpoint] []" "1 \<in> ids [one_ws_endpoint]"
    by (simp_all add: pool_ok_def one_ws_endpoint_def demo_rpc_def status_default_def)
  from stale_connection_demotes_endpoint [of 0 connected 1 "[]" ?c1 accepting ?c2, OF _ _ _ _ _ _ _ this d] c1 d
  show ?thesis by (simp add: connected_def Let_def)
qed

end
