(* ===== verification/JsonText.thy ===== *)
theory JsonText
  imports Json FloatText
begin

text \<open>
  A text format for JSON values, as an instance of the record \<open>serde\<close>: the compact printer and a
  reader that accepts white space, the common escapes, nested values and integers. Every
  operation of the model takes the text format as an argument; this one is what the unit tests
  of the repository are evaluated with, and no theorem about the program rests on it.
\<close>

section \<open>Printing\<close>

fun commas :: "string list \<Rightarrow> string" where
  "commas [] = []"
| "commas [s] = s"
| "commas (s # t # ss) = s @ CHR '','' # commas (t # ss)"

definition escape_char :: "char \<Rightarrow> string" where
  "escape_char c =
     (if c = CHR 0x22 then [CHR 0x5C, CHR 0x22]
      else if c = CHR 0x5C then [CHR 0x5C, CHR 0x5C]
      else if c = CHR 0x0A then [CHR 0x5C, CHR ''n'']
      else [c])"

definition string_text :: "string \<Rightarrow> string" where
  "string_text s = CHR 0x22 # concat (map escape_char s) @ [CHR 0x22]"

text \<open>A float keeps a point, and one that is not finite has no text.\<close>

definition float_text :: "f64 \<Rightarrow> string" where
  "float_text x =
     (case x of
        Fin q \<Rightarrow> (let s = show_f64 x in if CHR ''.'' \<in> set s then s else s @ ''.0'')
      | _ \<Rightarrow> ''null'')"

fun json_text :: "json \<Rightarrow> string" where
  "json_text JNull = ''null''"
| "json_text (JBool b) = (if b then ''true'' else ''false'')"
| "json_text (JNum (PosInt n)) = show_dec n"
| "json_text (JNum (NegInt i)) = CHR ''-'' # to_digits 10 (nat (- i))"
| "json_text (JNum (Float x)) = float_text x"
| "json_text (JStr s) = string_text s"
| "json_text (JArr xs) = CHR ''['' # commas (map json_text xs) @ '']''"
| "json_text (JObj kvs) =
     CHR ''{'' # commas (map (\<lambda>(k, v). string_text k @ CHR '':'' # json_text v) kvs) @ ''}''"

section \<open>Reading\<close>

definition is_space :: "char \<Rightarrow> bool" where
  "is_space c \<longleftrightarrow> c = CHR '' '' \<or> c = CHR 0x0A \<or> c = CHR 0x0D \<or> c = CHR 0x09"

definition skip :: "string \<Rightarrow> string" where
  "skip s = dropWhile is_space s"

definition is_digit :: "char \<Rightarrow> bool" where
  "is_digit c \<longleftrightarrow> digit_val 10 c \<noteq> None"

definition unescape :: "char \<Rightarrow> char option" where
  "unescape c =
     (if c = CHR 0x22 \<or> c = CHR 0x5C \<or> c = CHR ''/'' then Some c
      else if c = CHR ''n'' then Some (CHR 0x0A)
      else None)"

text \<open>The rest of a string after its opening quote.\<close>

fun read_string :: "string \<Rightarrow> (string \<times> string) option" where
  "read_string [] = None"
| "read_string [c] = (if c = CHR 0x22 then Some ([], []) else None)"
| "read_string (c # d # s) =
     (if c = CHR 0x22 then Some ([], d # s)
      else if c = CHR 0x5C
      then (case unescape d of None \<Rightarrow> None | Some e \<Rightarrow> map_option (apfst ((#) e)) (read_string s))
      else map_option (apfst ((#) c)) (read_string (d # s)))"

definition read_word :: "string \<Rightarrow> json \<Rightarrow> string \<Rightarrow> (json \<times> string) option" where
  "read_word w v s = (if prefix w s then Some (v, drop (length w) s) else None)"

definition read_number :: "string \<Rightarrow> (json \<times> string) option" where
  "read_number s =
     (let neg = (case s of c # _ \<Rightarrow> c = CHR ''-'' | [] \<Rightarrow> False);
          t = (if neg then tl s else s);
          ds = takeWhile is_digit t
      in if ds = [] then None
         else case digits_val 10 0 ds of
                None \<Rightarrow> None
              | Some n \<Rightarrow>
                  Some (JNum (if neg then NegInt (- int n) else PosInt (of_nat n)), dropWhile is_digit t))"

text \<open>The first argument bounds the steps of the reader: it loses an element with each of them.\<close>

fun read_value :: "string \<Rightarrow> string \<Rightarrow> (json \<times> string) option"
and read_items :: "string \<Rightarrow> string \<Rightarrow> (json list \<times> string) option"
and read_fields :: "string \<Rightarrow> string \<Rightarrow> ((string \<times> json) list \<times> string) option" where
  "read_value [] s = None"
| "read_value (_ # f) s =
     (case skip s of
        [] \<Rightarrow> None
      | c # cs \<Rightarrow>
          if c = CHR ''{''
          then (case skip cs of
                  d # ds \<Rightarrow> if d = CHR ''}'' then Some (JObj [], ds) else map_option (apfst obj_of) (read_fields f cs)
                | [] \<Rightarrow> None)
          else if c = CHR ''[''
          then (case skip cs of
                  d # ds \<Rightarrow> if d = CHR '']'' then Some (JArr [], ds) else map_option (apfst JArr) (read_items f cs)
                | [] \<Rightarrow> None)
          else if c = CHR 0x22 then map_option (apfst JStr) (read_string cs)
          else if c = CHR ''t'' then read_word ''true'' (JBool True) (c # cs)
          else if c = CHR ''f'' then read_word ''false'' (JBool False) (c # cs)
          else if c = CHR ''n'' then read_word ''null'' JNull (c # cs)
          else read_number (c # cs))"
| "read_items [] s = None"
| "read_items (_ # f) s =
     (case read_value f s of
        None \<Rightarrow> None
      | Some (v, t) \<Rightarrow>
          (case skip t of
             c # cs \<Rightarrow>
               if c = CHR '','' then map_option (apfst ((#) v)) (read_items f cs)
               else if c = CHR '']'' then Some ([v], cs) else None
           | [] \<Rightarrow> None))"
| "read_fields [] s = None"
| "read_fields (_ # f) s =
     (case skip s of
        [] \<Rightarrow> None
      | q # qs \<Rightarrow>
          if q \<noteq> CHR 0x22 then None
          else case read_string qs of
                 None \<Rightarrow> None
               | Some (k, t) \<Rightarrow>
                   (case skip t of
                      [] \<Rightarrow> None
                    | e # es \<Rightarrow>
                        if e \<noteq> CHR '':'' then None
                        else case read_value f es of
                               None \<Rightarrow> None
                             | Some (v, u) \<Rightarrow>
                                 (case skip u of
                                    c # cs \<Rightarrow>
                                      if c = CHR '','' then map_option (apfst ((#) (k, v))) (read_fields f cs)
                                      else if c = CHR ''}'' then Some ([(k, v)], cs) else None
                                  | [] \<Rightarrow> None)))"

definition read_json :: "string \<Rightarrow> string + json" where
  "read_json s =
     (case read_value (s @ s @ s) s of
        None \<Rightarrow> Inl ''syntax error''
      | Some (v, rest) \<Rightarrow> if skip rest = [] then Inr v else Inl ''trailing characters'')"

definition json_codec :: serde where
  "json_codec = \<lparr>to_text = json_text, simd_to_vec = json_text, simd_parse = read_json, serde_parse = read_json\<rparr>"

text \<open>The literals \<open>json!(n)\<close> of the tests.\<close>

definition num :: "u64 \<Rightarrow> json" where
  "num n = JNum (PosInt n)"

end
