(* ===== verification/TestBase.thy ===== *)
theory TestBase
  imports WsClient JsonText "HOL-Library.Code_Target_Nat"
begin

text \<open>
  What the unit tests of the repository share: URLs, the database they open and the arguments of
  the cache (\<open>CacheArgs::default\<close> in \<open>src/src/balancer/processing.rs\<close>). A test of the repository is a
  boolean that follows the calls and assertions of the Rust test, evaluated on the model; the
  theories \<open>TestSubs\<close>, \<open>TestWs\<close>, \<open>TestBalancer\<close>, \<open>TestHealth\<close>, \<open>TestAdmin\<close> and \<open>TestConfig\<close> hold them.
\<close>

text \<open>As much of the URL parser as the tests need: a scheme, a host and perhaps a path. The text of a
  URL without a path ends in a slash.\<close>

definition parse_simple_url :: "string \<Rightarrow> url option" where
  "parse_simple_url s =
     (let sch = takeWhile (\<lambda>c. c \<noteq> CHR '':'') s;
          rest = drop (length sch) s;
          host = takeWhile (\<lambda>c. c \<noteq> CHR ''/'') (drop 3 rest);
          path = drop (length host) (drop 3 rest)
      in if prefix ''://'' rest \<and> host \<noteq> []
         then Some \<lparr>scheme = sch, host_str = Some host, port = None,
                    url_text = sch @ ''://'' @ host @ (if path = [] then ''/'' else path)\<rparr>
         else None)"

definition host_url :: "string \<Rightarrow> string \<Rightarrow> url" where
  "host_url sch host = \<lparr>scheme = sch, host_str = Some host, port = None, url_text = sch @ ''://'' @ host @ ''/''\<rparr>"

definition merkle_url :: url where
  "merkle_url = host_url ''https'' ''eth.merkle.io''"

text \<open>\<open>Rpc::default()\<close> called several times, with the ids that follow each other.\<close>

definition default_rpcs :: "nat \<Rightarrow> rpc list" where
  "default_rpcs n = map (\<lambda>i. fst (rpc_default merkle_url (of_nat i))) [0..<n]"

definition new_rpc :: "usize \<Rightarrow> url \<Rightarrow> url option \<Rightarrow> u32 \<Rightarrow> u128 \<Rightarrow> f64 \<Rightarrow> rpc" where
  "new_rpc i u ws mc delta ma = fst (rpc_new parse_simple_url i u ws mc delta ma)"

definition no_numbers :: named_blocknumbers where
  "no_numbers = \<lparr>latest = 0, earliest = 0, safe = 0, finalized = 0, pending = 0\<rparr>"

text \<open>The database the tests open, an empty one, and the task on it.\<close>

type_synonym test_db = "(string, string) btree"

definition test_db_ops :: "(test_db, string) database" where
  "test_db_ops = sled_handle_database mem_engine"

definition db_after :: "request_kind list \<Rightarrow> test_db \<Rightarrow> test_db" where
  "db_after reqs d = snd (database_processing test_db_ops d reqs)"

definition get_from :: "test_db \<Rightarrow> string \<Rightarrow> unit + string option" where
  "get_from d k = fst (db_get True test_db_ops d k)"

text \<open>\<open>CacheArgs::default()\<close>: nothing is final, no block is known, and the hash of a text is the text.\<close>

definition default_cache_args :: cache_args where
  "default_cache_args = \<lparr>finalized_rx = 0, named_numbers = new_lock no_numbers, args_head_cache = new_lock []\<rparr>"

definition default_side :: "test_db \<Rightarrow> cache_side" where
  "default_side d =
     \<lparr>codec = json_codec, no_cache = False, hash_of = (\<lambda>s. s), named_now = named_numbers default_cache_args,
      final_now = finalized_rx default_cache_args, db_reply = get_from d\<rparr>"

definition with_latest :: "u64 \<Rightarrow> cache_side \<Rightarrow> cache_side" where
  "with_latest n C = C\<lparr>named_now := new_lock (no_numbers\<lparr>latest := n\<rparr>)\<rparr>"

section \<open>Evaluation\<close>

text \<open>Tests are evaluated by \<open>code_simp\<close>, with natural numbers in binary. The tests of the selection and of
  latencies compare words of 128 bits and compute with floats; the simplifier evaluates them
  with these equations.\<close>

lemma f64_numerals:
  "(numeral n :: nat) < 2 ^ 53 \<Longrightarrow> f64_of_nat (numeral n) = Fin (numeral n)"
  "f64_of_nat (Suc 0) = Fin 1" "f64_of_nat 0 = Fin 0"
  "(numeral n :: nat) < 2 ^ 53 \<Longrightarrow> round_f64 (numeral n) = Fin (numeral n)"
  "round_f64 1 = Fin 1" "round_f64 0 = Fin 0"
  using f64_of_nat_exact [of "numeral n"] f64_of_nat_exact [of 1] f64_of_nat_exact [of 0]
  by (simp_all add: f64_of_nat_def)

text \<open>Whole numbers below \<open>2^53\<close> are not rounded, which saves computing with the powers of two.\<close>

lemma round_f64_code [code]:
  "round_f64 x =
     (if 0 \<le> x \<and> x < 9007199254740992 \<and> x = of_int \<lfloor>x\<rfloor> then Fin x
      else if x = 0 then Fin 0
      else
        let u = max (exponent \<bar>x\<bar> - 52) (- 1074);
            y = of_int (round_half_even (\<bar>x\<bar> / pow2 u)) * pow2 u
        in if 18446744073709551616 \<le> y \<and> pow2 1024 \<le> y then (if 0 < x then PosInf else NegInf)
           else Fin (if 0 < x then y else - y))"
proof (cases "0 \<le> x \<and> x < 9007199254740992 \<and> x = of_int \<lfloor>x\<rfloor>")
  case True
  then obtain k where k: "x = of_int k" "0 \<le> k" by (metis floor_less_zero linorder_not_less)
  then have x: "x = of_nat (nat k)" by simp
  have "(of_nat (nat k) :: rat) < of_nat (2 ^ 53)" using True x by simp
  then have "nat k < 2 ^ 53" by (simp only: of_nat_less_iff)
  from f64_of_nat_exact [OF this] True x show ?thesis by (simp add: f64_of_nat_def)
next
  case False
  have "(18446744073709551616 :: rat) \<le> pow2 1024" by (simp add: pow2_def)
  then have "18446744073709551616 \<le> y \<and> pow2 1024 \<le> y \<longleftrightarrow> pow2 1024 \<le> y" for y by auto
  with False show ?thesis unfolding round_f64_def Let_def by (simp only: if_False)
qed

text \<open>The same for words of the usual widths, whose operations reduce modulo a power of two.\<close>

lemma take_bit_widths_code [code]:
  "take_bit n (k :: int) =
     (if n = 128 then k mod 340282366920938463463374607431768211456
      else if n = 64 then k mod 18446744073709551616
      else if n = 32 then k mod 4294967296
      else k mod 2 ^ n)"
  by (auto simp: take_bit_int_def)

lemmas latency_eval =
  f64_numerals f64_sum_def new_rpc_def rpc_new_def status_default_def update_latency_def update_rpc_latency_def
  new_lock_def Let_def

lemmas selection_eval =
  pick_def algo_def algo_step_def eligible_def argsort_def latency_key_def default_rpcs_def rpc_default_def
  saturating_sub_def unat_word_max word_le_nat_alt upt_rec

end
