(* ===== verification/TestSubs.thy ===== *)
theory TestSubs
  imports TestBase
begin

text \<open>
  The unit tests of \<open>src/src/websocket/types.rs\<close> and \<open>src/src/websocket/subscription_manager.rs\<close>,
  evaluated on the model: a test is a boolean that follows the calls and assertions of the
  Rust test. A channel is a number; a receiver that the test has dropped is one that is not
  alive, and what a live receiver gets is among the deliveries.
\<close>

definition subscribe_request :: "json \<Rightarrow> json \<Rightarrow> json" where
  "subscribe_request id_value params =
     obj_of [(''jsonrpc'', JStr ''2.0''), (''id'', id_value), (''method'', method_serialize Subscribe), (''params'', params)]"

definition heads_params :: json where
  "heads_params = JArr [JStr ''newHeads'']"

definition params_only :: "string list \<Rightarrow> json" where
  "params_only ps = obj_of [(''params'', JArr (map JStr ps))]"

text \<open>\<open>setup_user_and_subscription_data\<close>\<close>

definition setup_user_and_subscription_data :: "sub_data \<times> u32 \<times> channel" where
  "setup_user_and_subscription_data = (add_user 100 0 sub_data_new, 100, 0)"

definition has_user :: "u32 \<Rightarrow> sub_data \<Rightarrow> bool" where
  "has_user u sd \<longleftrightarrow> map_of (users sd) u \<noteq> None"

definition is_subscribed :: "usize \<Rightarrow> string \<Rightarrow> u32 \<Rightarrow> sub_data \<Rightarrow> bool" where
  "is_subscribed n s u sd =
     list_ex (\<lambda>(k, v). node_id k = n \<and> subscription_id k = s \<and> u \<in> set v) (subscriptions sd)"

definition test_add_and_remove_user :: bool where
  "test_add_and_remove_user =
     (let (sd, u, _) = setup_user_and_subscription_data
      in has_user u sd \<and> \<not> has_user u (remove_user u sd))"

definition test_get_node_from_id :: bool where
  "test_get_node_from_id =
     (let sd = register_subscription json_codec (subscribe_request (num 2) heads_params) ''sub123'' 42 sub_data_new
      in get_node_from_id ''sub123'' sd = Some 42 \<and> get_node_from_id ''nonexistent'' sd = None)"

text \<open>The common beginning of several tests: a user, a registered subscription and the user
  subscribed to it; \<open>None\<close> when \<open>subscribe_user\<close> fails.\<close>

definition subscribed :: "string \<Rightarrow> usize \<Rightarrow> sub_data option" where
  "subscribed sub_id n =
     (let (sd, u, _) = setup_user_and_subscription_data;
          request = subscribe_request (num 2) heads_params
      in case subscribe_user json_codec u request (register_subscription json_codec request sub_id n sd) of
           (Inl _, _) \<Rightarrow> None
         | (Inr _, sd') \<Rightarrow> Some sd')"

definition test_subscribe_and_unsubscribe_user :: bool where
  "test_subscribe_and_unsubscribe_user =
     (case subscribed ''200'' 1 of
        None \<Rightarrow> False
      | Some sd \<Rightarrow> is_subscribed 1 ''200'' 100 sd \<and> \<not> is_subscribed 1 ''200'' 100 (unsubscribe_user 100 ''200'' sd))"

definition test_unsubscribe_user_from_all :: bool where
  "test_unsubscribe_user_from_all =
     (case subscribed ''200'' 1 of
        None \<Rightarrow> False
      | Some sd \<Rightarrow> is_subscribed 1 ''200'' 100 sd \<and> \<not> is_subscribed 1 ''200'' 100 (unsubscribe_user_from_all 100 sd))"

definition test_dispatch_to_subscribers :: bool where
  "test_dispatch_to_subscribers =
     (case subscribed ''300'' 1 of
        None \<Rightarrow> False
      | Some sd \<Rightarrow>
          (case dispatch_to_subscribers (\<lambda>_. True) ''300'' 1 (SubscriptionResult (JStr ''test message'')) sd of
             (Inr _, _, ds) \<Rightarrow> map snd (filter (\<lambda>(u, _). u = 100) ds) = [(0, SubscriptionResult (JStr ''test message''))]
           | _ \<Rightarrow> False))"

definition test_remove_nonexistent_user :: bool where
  "test_remove_nonexistent_user =
     (let (sd, _, _) = setup_user_and_subscription_data
      in \<not> has_user 999 sd \<and> \<not> has_user 999 (remove_user 999 sd))"

definition test_unsubscribe_nonexistent_subscription :: bool where
  "test_unsubscribe_nonexistent_subscription =
     (let (sd, u, _) = setup_user_and_subscription_data
      in map_of (subscriptions (unsubscribe_user u ''sub400'' sd)) \<lparr>node_id = 10000, subscription_id = ''sub400''\<rparr> = None)"

definition test_get_sub_id_by_node :: bool where
  "test_get_sub_id_by_node =
     (let sd = register_subscription json_codec (params_only [''newHeads'']) ''sub123'' 10 sub_data_new
      in get_sub_id_by_node 10 sd = [''sub123''] \<and> get_sub_id_by_node 999 sd = [])"

definition test_get_sub_id_by_node_with_multiple_subscriptions :: bool where
  "test_get_sub_id_by_node_with_multiple_subscriptions =
     (let sd = register_subscription json_codec (params_only [''newHeads'']) ''sub123'' 10 sub_data_new;
          sd = register_subscription json_codec (params_only [''logs'']) ''sub456'' 10 sd;
          sub_ids = get_sub_id_by_node 10 sd
      in length sub_ids = 2 \<and> ''sub123'' \<in> set sub_ids \<and> ''sub456'' \<in> set sub_ids)"

definition test_get_subscription_by_node :: bool where
  "test_get_subscription_by_node =
     (let sd = register_subscription json_codec (params_only [''newHeads'']) ''sub456'' 20 sub_data_new
      in get_subscription_by_node json_codec 20 sd = [to_text json_codec heads_params] \<and>
         get_subscription_by_node json_codec 999 sd = [])"

definition test_get_sub_id_by_params :: bool where
  "test_get_sub_id_by_params =
     (let sd = sub_data_new\<lparr>incoming := [(''newHeads'', \<lparr>node_id = 1, subscription_id = ''sub123''\<rparr>)]\<rparr>
      in get_sub_id_by_params ''newHeads'' sd = Some ''sub123'' \<and> get_sub_id_by_params ''logs'' sd = None)"

definition test_get_subscription_by_node_with_multiple_subscriptions :: bool where
  "test_get_subscription_by_node_with_multiple_subscriptions =
     (let sd = register_subscription json_codec (params_only [''newHeads'']) ''sub789'' 20 sub_data_new;
          sd = register_subscription json_codec (params_only [''logs'', ''adasdas'']) ''sub101112'' 20 sd;
          subs = get_subscription_by_node json_codec 20 sd
      in length subs = 2 \<and> to_text json_codec heads_params \<in> set subs \<and>
         to_text json_codec (JArr [JStr ''logs'', JStr ''adasdas'']) \<in> set subs)"

definition test_move_one_subscription :: bool where
  "test_move_one_subscription =
     (let request = params_only [''oldHeads''];
          sd = add_user 123 0 (register_subscription json_codec request ''sub789'' 30 sub_data_new)
      in case subscribe_user json_codec 123 request sd of
           (Inl _, _) \<Rightarrow> False
         | (Inr _, sd) \<Rightarrow>
             (case move_subscription 31 (to_text json_codec (JArr [JStr ''oldHeads''])) ''sub789'' sd of
                (Inl _, _) \<Rightarrow> False
              | (Inr _, sd) \<Rightarrow>
                  (case map_of (subscriptions sd) \<lparr>node_id = 31, subscription_id = ''sub789''\<rparr> of
                     None \<Rightarrow> False | Some us \<Rightarrow> 123 \<in> set us) \<and>
                  map_of (subscriptions sd)
                    \<lparr>node_id = 30, subscription_id = to_text json_codec (JArr [JStr ''oldHeads''])\<rparr> = None))"

definition test_move_subscriptions_with_no_subscribers :: bool where
  "test_move_subscriptions_with_no_subscribers =
     (let sd = raw_register ''oldHeads'' ''sub789'' 30 sub_data_new
      in case move_subscription 31 ''oldHeads'' ''sub789'' sd of
           (Inr _, _) \<Rightarrow> False
         | (Inl _, sd) \<Rightarrow>
             (case map_of (incoming sd) ''oldHeads'' of
                None \<Rightarrow> False
              | Some info \<Rightarrow> (case map_of (subscriptions sd) info of None \<Rightarrow> True | Some us \<Rightarrow> us = [])))"

definition test_dispatch_to_empty_subscription_list :: bool where
  "test_dispatch_to_empty_subscription_list =
     (let sd = register_subscription json_codec (subscribe_request (num 2) heads_params) ''500'' 10000 sub_data_new
      in case dispatch_to_subscribers (\<lambda>_. True) ''500'' 10000 (SubscriptionResult (JStr ''empty test message'')) sd of
           (Inr _, _, _) \<Rightarrow> True
         | _ \<Rightarrow> False)"

definition test_get_users_for_subscription :: bool where
  "test_get_users_for_subscription =
     (case subscribed ''200'' 1 of
        None \<Rightarrow> False
      | Some sd \<Rightarrow>
          (let us = get_users_for_subscription ''200'' sd
           in length us = 1 \<and> 100 \<in> set us \<and> get_users_for_subscription ''nonexistent'' sd = []))"

definition test_dispatch_to_nonexistent_subscription :: bool where
  "test_dispatch_to_nonexistent_subscription =
     (case dispatch_to_subscribers (\<lambda>_. True) ''600'' 10000
             (SubscriptionResult (JStr ''nonexistent subscription message'')) sub_data_new of
        (Inr _, _, _) \<Rightarrow> True
      | _ \<Rightarrow> False)"

text \<open>User 1 has channel 1, whose receiver is dropped, and user 2 channel 2.\<close>

definition test_dispatch_to_closed_user_channel :: bool where
  "test_dispatch_to_closed_user_channel =
     (let sd = add_user 2 2 (add_user 1 1 sub_data_new);
          request = subscribe_request (num 1) heads_params;
          sd = register_subscription json_codec request ''0xsub'' 0 sd
      in case subscribe_user json_codec 1 request sd of
           (Inl _, _) \<Rightarrow> False
         | (Inr _, sd) \<Rightarrow>
             (case subscribe_user json_codec 2 request sd of
                (Inl _, _) \<Rightarrow> False
              | (Inr _, sd) \<Rightarrow>
                  (case dispatch_to_subscribers (\<lambda>ch. ch \<noteq> 1) ''0xsub'' 0
                          (SubscriptionResult (obj_of [(''params'', obj_of [(''subscription'', JStr ''0xsub'')])])) sd of
                     (Inl _, _, _) \<Rightarrow> False
                   | (Inr _, sd, ds) \<Rightarrow>
                       list_ex (\<lambda>(u, ch, _). ch = 2) ds \<and> get_users_for_subscription ''0xsub'' sd = [2] \<and>
                       \<not> has_user 1 sd)))"

section \<open>The subscription manager\<close>

definition notification_content :: json where
  "notification_content =
     obj_of [(''method'', method_serialize Subscription), (''params'', obj_of [(''subscription'', JStr ''sub123'')])]"

definition test_subscription_dispatcher :: bool where
  "test_subscription_dispatcher =
     (let sd = add_user 1 0 sub_data_new;
          request = subscribe_request (num 1) heads_params;
          sd = register_subscription json_codec request ''sub123'' 0 sd
      in case subscribe_user json_codec 1 request sd of
           (Inl _, _) \<Rightarrow> False
         | (Inr _, sd) \<Rightarrow>
             (case subscription_dispatcher (\<lambda>_. True) [Inr \<lparr>content = notification_content, from_node = 0\<rparr>] sd of
                (_, _, ds, _) \<Rightarrow> map snd (filter (\<lambda>(u, _). u = 1) ds) = [(0, SubscriptionResult notification_content)]))"

text \<open>The task of \<open>test_move_subscriptions\<close> that answers each subscription request with a random
  subscription of node 2, until it reads a message that is not a request; a request without a
  numeric id would panic, and no more answers would come.\<close>

fun mock_node :: "string list \<Rightarrow> wsconn_message list \<Rightarrow> incoming_response list" where
  "mock_node rs [] = []"
| "mock_node rs (Reconnect # ms) = []"
| "mock_node rs (Message v _ # ms) =
     (if \<not> json_eq_method (jindex v ''method'') eth_rpc_method.Subscribe then mock_node rs ms
      else case as_u64 (jindex v ''id'') of
             None \<Rightarrow> []
           | Some i \<Rightarrow>
               \<lparr>content = obj_of [(''jsonrpc'', JStr ''2.0''), (''id'', num (ucast (ucast i :: u32))),
                                 (''result'', JStr (hd rs))],
                from_node = 2\<rparr> # mock_node (tl rs) ms)"

definition test_move_subscriptions :: "string list \<Rightarrow> bool" where
  "test_move_subscriptions random_results =
     (let request = subscribe_request (num 2) heads_params;
          sd = register_subscription json_codec request ''sub789'' 1 sub_data_new
      in case subscribe_user json_codec 2 request sd of
           (Inl _, _) \<Rightarrow> False
         | (Inr _, sd) \<Rightarrow>
             (let requests = fst (move_subscriptions json_codec 1 [] sd)
              in case move_subscriptions json_codec 1 (map Inr (mock_node random_results requests)) sd of
                   (_, Some (Inr _), sd) \<Rightarrow>
                     get_subscription_by_node json_codec 1 sd = [] \<and> get_subscription_by_node json_codec 2 sd \<noteq> []
                 | _ \<Rightarrow> False))"

section \<open>The tests pass\<close>

lemma user_tests_pass: "test_add_and_remove_user" "test_remove_nonexistent_user"
  by code_simp+

lemma registration_tests_pass:
  "test_get_node_from_id" "test_get_sub_id_by_node" "test_get_sub_id_by_node_with_multiple_subscriptions"
  "test_get_subscription_by_node" "test_get_subscription_by_node_with_multiple_subscriptions" "test_get_sub_id_by_params"
  by code_simp+

lemma subscription_tests_pass:
  "test_subscribe_and_unsubscribe_user" "test_unsubscribe_user_from_all" "test_unsubscribe_nonexistent_subscription"
  "test_get_users_for_subscription"
  by code_simp+

lemma move_tests_pass: "test_move_one_subscription" "test_move_subscriptions_with_no_subscribers"
  by code_simp+

lemma dispatch_tests_pass:
  "test_dispatch_to_subscribers" "test_dispatch_to_empty_subscription_list" "test_dispatch_to_nonexistent_subscription"
  "test_dispatch_to_closed_user_channel"
  by code_simp+

text \<open>The last one passes whatever the random ids are.\<close>

lemma manager_tests_pass: "test_subscription_dispatcher" "test_move_subscriptions random_results"
  by code_simp+

end
