(* ===== verification/TestWs.thy ===== *)
theory TestWs
  imports TestBase
begin

text \<open>
  The unit tests of \<open>src/src/websocket/client.rs\<close>, evaluated on the model.
\<close>

section \<open>Connections\<close>

definition create_mock_rpc_list :: "rpc list" where
  "create_mock_rpc_list =
     [new_rpc 0 (host_url ''http'' ''test1'') (Some (host_url ''ws'' ''test1'')) 0 0 (Fin 0),
      new_rpc 1 (host_url ''http'' ''test2'') (Some (host_url ''ws'' ''test2'')) 0 0 (Fin 0)]"

definition mock_connections :: "rpc list \<Rightarrow> ws_manager" where
  "mock_connections l =
     \<lparr>ws_rpcs = new_lock l, handles = map (\<lambda>r. (rpc_id r, \<lparr>handle_open = True, handle_sent = []\<rparr>)) l,
      ws_buffer = [], ws_turn = 0\<rparr>"

definition received_by :: "usize \<Rightarrow> ws_manager \<Rightarrow> json list" where
  "received_by i m = (case map_of (handles m) i of None \<Rightarrow> [] | Some h \<Rightarrow> handle_sent h)"

definition test_handle_incoming_message :: bool where
  "test_handle_incoming_message =
     (let rpc_list = create_mock_rpc_list;
          i = rpc_id (rpc_list ! 1);
          call = obj_of [(''type'', JStr ''test'')]
      in received_by i (ws_send all_connect call (Some i) (mock_connections rpc_list)) = [call])"

definition test_message_goes_to_picked_rpc_after_list_shifts :: bool where
  "test_message_goes_to_picked_rpc_after_list_shifts =
     (let m = mock_connections create_mock_rpc_list;
          evicted = hd (contents (ws_rpcs m));
          m = m\<lparr>ws_rpcs := new_lock (tl (contents (ws_rpcs m)))\<rparr>;
          remaining = rpc_id (contents (ws_rpcs m) ! 0);
          call = obj_of [(''method'', JStr ''eth_chainId'')];
          m = ws_send all_connect call None m
      in received_by remaining m = [call] \<and> received_by (rpc_id evicted) m = [])"

section \<open>Requests\<close>

definition no_io :: ws_io where
  "no_io = \<lparr>io_subs = sub_data_new, io_head = new_lock [], io_sent = [], io_calls = []\<rparr>"

definition answer_of :: "string \<Rightarrow> incoming_response" where
  "answer_of r =
     \<lparr>content = obj_of [(''jsonrpc'', JStr ''2.0''), (''id'', num 1), (''result'', JStr r)], from_node = 0\<rparr>"

definition hears :: "cache_side \<Rightarrow> incoming_response list \<Rightarrow> ws_surroundings" where
  "hears C resps = \<lparr>side_of = C, manager_up = True, while_waiting = (\<lambda>s. s), heard = map Inr resps\<rparr>"

definition expected_answer :: string where
  "expected_answer = ''{\"id\":1,\"jsonrpc\":\"2.0\",\"result\":\"0x1a2b3c\"}''"

definition test_execute_ws_subscription_and_call :: bool where
  "test_execute_ws_subscription_and_call =
     (let W = hears (default_side []) [answer_of ''0x1a2b3c''];
          call = obj_of [(''jsonrpc'', JStr ''2.0''), (''id'', num 1), (''method'', method_serialize eth_rpc_method.Subscribe),
                         (''params'', JArr [JStr ''newHeads''])]
      in case execute_ws_call W 1 call no_io of
           (io, Ret (Some (Inr result))) \<Rightarrow>
             result = expected_answer \<and>
             (let call = obj_of [(''jsonrpc'', JStr ''2.0''), (''id'', num 1), (''method'', method_serialize BlockNumber)]
              in case execute_ws_call W 1 call io of
                   (_, Ret (Some (Inr result))) \<Rightarrow> result = expected_answer
                 | _ \<Rightarrow> False)
         | _ \<Rightarrow> False)"

definition test_ws_latest_is_cached_per_block :: bool where
  "test_ws_latest_is_cached_per_block =
     (let call = obj_of
            [(''jsonrpc'', JStr ''2.0''), (''id'', num 5), (''method'', method_serialize eth_rpc_method.Call),
             (''params'', JArr [obj_of [(''to'', JStr ''0x00000000000000000000000000000000000000aa''), (''data'', JStr ''0x'')],
                                JStr ''latest''])]
      in case execute_ws_call (hears (with_latest 0x10 (default_side [])) [answer_of ''0xaaaa'']) 1 call no_io of
           (io, Ret (Some (Inr first))) \<Rightarrow>
             contains first ''0xaaaa'' \<and>
             (case execute_ws_call (hears (with_latest 0x11 (default_side (db_after (io_sent io) []))) [answer_of ''0xbbbb''])
                     1 call (io\<lparr>io_sent := []\<rparr>) of
                (_, Ret (Some (Inr second))) \<Rightarrow> contains second ''0xbbbb''
              | _ \<Rightarrow> False)
         | _ \<Rightarrow> False)"

definition test_ws_call_that_is_not_an_object :: bool where
  "test_ws_call_that_is_not_an_object =
     list_all
       (\<lambda>call. case execute_ws_call (hears (default_side []) []) 1 call no_io of
          (io, Ret (Some (Inr text))) \<Rightarrow>
            (case serde_parse json_codec text of
               Inr response \<Rightarrow> jindex (jindex response ''error'') ''code'' = JNum (NegInt (- 32600))
             | Inl _ \<Rightarrow> False) \<and>
            io_calls io = []
        | _ \<Rightarrow> False)
       [JArr [obj_of [(''jsonrpc'', JStr ''2.0''), (''id'', num 1), (''method'', JStr ''eth_chainId'')]],
        num 1, JStr ''eth_chainId'']"

definition test_listen_for_response :: bool where
  "test_listen_for_response =
     (case listen_for_response 1 [Inr (answer_of ''0x1a2b3c'')] of
        Some (Inr resp) \<Rightarrow>
          content resp = obj_of [(''jsonrpc'', JStr ''2.0''), (''id'', num 1), (''result'', JStr ''0x1a2b3c'')]
      | _ \<Rightarrow> False)"

section \<open>The tests pass\<close>

lemma connection_tests_pass: "test_handle_incoming_message" "test_message_goes_to_picked_rpc_after_list_shifts"
  by code_simp+

lemma listen_test_passes: "test_listen_for_response"
  by code_simp

lemma call_tests_pass:
  "test_execute_ws_subscription_and_call" "test_ws_latest_is_cached_per_block" "test_ws_call_that_is_not_an_object"
  by code_simp+

end
