(* ===== verification/TestHttp.thy ===== *)
theory TestHttp
  imports TestBase
begin

text \<open>
  The unit tests of \<open>src/src/balancer/accept_http.rs\<close>, evaluated on the model. The servers of the
  tests become the answers to the attempts of a request: \<open>counting_upstream\<close> answers with the number
  of requests it has had, \<open>dead_upstream\<close> refuses connections.
\<close>

definition upstream_answer :: "nat \<Rightarrow> string" where
  "upstream_answer n = ''{\"jsonrpc\":\"2.0\",\"id\":1,\"result\":\"0x'' @ to_digits 16 n @ ''\"}''"

text \<open>\<open>hits\<close> requests came before this one; every endpoint but the dead ones is the upstream.\<close>

definition counting_upstream :: "nat \<Rightarrow> usize list \<Rightarrow> nat \<Rightarrow> rpc \<Rightarrow> json \<Rightarrow> attempt_reply" where
  "counting_upstream hits dead k r tx =
     InTime (if rpc_id r \<in> set dead
             then Inl (rpc_error_from_reqwest \<lparr>re_text = ''error sending request'', re_url = None\<rparr>)
             else Inr (upstream_answer (hits + 1)))"

definition test_outside :: "nat \<Rightarrow> usize list \<Rightarrow> outside" where
  "test_outside hits dead =
     \<lparr>select = (\<lambda>k. algo sort_key 1751000000000000), default_rpc = hd (default_rpcs 1),
      attempt = counting_upstream hits dead, others = (\<lambda>k rl. rl)\<rparr>"

definition test_endpoint :: "usize \<Rightarrow> rpc" where
  "test_endpoint i = new_rpc i (host_url ''http'' ''127.0.0.1'') None 10 0 (Fin 10)"

text \<open>\<open>connection_params\<close>, as the state a request works on.\<close>

definition connection_params :: "rpc list \<Rightarrow> work" where
  "connection_params l = \<lparr>w_rpcs = new_lock l, w_head = new_lock [], w_sent = [], w_asked = []\<rparr>"

definition test_params :: request_params where
  "test_params = \<lparr>ttl = 1000, max_retries = 3, header_check = False\<rparr>"

definition result_of :: "(response \<times> usize option) outcome \<Rightarrow> json" where
  "result_of res =
     (case res of
        Panic \<Rightarrow> JNull
      | Ret (resp, _) \<Rightarrow>
          (case serde_parse json_codec (resp_body resp) of Inl _ \<Rightarrow> JNull | Inr v \<Rightarrow> jindex v ''result''))"

definition get_balance :: "string \<Rightarrow> json" where
  "get_balance block =
     obj_of [(''jsonrpc'', JStr ''2.0''), (''id'', num 7), (''method'', JStr ''eth_getBalance''),
             (''params'', JArr [JStr ''0x00000000000000000000000000000000000000aa'', JStr block])]"

text \<open>One request of a client: the database task has served what was sent before, and the upstream has
  had the requests asked before.\<close>

definition forward :: "u64 \<Rightarrow> test_db \<Rightarrow> usize list \<Rightarrow> json \<Rightarrow> work \<Rightarrow> work \<times> (response \<times> usize option) outcome" where
  "forward head_number d dead tx w =
     forward_value (with_latest head_number (default_side (db_after (w_sent w) d)))
       (test_outside (length (w_asked w)) dead) test_params tx w"

definition test_latest_is_cached_per_block :: bool where
  "test_latest_is_cached_per_block =
     (let w = connection_params [test_endpoint 0];
          (w, first) = forward 0x10 [] [] (get_balance ''latest'') w;
          (w, second) = forward 0x10 [] [] (get_balance ''latest'') w;
          hits = length (w_asked w);
          (w, third) = forward 0x11 [] [] (get_balance ''latest'') w
      in result_of first = JStr ''0x1'' \<and> result_of second = JStr ''0x1'' \<and> hits = 1 \<and>
         result_of third = JStr ''0x2'' \<and> length (w_asked w) = 2)"

definition test_unresolved_block_tag_skips_cache :: bool where
  "test_unresolved_block_tag_skips_cache =
     (case jset ''id'' JNull (get_balance ''latest'') of
        Panic \<Rightarrow> False
      | Ret stale_key \<Rightarrow>
          (let d = db_after (db_insert (to_text json_codec stale_key)
                               ''{\"jsonrpc\":\"2.0\",\"id\":null,\"result\":\"0xdead\"}'' []) [];
               (w, response) = forward 0 d [] (get_balance ''latest'') (connection_params [test_endpoint 0])
           in result_of response = JStr ''0x1'' \<and> length (w_asked w) = 1))"

definition test_fails_over_when_rpc_is_unreachable :: bool where
  "test_fails_over_when_rpc_is_unreachable =
     (case update_latency (Fin 1000) (test_endpoint 1) of
        Panic \<Rightarrow> False
      | Ret alive \<Rightarrow>
          (let dead = test_endpoint 0;
               (w, response) = forward 0 [] [rpc_id dead] (get_balance ''0x10'') (connection_params [dead, alive])
           in result_of response = JStr ''0x1'' \<and>
              length (filter (\<lambda>i. i \<noteq> rpc_id dead) (w_asked w)) = 1 \<and>
              (case response of Ret (_, i) \<Rightarrow> i \<noteq> Some (rpc_id dead) | Panic \<Rightarrow> False) \<and>
              (case find (\<lambda>r. rpc_id r = rpc_id dead) (contents (w_rpcs w)) of
                 None \<Rightarrow> False
               | Some r \<Rightarrow> \<not> f64_le (latency (status r)) (Fin 1000))))"

definition test_gives_up_when_every_rpc_is_unreachable :: bool where
  "test_gives_up_when_every_rpc_is_unreachable =
     (case forward 0 [] [0] (get_balance ''0x10'') (connection_params [test_endpoint 0]) of
        (_, Ret (response, i)) \<Rightarrow> resp_status response = 408 \<and> i = None
      | _ \<Rightarrow> False)"

definition test_zero_max_retries_still_gives_up :: bool where
  "test_zero_max_retries_still_gives_up =
     (case forward_value (default_side []) (test_outside 0 [0]) (test_params\<lparr>max_retries := 0\<rparr>) (get_balance ''0x10'')
             (connection_params [test_endpoint 0]) of
        (_, Ret (response, _)) \<Rightarrow> resp_status response = 408
      | _ \<Rightarrow> False)"

definition test_request_that_is_not_an_object :: bool where
  "test_request_that_is_not_an_object =
     (let batch = JArr [get_balance ''0x10'', get_balance ''0x11'']
      in case forward 0 [] [] batch (connection_params [test_endpoint 0]) of
           (w, Ret (response, i)) \<Rightarrow>
             resp_status response = 400 \<and>
             (case serde_parse json_codec (resp_body response) of
                Inl _ \<Rightarrow> False
              | Inr v \<Rightarrow> jindex (jindex v ''error'') ''code'' = JNum (NegInt (- 32600))) \<and>
             i = None \<and> w_asked w = []
         | _ \<Rightarrow> False)"

section \<open>The tests pass\<close>

lemma http_cache_tests_pass: "test_latest_is_cached_per_block" "test_unresolved_block_tag_skips_cache"
  by code_simp+

lemma failover_test_passes: "test_fails_over_when_rpc_is_unreachable"
  by code_simp

lemma unreachable_test_passes: "test_gives_up_when_every_rpc_is_unreachable"
  by code_simp

lemma rejection_tests_pass: "test_zero_max_retries_still_gives_up" "test_request_that_is_not_an_object"
  by code_simp+

end
