(* ===== verification/TestHealth.thy ===== *)
theory TestHealth
  imports TestBase
begin

text \<open>
  The unit tests of \<open>src/src/health/check.rs\<close>, \<open>src/src/health/head_cache.rs\<close>,
  \<open>src/src/admin/liveready.rs\<close> and \<open>src/src/database/types.rs\<close>, evaluated on the model. Where a test
  gives other tasks time to act, they have acted.
\<close>

section \<open>The health check\<close>

definition head_of :: "rpc \<Rightarrow> bool \<Rightarrow> u64 \<Rightarrow> head_result" where
  "head_of r syncing n = \<lparr>hr_id = rpc_id r, hr_syncing = syncing, hr_head = n\<rparr>"

definition rpc_ids :: "rpc list \<Rightarrow> usize list" where
  "rpc_ids l = map rpc_id l"

definition test_poverty :: bool where
  "test_poverty =
     (let d = default_rpcs 3;
          heads = [head_of (d ! 0) False 18177557, head_of (d ! 1) False 18193012, head_of (d ! 2) False 0];
          (_, rl, pl) = make_poverty d [] heads
      in rpc_ids rl = [rpc_id (d ! 1)] \<and> length pl = 2)"

definition test_poverty_after_list_shifts :: bool where
  "test_poverty_after_list_shifts =
     (let d = default_rpcs 3;
          heads = [head_of (d ! 0) False 18193012, head_of (d ! 1) False 18193012, head_of (d ! 2) False 0];
          (_, rl, pl) = make_poverty (tl d) [] heads
      in rpc_ids rl = [rpc_id (d ! 1)] \<and> rpc_ids pl = [rpc_id (d ! 2)])"

definition test_escape :: bool where
  "test_escape =
     (let d = default_rpcs 3;
          rpc1 = set_erroring True (d ! 0); rpc3 = set_erroring True (d ! 2);
          heads = [head_of rpc1 False 18177557, head_of rpc3 False 18193012];
          (_, rl, pl) = escape_poverty [d ! 1] [rpc1, rpc3] heads 18193012
      in length rl = 2 \<and> rpc_id (rl ! 1) = rpc_id rpc3 \<and> rpc_ids pl = [rpc_id rpc1])"

definition test_escape_sync :: bool where
  "test_escape_sync =
     (let d = default_rpcs 3;
          rpc1 = set_erroring True (d ! 0); rpc3 = set_erroring True (d ! 2);
          heads = [head_of rpc1 False 18193012, head_of rpc3 True 18193012];
          (_, rl, pl) = escape_poverty [d ! 1] [rpc1, rpc3] heads 18193012
      in length rl = 2 \<and> rpc_id (rl ! 1) = rpc_id rpc1 \<and> rpc_ids pl = [rpc_id rpc3])"

section \<open>The head cache\<close>

definition test_handle_reorg_backwards :: bool where
  "test_handle_reorg_backwards =
     (let d = [(''key1'', ''value1''), (''key2'', ''value2''), (''key3'', ''value3'')];
          hc = new_lock [(1, [''key1'']), (2, [''key2'']), (3, [''key3''])]
      in case handle_reorg hc 3 2 of
           Panic \<Rightarrow> False
         | Ret (hc, reqs) \<Rightarrow>
             (let d = db_after reqs d
              in bt_get (contents hc) 1 \<noteq> None \<and> bt_get (contents hc) 2 = None \<and> bt_get (contents hc) 3 = None \<and>
                 (case get_from d ''key1'' of Inr (Some _) \<Rightarrow> True | _ \<Rightarrow> False) \<and>
                 get_from d ''key2'' = Inr None \<and> get_from d ''key3'' = Inr None))"

definition same_height_reorg :: "bool \<Rightarrow> bool" where
  "same_height_reorg prune_finalized =
     (let hc = new_lock [(1, [''earlier'']), (2, [''head_a'', ''head_b''])];
          d = map (\<lambda>k. (k, ''cached response'')) [''earlier'', ''head_a'', ''head_b'']
      in case obind (if prune_finalized then remove_stale hc 1 else Ret hc) (\<lambda>hc. handle_reorg hc 2 2) of
           Panic \<Rightarrow> False
         | Ret (hc, reqs) \<Rightarrow>
             (let d = db_after reqs d
              in get_from d ''earlier'' = Inr (Some ''cached response'') \<and>
                 list_all (\<lambda>k. get_from d k = Inr None) [''head_a'', ''head_b''] \<and>
                 bt_get (contents hc) 2 = None))"

definition test_handle_reorg_same_height :: bool where
  "test_handle_reorg_same_height = same_height_reorg False"

definition test_handle_reorg_after_parent_finalizes :: bool where
  "test_handle_reorg_after_parent_finalizes = same_height_reorg True"

definition test_remove_stale_keeps_unfinalized_blocks :: bool where
  "test_remove_stale_keeps_unfinalized_blocks =
     (case remove_stale (new_lock [(1, [''key1'']), (2, [''key2''])]) 1 of
        Panic \<Rightarrow> False
      | Ret hc \<Rightarrow> bt_get (contents hc) 1 = None \<and> bt_get (contents hc) 2 \<noteq> None)"

definition test_remove_stale_max_block_number :: bool where
  "test_remove_stale_max_block_number =
     (case remove_stale (new_lock [(- 2, [''parent'']), (- 1, [''head''])]) (- 1) of
        Panic \<Rightarrow> False
      | Ret hc \<Rightarrow> contents hc = [])"

section \<open>Liveness\<close>

definition status_is :: "live_ready rwlock outcome \<Rightarrow> readiness_state \<Rightarrow> health_state \<Rightarrow> bool" where
  "status_is st r h \<longleftrightarrow> (case st of Panic \<Rightarrow> False | Ret s \<Rightarrow> readiness (contents s) = r \<and> health (contents s) = h)"

definition answered :: "live_ready rwlock \<Rightarrow> live_ready option" where
  "answered st = (case liveness_request st of Panic \<Rightarrow> None | Ret v \<Rightarrow> Some v)"

definition test_liveness_listener_updates_status :: bool where
  "test_liveness_listener_updates_status =
     status_is (liveness_updates (new_lock live_ready_default) [ReadinessUpd Ready, HealthUpd MissingRpcs])
       Ready MissingRpcs"

definition test_accept_readiness_request_returns_correct_response :: bool where
  "test_accept_readiness_request_returns_correct_response =
     (let st = \<lparr>readiness = Ready, health = Healthy\<rparr>
      in resp_status (accept_readiness_request (answered (new_lock st))) = 200 \<and>
         resp_status (accept_readiness_request (answered (new_lock (st\<lparr>readiness := Setup\<rparr>)))) = 503)"

definition test_accept_health_request_returns_correct_response :: bool where
  "test_accept_health_request_returns_correct_response =
     (let st = \<lparr>readiness = Ready, health = Healthy\<rparr>
      in resp_status (accept_health_request (answered (new_lock st))) = 200 \<and>
         resp_status (accept_health_request (answered (new_lock (st\<lparr>health := MissingRpcs\<rparr>)))) = 202 \<and>
         resp_status (accept_health_request (answered (new_lock (st\<lparr>health := Unhealthy\<rparr>)))) = 503)"

definition test_update_and_request_liveness_status_concurrently :: bool where
  "test_update_and_request_liveness_status_concurrently =
     (let st1 = liveness_updates (new_lock live_ready_default) [ReadinessUpd Ready, HealthUpd Unhealthy];
          st2 = obind st1 (\<lambda>s. liveness_updates s [HealthUpd Healthy]);
          st3 = obind st2 (\<lambda>s. liveness_updates s [HealthUpd Healthy])
      in obind st1 liveness_request = Ret \<lparr>readiness = Ready, health = Unhealthy\<rparr> \<and>
         (case obind st2 liveness_request of Ret v \<Rightarrow> health v = Healthy | Panic \<Rightarrow> False) \<and>
         obind st3 liveness_request = Ret \<lparr>readiness = Ready, health = Healthy\<rparr>)"

definition test_empty_updates_does_not_change_status :: bool where
  "test_empty_updates_does_not_change_status =
     status_is (liveness_updates (new_lock \<lparr>readiness = Ready, health = Healthy\<rparr>) []) Ready Healthy"

text \<open>One half of \<open>test_health_state_transitions\<close>: all endpoints go from one list to the other, and the
  update arrives.\<close>

definition transition ::
  "health_state \<Rightarrow> rpc list \<times> rpc list \<times> live_ready rwlock outcome \<Rightarrow> rpc list \<times> rpc list \<times> live_ready rwlock outcome" where
  "transition h s =
     (let (src, dst, st) = s in (dst @ src, [], obind st (\<lambda>s. liveness_updates s [HealthUpd h])))"

definition has_health :: "health_state \<Rightarrow> live_ready rwlock outcome \<Rightarrow> bool" where
  "has_health h st = (case st of Panic \<Rightarrow> False | Ret s \<Rightarrow> health (contents s) = h)"

definition test_health_state_transitions :: bool where
  "test_health_state_transitions =
     (let (pl1, rl1, st1) = transition Unhealthy (default_rpcs 2, [], Ret (new_lock live_ready_default));
          (rl2, pl2, st2) = transition Healthy (pl1, rl1, st1);
          (pl3, rl3, st3) = transition Unhealthy (rl2, pl2, st2);
          (rl4, pl4, st4) = transition Healthy (pl3, rl3, st3)
      in has_health Unhealthy st1 \<and> rl1 = [] \<and> length pl1 = 2 \<and>
         has_health Healthy st2 \<and> length rl2 = 2 \<and> pl2 = [] \<and>
         has_health Unhealthy st3 \<and> rl3 = [] \<and> length pl3 = 2 \<and>
         has_health Healthy st4 \<and> length rl4 = 2 \<and> pl4 = [])"

section \<open>The database\<close>

type_synonym test_sled = "(test_db, test_db) sled_db"

definition unwrapped :: "('e + unit) \<times> 'a \<Rightarrow> 'a option" where
  "unwrapped r = (case r of (Inl _, _) \<Rightarrow> None | (Inr _, s) \<Rightarrow> Some s)"

definition key_of :: "nat \<Rightarrow> string" where
  "key_of i = replicate 32 (char_of i)"

definition value_of :: "nat \<Rightarrow> string" where
  "value_of i = replicate 96 (char_of i)"

definition write_entries :: "nat list \<Rightarrow> test_sled \<Rightarrow> test_sled option" where
  "write_entries is d =
     foldl (\<lambda>d i. Option.bind d (\<lambda>d. unwrapped (sled_write mem_engine d (key_of i) (value_of i)))) (Some d) is"

text \<open>The times: when the database was opened, the readings of each \<open>maintain\<close>, and the hour added
  to the clock.\<close>

definition test_sled_db_reopens_after_pinning_cache_capacity :: bool where
  "test_sled_db_reopens_after_pinning_cache_capacity =
     (let entry = 32 + 96;
          clock = \<lparr>t_check = 2000, t_start = 2010, t_stop = 2020, t_base = 2030\<rparr>;
          maintain = (\<lambda>d. Option.bind d (\<lambda>d. unwrapped (sled_maintain mem_engine clock d)));
          opened = sled_open mem_engine (10 * entry * FANOUT) 1000 ([] :: test_db)
      in case opened of
           Inl _ \<Rightarrow> False
         | Inr d0 \<Rightarrow>
             (case foldl (\<lambda>d i. maintain (Option.bind d (write_entries [i]))) (Some d0) [0..<9] of
                None \<Rightarrow> False
              | Some d1 \<Rightarrow>
                  pinned d1 = 9 * entry * FANOUT \<and>
                  (case maintain (unwrapped (sled_batch mem_engine d1 (batch_insert (key_of 9) (value_of 9) []))) of
                     None \<Rightarrow> False
                   | Some d2 \<Rightarrow>
                       pinned d2 = 0 \<and>
                       list_all (\<lambda>i. sled_read mem_engine d2 (key_of i) = Inr (Some (value_of i))) [0..<10] \<and>
                       (case maintain (write_entries [10..<20] (d2\<lparr>next_reopen := 2040 + 3600 * 1000000000\<rparr>)) of
                          None \<Rightarrow> False
                        | Some d3 \<Rightarrow> pinned d3 = 10 * entry * FANOUT))))"

section \<open>The tests pass\<close>

lemma poverty_tests_pass: "test_poverty" "test_poverty_after_list_shifts" "test_escape" "test_escape_sync"
  by code_simp+

lemma head_cache_tests_pass:
  "test_handle_reorg_backwards" "test_handle_reorg_same_height" "test_handle_reorg_after_parent_finalizes"
  "test_remove_stale_keeps_unfinalized_blocks" "test_remove_stale_max_block_number"
  by code_simp+

lemma liveness_tests_pass:
  "test_liveness_listener_updates_status" "test_accept_readiness_request_returns_correct_response"
  "test_accept_health_request_returns_correct_response" "test_update_and_request_liveness_status_concurrently"
  "test_empty_updates_does_not_change_status" "test_health_state_transitions"
  by code_simp+

text \<open>The keys and values of the database test, by their numbers.\<close>

lemma entry_lengths: "length (key_of i) = 32" "length (value_of i) = 96"
  by (simp_all add: key_of_def value_of_def)

lemma entry_heads: "key_of i = char_of i # replicate 31 (char_of i)" "value_of i = char_of i # replicate 95 (char_of i)"
  by (simp_all add: key_of_def value_of_def eval_nat_numeral)

lemma entry_order:
  assumes "i < 256" "j < 256"
  shows "key_of i = key_of j \<longleftrightarrow> i = j" "key_of i < key_of j \<longleftrightarrow> i < j" "value_of i = value_of j \<longleftrightarrow> i = j"
  using assms by (auto simp: entry_heads less_char_def char_of_eq_iff take_bit_nat_eq_self)

lemma database_test_passes: "test_sled_db_reopens_after_pinning_cache_capacity"
  by (simp add: test_sled_db_reopens_after_pinning_cache_capacity_def write_entries_def unwrapped_def sled_open_def
      sled_write_def sled_batch_def sled_maintain_def sled_read_def mem_engine_def batch_insert_def pin_def FANOUT_def
      saturating_add_def saturating_mul_def bt_get_def entry_lengths entry_order upt_rec Let_def)

end
