(* ===== verification/TestAdmin.thy ===== *)
theory TestAdmin
  imports TestBase AdminMethods
begin

text \<open>
  The unit tests of \<open>src/src/admin/methods.rs\<close> and \<open>src/src/admin/accept.rs\<close>, evaluated on the model.
\<close>

definition test_admin_env :: admin_env where
  "test_admin_env =
     \<lparr>adm_codec = json_codec, adm_parse_url = parse_simple_url, adm_debug_str = quoted, adm_time_text = ''1ms''\<rparr>"

definition half :: f64 where
  "half = Fin (1 / 2)"

definition create_test_rpc_list :: "rpc list" where
  "create_test_rpc_list = [new_rpc 0 (host_url ''http'' ''example.com'') None 5 1000 half]"

definition create_test_poverty_list :: "rpc list" where
  "create_test_poverty_list = [new_rpc 1 (host_url ''http'' ''poverty.com'') None 2 1000 (Fin (1 / 10))]"

definition create_test_settings_config :: settings where
  "create_test_settings_config =
     (settings_default plain_sled)\<lparr>set_do_clear := True, set_admin := admin_settings_default\<lparr>admin_key := ''some-key''\<rparr>\<rparr>"

definition test_admin_state :: "rpc list \<Rightarrow> rpc list \<Rightarrow> settings \<Rightarrow> admin_state" where
  "test_admin_state rl pl config =
     \<lparr>ad_rpcs = new_lock rl, ad_poverty = new_lock pl, ad_config = new_lock config, ad_next_id = 2, ad_db = [], ad_exited = False\<rparr>"

definition default_admin_state :: admin_state where
  "default_admin_state = test_admin_state create_test_rpc_list create_test_poverty_list create_test_settings_config"

definition admin_tx :: "json \<Rightarrow> (string \<times> json) list \<Rightarrow> json" where
  "admin_tx m params = obj_of ([(''id'', num 1), (''method'', m)] @ params)"

definition with_params :: "json list \<Rightarrow> (string \<times> json) list" where
  "with_params ps = [(''params'', JArr ps)]"

fun is_ok :: "admin_result \<Rightarrow> bool" where
  "is_ok (Ret (Inr _)) = True"
| "is_ok _ = False"

fun is_err :: "admin_result \<Rightarrow> bool" where
  "is_err (Ret (Inl _)) = True"
| "is_err _ = False"

definition run_method :: "blutgang_rpc_method \<Rightarrow> (string \<times> json) list \<Rightarrow> admin_state \<Rightarrow> admin_result \<times> admin_state" where
  "run_method m params st = execute_method test_admin_env (admin_tx (blutgang_method_serialize m) params) st"

text \<open>The tests of the methods that read.\<close>

definition test_execute_method_blutgang_rpc_list :: bool where
  "test_execute_method_blutgang_rpc_list = is_ok (fst (run_method RpcList [] default_admin_state))"

definition test_execute_method_blutgang_flush_cache :: bool where
  "test_execute_method_blutgang_flush_cache = is_ok (fst (run_method FlushCache [] default_admin_state))"

definition test_execute_method_blutgang_config :: bool where
  "test_execute_method_blutgang_config = is_ok (fst (run_method ConfigMethod [] default_admin_state))"

definition test_execute_method_blutgang_poverty_list :: bool where
  "test_execute_method_blutgang_poverty_list = is_ok (fst (run_method PovertyList [] default_admin_state))"

definition test_execute_method_blutgang_ttl :: bool where
  "test_execute_method_blutgang_ttl = is_ok (fst (run_method Ttl [] default_admin_state))"

definition test_execute_method_blutgang_health_check_ttl :: bool where
  "test_execute_method_blutgang_health_check_ttl = is_ok (fst (run_method HealthCheckTtl [] default_admin_state))"

definition test_execute_method_invalid_method :: bool where
  "test_execute_method_invalid_method =
     is_err (fst (execute_method test_admin_env (admin_tx (JStr ''invalid_method'') []) default_admin_state))"

text \<open>The tests of the methods that write.\<close>

definition test_add_params :: "json \<Rightarrow> (string \<times> json) list" where
  "test_add_params ws = with_params [JStr ''http://example.com'', ws, num 5, num 10, JNum (Float half)]"

definition test_execute_method_add_to_rpc_list :: bool where
  "test_execute_method_add_to_rpc_list =
     (case run_method AddToRpcList (test_add_params (JStr ''ws://example.com'')) default_admin_state of
        (r, st) \<Rightarrow> is_ok r \<and> length (contents (ad_rpcs st)) = length create_test_rpc_list + 1)"

definition test_execute_method_add_to_rpc_list_no_ws :: bool where
  "test_execute_method_add_to_rpc_list_no_ws =
     (case run_method AddToRpcList (test_add_params JNull) default_admin_state of
        (r, st) \<Rightarrow> is_ok r \<and> length (contents (ad_rpcs st)) = length create_test_rpc_list + 1)"

definition test_execute_method_remove_from_rpc_list :: bool where
  "test_execute_method_remove_from_rpc_list =
     (let rl = create_test_rpc_list @ [new_rpc 3 (host_url ''http'' ''example.com'') None 5 1000 half];
          (r1, st1) = run_method RemoveFromRpcList (with_params [num 10])
                        (test_admin_state rl create_test_poverty_list create_test_settings_config);
          (r2, st2) = run_method RemoveFromRpcList (with_params [num 0])
                        (test_admin_state (contents (ad_rpcs st1)) create_test_poverty_list create_test_settings_config)
      in is_err r1 \<and> is_ok r2 \<and> length (contents (ad_rpcs st2)) = length rl - 1)"

definition test_execute_method_blutgang_set_ttl :: bool where
  "test_execute_method_blutgang_set_ttl =
     (case run_method SetTtl (with_params [num 9001]) default_admin_state of
        (r, st) \<Rightarrow> is_ok r \<and> set_ttl (contents (ad_config st)) \<noteq> set_ttl create_test_settings_config \<and>
                   set_ttl (contents (ad_config st)) = 9001)"

definition test_execute_method_blutgang_set_health_check_ttl :: bool where
  "test_execute_method_blutgang_set_health_check_ttl =
     (case run_method SetHealthCheckTtl (with_params [num 9001]) default_admin_state of
        (r, st) \<Rightarrow> is_ok r \<and> set_health_check_ttl (contents (ad_config st)) \<noteq> set_health_check_ttl create_test_settings_config \<and>
                   set_health_check_ttl (contents (ad_config st)) = 9001)"

definition test_rw_protection :: bool where
  "test_rw_protection =
     (let config = create_test_settings_config\<lparr>set_admin := (set_admin create_test_settings_config)\<lparr>admin_readonly := True\<rparr>\<rparr>;
          (r1, st1) = run_method SetHealthCheckTtl (with_params [num 9001])
                        (test_admin_state create_test_rpc_list create_test_poverty_list config);
          (r2, _) = run_method HealthCheckTtl []
                      (test_admin_state create_test_rpc_list create_test_poverty_list (contents (ad_config st1)))
      in is_err r1 \<and> is_ok r2)"

definition test_forward_body :: bool where
  "test_forward_body =
     (case admin_forward_body test_admin_env
             (obj_of [(''id'', num 1), (''jsonrpc'', JStr ''2.0''), (''method'', blutgang_method_serialize Ttl), (''params'', JArr [])])
             (test_admin_state [] [] create_test_settings_config) of
        (Ret _, _) \<Rightarrow> True
      | _ \<Rightarrow> False)"

section \<open>The tests pass\<close>

lemma reading_method_tests_pass:
  "test_execute_method_blutgang_rpc_list" "test_execute_method_blutgang_flush_cache" "test_execute_method_blutgang_config"
  "test_execute_method_blutgang_poverty_list" "test_execute_method_blutgang_ttl" "test_execute_method_blutgang_health_check_ttl"
  "test_execute_method_invalid_method"
  by code_simp+

lemma list_method_tests_pass:
  "test_execute_method_add_to_rpc_list" "test_execute_method_add_to_rpc_list_no_ws" "test_execute_method_remove_from_rpc_list"
  by code_simp+

lemma setting_method_tests_pass:
  "test_execute_method_blutgang_set_ttl" "test_execute_method_blutgang_set_health_check_ttl" "test_rw_protection" "test_forward_body"
  by code_simp+

end
