(* ===== verification/TestConfig.thy ===== *)
theory TestConfig
  imports TestBase StartUp
begin

text \<open>
  The unit tests of \<open>src/src/config/types.rs\<close>, evaluated on the model. The parser of the command line
  is not modelled: a test gives the arguments it stands for. The file \<open>src/example_config.toml\<close> is
  written out as the value the TOML parser returns for it.
\<close>

section \<open>The files\<close>

definition example_core :: "(string \<times> toml) list" where
  "example_core =
     [(''clear_cache'', TBool False), (''address'', TStr ''127.0.0.1''), (''port'', TInt 3000),
      (''ma_length'', TInt 100), (''sort_on_startup'', TBool True), (''health_check'', TBool True),
      (''header_check'', TBool True), (''ttl'', TInt 30), (''max_retries'', TInt 32),
      (''expected_block_time'', TInt 13000), (''health_check_ttl'', TInt 400),
      (''supress_rpc_check'', TBool False), (''db'', TStr ''sled'')]"

definition example_admin :: toml where
  "example_admin =
     TTable [(''path'', TStr ''./blutgang-admin.toml''), (''enable'', TBool False),
      (''address'', TStr ''127.0.0.1''), (''port'', TInt 5715), (''readonly'', TBool True),
      (''jwt'', TBool False), (''key'', TStr '''')]"

definition example_sled :: toml where
  "example_sled =
     TTable [(''path'', TStr ''./blutgang-cache-sled''), (''cache_capacity'', TInt 1000000000),
      (''compression'', TInt 1), (''flush_every_ms'', TInt 12000)]"

definition example_rocksdb :: toml where
  "example_rocksdb =
     TTable [(''create_if_missing'', TBool True), (''create_missing_column_families'', TBool False),
      (''error_if_exists'', TBool False), (''paranoid_checks'', TBool True), (''db_paths'', TArr [TTable
      [(''path'', TStr ''./db''), (''target_size'', TInt 1073741824)]]),
      (''db_log_dir'', TStr ''./db/logs''), (''wal_dir'', TStr ''./db/wal''),
      (''increase_parallelism'', TInt 8), (''optimize_level_style_compaction'', TInt 512),
      (''optimize_universal_style_compaction'', TInt 512), (''optimize_for_point_lookup'', TInt 64),
      (''max_open_files'', TInt 1024), (''max_file_opening_threads'', TInt 4),
      (''max_background_jobs'', TInt 8), (''write_buffer_size'', TInt 64),
      (''max_write_buffer_number'', TInt 4), (''min_write_buffer_number'', TInt 2),
      (''target_file_size_base'', TInt 64), (''max_bytes_for_level_base'', TInt 1024),
      (''max_bytes_for_level_multiplier'', TFloat (Fin 10)),
      (''level_zero_file_num_compaction_trigger'', TInt 4),
      (''level_zero_slowdown_writes_trigger'', TInt 20), (''level_zero_stop_writes_trigger'', TInt 36),
      (''disable_auto_compactions'', TBool False), (''use_fsync'', TBool True),
      (''bytes_per_sync'', TInt 1048576), (''wal_bytes_per_sync'', TInt 1048576),
      (''compression_type'', TStr ''Snappy''), (''bottommost_compression_type'', TStr ''Zstd'')]"

definition example_rpcs :: toml where
  "example_rpcs =
     TArr [TTable [(''url'', TStr ''https://eth.merkle.io''),
      (''ws_url'', TStr ''wss://eth.merkle.io''), (''max_consecutive'', TInt 150),
      (''max_per_second'', TInt 200)]]"

definition example_config :: toml where
  "example_config =
     TTable [(''blutgang'', TTable (example_core @
        [(''admin'', example_admin), (''sled'', example_sled), (''rocksdb'', example_rocksdb)])),
       (''rpc'', example_rpcs)]"

text \<open>The file of \<open>test_admin_enable\<close>.\<close>

definition admin_config_file :: toml where
  "admin_config_file = TTable [(''blutgang'', TTable [(''admin'', TTable [(''enable'', TBool True)])])]"

section \<open>What the tests share\<close>

definition config_path_str :: string where
  "config_path_str = ''example_config.toml''"

definition admin_path_str :: string where
  "admin_path_str = ''blutgang-admin.toml''"

text \<open>The fields of the table \<open>sled\<close> with their aliases.\<close>

definition word_at :: "string list \<Rightarrow> toml \<Rightarrow> 'a::len word option" where
  "word_at ks v = map_option of_int (Option.bind (foldr (\<lambda>k. or_else (toml_get k v)) ks None) toml_integer)"

definition read_sled_table :: "toml \<Rightarrow> sled_config_repr option" where
  "read_sled_table v =
     Some \<lparr>sr_enable = Option.bind (toml_get ''enable'' v) toml_bool,
           sr_path = Option.bind (toml_get ''path'' v) toml_str,
           sr_cache_capacity_bytes = word_at [''cache_capacity_bytes'', ''cache_capacity''] v,
           sr_entry_cache_percent = word_at [''entry_cache_percent''] v,
           sr_flush_every_ms = word_at [''flush_every_ms''] v,
           sr_zstd_compression_level =
             Option.bind (or_else (toml_get ''zstd_compression_level'' v) (toml_get ''compression'' v)) toml_integer\<rparr>"

definition plain_rocksdb :: rocksdb_options_repr where
  "plain_rocksdb =
     \<lparr>rr_enable = None, rr_create_if_missing = None, rr_create_missing_column_families = None,
      rr_error_if_exists = None, rr_paranoid_checks = None, rr_db_paths = None, rr_db_log_dir = None,
      rr_wal_dir = None, rr_increase_parallelism = None, rr_optimize_level_style_compaction = None,
      rr_optimize_universal_style_compaction = None, rr_optimize_for_point_lookup = None,
      rr_max_open_files = None, rr_max_file_opening_threads = None, rr_max_background_jobs = None,
      rr_write_buffer_size = None, rr_max_write_buffer_number = None,
      rr_min_write_buffer_number = None, rr_target_file_size_base = None,
      rr_max_bytes_for_level_base = None, rr_max_bytes_for_level_multiplier = None,
      rr_level_zero_file_num_compaction_trigger = None, rr_level_zero_slowdown_writes_trigger = None,
      rr_level_zero_stop_writes_trigger = None, rr_disable_auto_compactions = None,
      rr_use_fsync = None, rr_bytes_per_sync = None, rr_wal_bytes_per_sync = None,
      rr_compression_type = None, rr_bottommost_compression_type = None\<rparr>"

definition test_config_env :: config_env where
  "test_config_env =
     \<lparr>default_path = None, read_file = Inr,
      parse_toml = (\<lambda>s. if s = config_path_str then Inr example_config
                        else if s = admin_path_str then Inr admin_config_file
                        else Inl ''no such file''),
      env_parse_url = parse_simple_url, parse_socket = Some, read_sled = read_sled_table,
      read_rocksdb = (\<lambda>v. None), rocksdb_repr_default = plain_rocksdb, path_accepted = (\<lambda>p n. True),
      sled_default = plain_sled\<rparr>"

text \<open>The command line with no option but perhaps the path of the file.\<close>

definition test_command :: "string option \<Rightarrow> blutgang_args" where
  "test_command path =
     \<lparr>arg_config = path,
      arg_rpc_list = \<lparr>arg_url = [], arg_ws_url = [], arg_max_consecutive = [], arg_max_per_second = []\<rparr>,
      arg_address = None, arg_port = None, arg_ma_length = None, arg_ttl = None, arg_max_retries = None,
      arg_expected_block_time = None, arg_health_check_ttl = None, arg_clear_cache = False,
      arg_no_clear_cache = False, arg_sort_on_startup = False, arg_no_sort_on_startup = False,
      arg_health_check = False, arg_no_health_check = False, arg_header_check = False,
      arg_no_header_check = False, arg_supress_rpc_check = False, arg_no_supress_rpc_check = False,
      arg_db = None, arg_admin = False, arg_no_admin = False, arg_admin_address = None,
      arg_admin_port = None, arg_admin_readonly = False, arg_no_admin_readonly = False,
      arg_admin_jwt = False, arg_no_admin_jwt = False, arg_admin_key = None\<rparr>"

fun parses :: "(config_error + settings) outcome \<Rightarrow> (settings \<Rightarrow> bool) \<Rightarrow> bool" where
  "parses (Ret (Inr c)) P = P c"
| "parses _ P = False"

definition parse_args :: "blutgang_args \<Rightarrow> (config_error + settings) outcome" where
  "parse_args a = try_parse test_config_env 0 a"

text \<open>\<open>Rpc::get_url\<close>, which only tests have.\<close>

definition get_url :: "rpc \<Rightarrow> url" where
  "get_url r = rpc_url r"

section \<open>The tests\<close>

definition test_example_config :: bool where
  "test_example_config = parses (parse_args (test_command (Some config_path_str))) (\<lambda>c. True)"

definition test_example_config_sled_settings :: bool where
  "test_example_config_sled_settings =
     parses (parse_args (test_command (Some config_path_str)))
       (\<lambda>c. case set_cache c of
              SledSettings s \<Rightarrow>
                sc_cache_capacity_bytes s = 1000000000 \<and> sc_zstd_compression_level s = 1 \<and>
                sc_flush_every_ms s = Some 12000
            | RocksDbSettings opts \<Rightarrow> False)"

definition test_default_config :: bool where
  "test_default_config = parses (parse_args (test_command None)) (\<lambda>c. True)"

definition test_cli_overrides :: bool where
  "test_cli_overrides =
     (let u = ''https://example.com/''
      in case parse_simple_url u of
           None \<Rightarrow> False
         | Some url \<Rightarrow>
             parses (parse_args ((test_command (Some config_path_str))
                \<lparr>arg_rpc_list := \<lparr>arg_url = [url], arg_ws_url = [], arg_max_consecutive = [], arg_max_per_second = []\<rparr>\<rparr>))
               (\<lambda>c. case set_rpc_list c of r # rs \<Rightarrow> url_text (get_url r) = u | [] \<Rightarrow> False))"

definition test_admin_enable :: bool where
  "test_admin_enable =
     (let is_on = (\<lambda>b a. parses (parse_args a) (\<lambda>c. admin_enabled (set_admin c) = b));
          plain = test_command None; config = test_command (Some admin_path_str)
      in is_on False plain \<and> is_on True (plain\<lparr>arg_admin := True\<rparr>) \<and>
         is_on False (plain\<lparr>arg_no_admin := True\<rparr>) \<and>
         is_on True config \<and> is_on False (config\<lparr>arg_no_admin := True\<rparr>))"

definition test_negated_flags_override_config :: bool where
  "test_negated_flags_override_config =
     (parses (parse_args ((test_command (Some config_path_str))
         \<lparr>arg_no_sort_on_startup := True, arg_no_health_check := True, arg_no_header_check := True\<rparr>))
        (\<lambda>c. \<not> set_sort_on_startup c \<and> \<not> set_health_check c \<and> \<not> set_header_check c) \<and>
      parses (parse_args ((test_command None)
         \<lparr>arg_no_clear_cache := True, arg_no_supress_rpc_check := True, arg_admin := True,
          arg_no_admin_readonly := True, arg_no_admin_jwt := True\<rparr>))
        (\<lambda>c. \<not> set_do_clear c \<and> \<not> set_supress_rpc_check c \<and> \<not> admin_readonly (set_admin c) \<and>
             \<not> admin_jwt (set_admin c)))"

lemma config_file_tests_pass:
  "test_example_config" "test_example_config_sled_settings" "test_default_config" "test_cli_overrides"
  by code_simp+

lemma config_flag_tests_pass: "test_admin_enable" "test_negated_flags_override_config"
  by code_simp+

end
