(* ===== verification/Spec2Isabelle.thy ===== *)
theory Spec2Isabelle
  imports EndToEnd PickRuns ConfigSpec Answered Sockets TestSubs TestWs TestBalancer TestHttp TestHealth TestAdmin TestConfig
begin

text \<open>
  Verification development for Blutgang, a load balancer and cache for Ethereum RPC endpoints.

  \<^bold>\<open>The program.\<close> A client sends a JSON-RPC request over HTTP or a websocket. Its block tags
  (\<open>latest\<close>, \<open>finalized\<close>, ...) are rewritten to the numbers they stand for, and the request
  without its id is hashed. If the database holds a response under the hash it is returned with
  the client's id; otherwise an endpoint is picked from the list of active endpoints, asked, and
  asked again elsewhere if it fails, and its response is stored if it may be cached. Beside the
  requests run the health check, which moves endpoints between the active list and the poverty
  list and finds the finalized block; the task that follows the head of the chain over a
  websocket subscription; the manager of the head cache, which deletes stored responses about
  blocks that a reorganisation rolled back; the task that owns the database; the websocket
  connections with the tables of users and subscriptions; and the admin endpoint.

  \<^bold>\<open>The theories\<close>, in the order they build on each other, and the code they translate (paths
  under \<open>src/src\<close>):
  \<^item> \<open>Prelude\<close>: the type names, the result type \<open>outcome\<close> (a value or a panic), locks that can be
    poisoned, and generic lemmas; \<open>F64\<close>: the binary64 numbers as \<open>NaN\<close>, infinities and rationals
    with rounding; \<open>Json\<close>: JSON values with the indexing of \<open>serde_json\<close>, and the record \<open>serde\<close>
    of text formats.
  \<^item> \<open>RpcMethod\<close> and \<open>RpcTypes\<close>: \<open>rpc/method.rs\<close>, \<open>rpc/types.rs\<close>, \<open>rpc/error.rs\<close>.
  \<^item> \<open>Selection\<close>: \<open>balancer/selection/select.rs\<close> with the three algorithms of its features.
  \<^item> \<open>Format\<close>: \<open>balancer/format.rs\<close>; \<open>CacheRules\<close>: \<open>balancer/selection/cache_rules.rs\<close>.
  \<^item> \<open>BTree\<close>: ordered maps; \<open>Database\<close>: \<open>database/types.rs\<close>, \<open>database/accept.rs\<close>. A database is a
    record of operations with a locale for what they promise; both engines, and the handle of
    sled that the tests open, interpret it.
    \<open>DatabaseSpec\<close>: the task as a map that serves requests, and the refinement.
  \<^item> \<open>Processing\<close>: \<open>balancer/processing.rs\<close>; \<open>HeadCache\<close>: \<open>health/head_cache.rs\<close>, with a step
    relation for the interleavings of requests, new heads and finality.
  \<^item> \<open>LiveReady\<close>: \<open>admin/liveready.rs\<close>; \<open>Health\<close>: the rounds of \<open>health/check.rs\<close>.
  \<^item> \<open>AcceptHttp\<close>: \<open>balancer/accept_http.rs\<close>, \<open>balancer/response_errors.rs\<close>.
  \<^item> \<open>SubData\<close>, \<open>SubManager\<close>, \<open>WsClient\<close>: \<open>websocket/types.rs\<close>, \<open>websocket/error.rs\<close>;
    \<open>websocket/subscription_manager.rs\<close> and the dropped connections of \<open>health/check.rs\<close>;
    \<open>websocket/client.rs\<close>, \<open>websocket/server.rs\<close>. \<open>Sockets\<close>: the tasks behind the websocket handles
    of \<open>websocket/client.rs\<close>, across reconnections.
  \<^item> \<open>SafeBlock\<close>: \<open>health/safe_block.rs\<close>, \<open>health/error.rs\<close>, the loop of \<open>health/check.rs\<close>.
  \<^item> \<open>DbConfig\<close>, \<open>Config\<close>, \<open>StartUp\<close>: \<open>config/types/*.rs\<close>; \<open>config/types.rs\<close>,
    \<open>config/cli_args.rs\<close>, \<open>config/error.rs\<close>; \<open>config/setup.rs\<close>, \<open>config/cache_setup.rs\<close> and
    \<open>main.rs\<close> up to the loop that accepts connections. \<open>ConfigSpec\<close>: the precedence of the settings.
  \<^item> \<open>FloatText\<close>, \<open>AdminMethods\<close>: reading and printing floats as the standard library does;
    \<open>admin/methods.rs\<close>, \<open>admin/accept.rs\<close>, \<open>admin/error.rs\<close>.
  \<^item> \<open>Server\<close>: \<open>main\<close> and the accept loops and connections of \<open>main.rs\<close>, \<open>balancer/accept_http.rs\<close> and
    \<open>admin/listener.rs\<close>.
  \<^item> \<open>Pools\<close>: the two endpoint lists under the events of all these tasks in any order; \<open>SubSpec\<close>: the
    tables of the websocket users as a relation, and the refinement; \<open>PickRuns\<close>: the limits of the
    endpoints over runs of picks; \<open>Answered\<close>: when no step of a request panics; \<open>CacheProgram\<close>:
    requests of both kinds, the head of the chain, the manager of the head cache and the database
    task composed, the refinement of the step relation of \<open>HeadCache\<close>, and what it means for the
    answers of requests; \<open>EndToEnd\<close>: from the configuration to the lists of the running program,
    and from a subscription to its notifications.
  \<^item> \<open>JsonText\<close>: a printer and a parser of JSON text, an instance of \<open>serde\<close>; \<open>TestBase\<close>, \<open>TestSubs\<close>,
    \<open>TestWs\<close>, \<open>TestBalancer\<close>, \<open>TestHttp\<close>, \<open>TestHealth\<close>, \<open>TestAdmin\<close>, \<open>TestConfig\<close>: the unit tests of the
    program, each a boolean that makes the calls and the comparisons of the Rust test on the
    definitions above and is proved to hold by evaluation.

  \<^bold>\<open>How code becomes definitions.\<close> A struct is a record, an enumeration a datatype. A function
  that changes something behind a lock or a reference returns the changed value. A panic is
  \<open>Panic\<close>; where it happens while a lock is held for writing the lock is poisoned, and
  \<open>read().unwrap()\<close> on a poisoned lock is a panic, \<open>unwrap_or_else(into_inner)\<close> is not. A
  \<open>Result\<close> is a sum with the error on the left. Integers keep their width. A hash map whose order
  of iteration can be seen is an association list. An \<open>async\<close> function is a function of what it
  is given by the outside (answers of endpoints, messages, times, orders of arrival); where
  other tasks may act while it waits their effect is an argument, as \<open>others\<close> in \<open>outside\<close> and
  \<open>while_waiting\<close> in \<open>ws_surroundings\<close>, and where it may wait for ever the result is \<open>None\<close>.

  \<^bold>\<open>Parameters.\<close> Code that is not of the repository is an argument: the JSON codec (\<open>serde\<close>), the
  HTTP client (\<open>poster\<close>), URL and address parsing, the hash, the database engines, the token
  library, the clock, random numbers, and the unstable sort (any function that sorts). What a
  theorem needs of them is among its hypotheses, and its witness instantiates them.

  \<^bold>\<open>What is shown.\<close> Each theory proves its component's behaviour on every branch, and the
  numbered theorems state what matters most: in every interleaving of all tasks no endpoint is
  in a list twice or in both and none in the active list is flagged; as long as connections hold
  and the admin is silent none is lost; after a round only endpoints that follow the head are
  active; the selection algorithm equals its specification; a request ends after at most
  \<open>max_retries\<close> attempts and is answered from the cache exactly as the endpoint answered; tagged
  requests bypass the cache; a reorganisation leaves no stale entry in any reachable state of
  requests, heads and finality, which the composed program refines (and there are two ways
  outside that relation in which it does: a store that comes late, and a restart); no endpoint
  is picked beyond its limits while another is free; the command line overrides the file; the
  database task refines a map that serves requests in order; the tables of the websocket users
  refine a relation, and a user hears a subscription from the answer to its request until it
  unsubscribes; websocket requests are routed to one endpoint and buffered ones are delivered on
  reconnection, while a reading task of an older connection lives on and can demote the endpoint
  that reconnected; \<open>main\<close> either reports its error or starts in a state that satisfies the
  invariants the tasks keep; the admin endpoint obeys its token and read-only settings. The
  unit tests tie the definitions to the program's own expectations. Theorems that describe unintended
  behaviour are proved in the same way, and say what goes wrong in terms of the definitions.

  \<^bold>\<open>Termination and fuel.\<close> No definition that models the program uses fuel. \<open>fetch_loop\<close> has the
  number of remaining attempts as its measure; every other recursion over what the program does
  is structural, on the list of what a task receives. A wait that never ends is a result: a
  health check whose time limit does not fit the timer is \<open>None\<close>. Only the reader of \<open>JsonText\<close>, which
  stands for a library, has a bound on its steps, three for each character of the text.

  \<^bold>\<open>Not modelled.\<close> Logging and metrics, apart from what reaches the logs of endpoint URLs and
  errors; the allocator; the sockets and the opening of the database files, which are arguments
  of the definitions in \<open>Server\<close>; the terminal interface of \<open>clap\<close>; two unit tests that assert
  nothing; the integration tests (\<open>tests/\<close>), which drive a running program against a real node,
  and the load scripts.
\<close>

end
